(* ===== verification/Prelude.thy ===== *)
theory Prelude
  imports Main "HOL-Library.Word" "HOL-Library.Signed_Division"
begin

text \<open>
  Shared vocabulary of the development: the names of Go's integer types, Go's truncated
  division on them, results that are either an error or a value, decimal printing and
  reading, and the generic list lemmas and lemma collections the components use.
\<close>

section \<open>Lemma collections\<close>

named_theorems money_simps \<open>signed readings of the int64 operations used on amounts\<close>
named_theorems tx_simps \<open>evaluation of transaction programs\<close>
named_theorems tx_elims \<open>inversion of successful transaction programs\<close>
named_theorems frame_simps \<open>which tables a statement leaves alone\<close>

section \<open>Go integers\<close>

type_synonym int64 = "64 word"
type_synonym uint64 = "64 word"
type_synonym int32 = "32 word"

abbreviation MaxInt64 :: int64 where
  "MaxInt64 \<equiv> 0x7FFFFFFFFFFFFFFF"

abbreviation MinInt64 :: int64 where
  "MinInt64 \<equiv> 0x8000000000000000"

definition in_int64 :: "int \<Rightarrow> bool" where
  "in_int64 x \<longleftrightarrow> - (2 ^ 63) \<le> x \<and> x < 2 ^ 63"

lemma sint64_bounds: "- 9223372036854775808 \<le> sint (a :: int64)" "sint (a :: int64) \<le> 9223372036854775807"
  using sint_greater_eq [of a] sint_less [of a] by simp_all

lemma in_int64_sint [simp]: "in_int64 (sint (a :: int64))"
  using sint64_bounds [of a] by (simp add: in_int64_def)

lemma sint_word_of_int_int64 [simp]: "in_int64 x \<Longrightarrow> sint (word_of_int x :: int64) = x"
  by (simp add: in_int64_def signed_take_bit_int_eq_self_iff sint_sbintrunc')

lemma sint_MaxInt64 [simp]: "sint MaxInt64 = 9223372036854775807"
  by simp

lemma sint_MinInt64 [simp]: "sint MinInt64 = - 9223372036854775808"
  by simp

lemma sint_eq_iff [simp]: "(sint a = sint b) \<longleftrightarrow> (a = (b :: int64))"
  by (auto intro: signed_word_eqI)

lemma sint_add64 [money_simps]:
  "in_int64 (sint a + sint b) \<Longrightarrow> sint (a + b :: int64) = sint a + sint b"
  by (simp add: in_int64_def sint_word_ariths signed_take_bit_int_eq_self_iff)

lemma sint_sub64 [money_simps]:
  "in_int64 (sint a - sint b) \<Longrightarrow> sint (a - b :: int64) = sint a - sint b"
  by (simp add: in_int64_def sint_word_ariths signed_take_bit_int_eq_self_iff)

lemma sint_neg64 [money_simps]:
  "a \<noteq> MinInt64 \<Longrightarrow> sint (- a :: int64) = - sint a"
proof -
  assume "a \<noteq> MinInt64"
  then have "sint a \<noteq> - 9223372036854775808"
    using sint_eq_iff [of a MinInt64] by simp
  then have "in_int64 (- sint a)"
    using sint64_bounds [of a] by (simp add: in_int64_def)
  then show ?thesis
    by (simp add: in_int64_def sint_word_ariths signed_take_bit_int_eq_self_iff)
qed

text \<open>Go's \<open>/\<close> and \<open>%\<close> on signed integers truncate towards zero.\<close>

definition go_div :: "int64 \<Rightarrow> int64 \<Rightarrow> int64" where
  "go_div a b = word_of_int (sint a sdiv sint b)"

definition go_mod :: "int64 \<Rightarrow> int64 \<Rightarrow> int64" where
  "go_mod a b = word_of_int (sint a smod sint b)"

lemma sdiv_100: "(x :: int) sdiv 100 = sgn x * (\<bar>x\<bar> div 100)"
  by (simp add: signed_divide_int_def)

lemma smod_100: "(x :: int) smod 100 = sgn x * (\<bar>x\<bar> mod 100)"
  by (simp add: signed_modulo_int_def sdiv_100 sgn_if minus_div_mult_eq_mod [symmetric])

lemma sint_100: "sint (100 :: int64) = 100"
  by simp

lemma sint_go_div_100 [money_simps]: "sint (go_div a 100) = sgn (sint a) * (\<bar>sint a\<bar> div 100)"
proof -
  have "in_int64 (sgn (sint a) * (\<bar>sint a\<bar> div 100))"
    using sint64_bounds [of a] unfolding in_int64_def sgn_if by (simp; linarith)
  then show ?thesis
    unfolding go_div_def sint_100 sdiv_100 by (rule sint_word_of_int_int64)
qed

lemma sint_go_mod_100 [money_simps]: "sint (go_mod a 100) = sgn (sint a) * (\<bar>sint a\<bar> mod 100)"
proof -
  have "0 \<le> \<bar>sint a\<bar> mod 100" "\<bar>sint a\<bar> mod 100 < 100" by simp_all
  then have "in_int64 (sgn (sint a) * (\<bar>sint a\<bar> mod 100))"
    unfolding in_int64_def sgn_if by (simp; linarith)
  then show ?thesis
    unfolding go_mod_def sint_100 smod_100 by (rule sint_word_of_int_int64)
qed

section \<open>Lists\<close>

lemma find_SomeD: "List.find p xs = Some x \<Longrightarrow> x \<in> set xs \<and> p x"
  by (induction xs) (auto split: if_splits)

lemma find_NoneD: "List.find p xs = None \<Longrightarrow> x \<in> set xs \<Longrightarrow> \<not> p x"
  by (simp add: find_None_iff)

end
