(* ===== verification/Errors.thy ===== *)
theory Errors
  imports Prelude
begin

text \<open>
  Go errors as values. The sentinels of the packages \<^verbatim>\<open>domain\<close>,
  \<^verbatim>\<open>wagering\<close>, \<^verbatim>\<open>wallet\<close> and \<^verbatim>\<open>inbox\<close> are constructors of their own;
  \<open>PgError\<close> is a \<^verbatim>\<open>*pgconn.PgError\<close> with its SQLSTATE code and constraint name,
  \<open>PlainError\<close> any other \<^verbatim>\<open>errors.New\<close> value and \<open>Wrapped\<close> what
  \<^verbatim>\<open>fmt.Errorf("...: %w", err)\<close> builds. A function that returns
  \<^verbatim>\<open>(T, error)\<close> returns \<open>error + T\<close>.
\<close>

datatype sentinel =
    ErrInvalidMoneyFormat | ErrCurrencyMismatch | ErrMoneyOverflow
  | ErrInsufficientFunds | ErrInvalidAmount
  | ErrInvalidWalletID | ErrInvalidWalletPlayerID | ErrInvalidWalletCurrency
  | ErrInvalidWalletBalance | ErrInvalidWalletVersion | ErrInvalidWalletTimestamps
  | ErrWalletVersionOverflow
  | ErrInvalidWagerKind | ErrInvalidLossAmount
  | ErrWagerReferenceRequired | ErrWagerReferenceNotAllowed
  | ErrIdempotencyConflict | ErrExternalTransactionExists
  | ErrWagerWalletNotFound | ErrWalletPlayerMismatch
  | ErrReferenceMismatch | ErrInvalidReferenceKind | ErrReferenceAmountMismatch
  | ErrWagerNotFound
  | ErrWalletAlreadyExists | ErrWalletNotFound | ErrInvalidLedgerCursor
  | ErrPayloadConflict

datatype error =
    Sentinel sentinel
  | PgError string string
  | PlainError string
  | Wrapped string error

type_synonym 'a result = "error + 'a"

text \<open>\<^verbatim>\<open>errors.Is\<close> against a sentinel and \<^verbatim>\<open>errors.As\<close> to a
  \<^verbatim>\<open>*pgconn.PgError\<close> walk the chain of wrapped errors.\<close>

fun errors_is :: "error \<Rightarrow> sentinel \<Rightarrow> bool" where
  "errors_is (Sentinel s) t = (s = t)"
| "errors_is (Wrapped _ e) t = errors_is e t"
| "errors_is (PgError _ _) t = False"
| "errors_is (PlainError _) t = False"

fun errors_as_pg :: "error \<Rightarrow> (string \<times> string) option" where
  "errors_as_pg (PgError code constr) = Some (code, constr)"
| "errors_as_pg (Wrapped _ e) = errors_as_pg e"
| "errors_as_pg (Sentinel _) = None"
| "errors_as_pg (PlainError _) = None"

section \<open>Sequencing of fallible steps\<close>

text \<open>\<open>res_bind r k\<close> is \<^verbatim>\<open>x, err := r; if err != nil { return err }; k(x)\<close>.\<close>

definition res_bind :: "'e + 'a \<Rightarrow> ('a \<Rightarrow> 'e + 'b) \<Rightarrow> 'e + 'b" where
  "res_bind r k = (case r of Inl e \<Rightarrow> Inl e | Inr x \<Rightarrow> k x)"

lemma res_bind_simps [simp]:
  "res_bind (Inl e) k = Inl e"
  "res_bind (Inr x) k = k x"
  by (simp_all add: res_bind_def)

lemma res_bind_eq_Inr: "res_bind r k = Inr y \<longleftrightarrow> (\<exists>x. r = Inr x \<and> k x = Inr y)"
  by (cases r) simp_all

lemma res_bind_eq_Inl: "res_bind r k = Inl e \<longleftrightarrow> r = Inl e \<or> (\<exists>x. r = Inr x \<and> k x = Inl e)"
  by (cases r) simp_all

lemma res_bind_cong [fundef_cong]:
  "r = r' \<Longrightarrow> (\<And>x. r' = Inr x \<Longrightarrow> k x = k' x) \<Longrightarrow> res_bind r k = res_bind r' k'"
  by (cases r') simp_all

lemma errors_is_wrapped_iff [simp]: "errors_is (Wrapped m e) t \<longleftrightarrow> errors_is e t"
  by simp

end
