(* ===== verification/Go_Strings.thy ===== *)
theory Go_Strings
  imports Prelude
begin

text \<open>
  What the code uses of Go's \<^verbatim>\<open>strings\<close>, \<^verbatim>\<open>strconv\<close> and \<^verbatim>\<open>fmt\<close>:
  splitting at a byte, decimal integers in and out, and two-digit padding. A Go string is
  its list of bytes.
\<close>

section \<open>Decimal digits\<close>

definition is_digit :: "char \<Rightarrow> bool" where
  "is_digit c \<longleftrightarrow> 48 \<le> (of_char c :: nat) \<and> (of_char c :: nat) \<le> 57"

definition digit_value :: "char \<Rightarrow> nat" where
  "digit_value c = of_char c - 48"

definition digit_char :: "nat \<Rightarrow> char" where
  "digit_char d = char_of (48 + d)"

lemma is_digit_digit_char [simp]: "d < 10 \<Longrightarrow> is_digit (digit_char d)"
  by (simp add: is_digit_def digit_char_def)

lemma digit_value_digit_char [simp]: "d < 10 \<Longrightarrow> digit_value (digit_char d) = d"
  by (simp add: digit_value_def digit_char_def)

lemma digit_char_digit_value [simp]: "is_digit c \<Longrightarrow> digit_char (digit_value c) = c"
  by (simp add: is_digit_def digit_char_def digit_value_def)

lemma digit_value_bound: "is_digit c \<Longrightarrow> digit_value c < 10"
  unfolding is_digit_def digit_value_def by linarith

lemma dot_not_digit [simp]: "\<not> is_digit CHR ''.''"
  by (simp add: is_digit_def)

lemma minus_not_digit [simp]: "\<not> is_digit CHR ''-''"
  by (simp add: is_digit_def)

lemma plus_not_digit [simp]: "\<not> is_digit CHR ''+''"
  by (simp add: is_digit_def)

section \<open>Reading and printing naturals\<close>

definition read_nat :: "string \<Rightarrow> nat" where
  "read_nat s = foldl (\<lambda>n c. 10 * n + digit_value c) 0 s"

fun show_nat :: "nat \<Rightarrow> string" where
  "show_nat n = (if n < 10 then [digit_char n] else show_nat (n div 10) @ [digit_char (n mod 10)])"

declare show_nat.simps [simp del]

lemma read_nat_Nil [simp]: "read_nat [] = 0"
  by (simp add: read_nat_def)

lemma read_nat_snoc [simp]: "read_nat (s @ [c]) = 10 * read_nat s + digit_value c"
  by (simp add: read_nat_def)

lemma read_show_nat [simp]: "read_nat (show_nat n) = n"
proof (induction n rule: show_nat.induct)
  case (1 n)
  show ?case
  proof (cases "n < 10")
    case True
    then show ?thesis
      using read_nat_snoc [of "[]" "digit_char n"] by (simp add: show_nat.simps [of n])
  next
    case False
    with "1.IH" show ?thesis by (simp add: show_nat.simps [of n])
  qed
qed

lemma show_nat_digits [simp]: "list_all is_digit (show_nat n)"
proof (induction n rule: show_nat.induct)
  case (1 n)
  then show ?case by (cases "n < 10") (simp_all add: show_nat.simps [of n])
qed

lemma show_nat_not_Nil [simp]: "show_nat n \<noteq> []"
  by (subst show_nat.simps) simp

lemma show_nat_inject [simp]: "show_nat m = show_nat n \<longleftrightarrow> m = n"
  by (metis read_show_nat)

text \<open>The verbs \<^verbatim>\<open>%d\<close> and \<^verbatim>\<open>%02d\<close>, the latter for the values 0 to 99 the code pads.\<close>

definition show_int :: "int \<Rightarrow> string" where
  "show_int i = (if i < 0 then CHR ''-'' # show_nat (nat (- i)) else show_nat (nat i))"

definition pad2 :: "int \<Rightarrow> string" where
  "pad2 i = (if 0 \<le> i \<and> i < 10 then CHR ''0'' # show_int i else show_int i)"

lemma length_show_nat: "n < 10 ^ w \<Longrightarrow> 0 < w \<Longrightarrow> length (show_nat n) \<le> w"
proof (induction w arbitrary: n)
  case 0
  then show ?case by simp
next
  case (Suc w)
  show ?case
  proof (cases "n < 10")
    case True
    then show ?thesis by (simp add: show_nat.simps [of n])
  next
    case False
    with Suc.prems(1) have "n div 10 < 10 ^ w" "0 < w" by (auto simp: div_less_iff_less_mult intro: ccontr)
    from Suc.IH [OF this] False show ?thesis by (simp add: show_nat.simps [of n])
  qed
qed

lemma show_nat_hd_digit: "is_digit (hd (show_nat n))"
  using show_nat_digits [of n] show_nat_not_Nil [of n] by (cases "show_nat n") auto

lemma show_nat_no_dot [simp]: "CHR ''.'' \<notin> set (show_nat n)"
  using show_nat_digits [of n] by (auto simp: list_all_iff)

lemma show_int_no_dot [simp]: "CHR ''.'' \<notin> set (show_int i)"
  by (simp add: show_int_def)

lemma show_nat_neq_minus: "show_nat m \<noteq> CHR ''-'' # s"
  using show_nat_hd_digit [of m] by auto

lemma show_int_inject [simp]: "show_int i = show_int j \<longleftrightarrow> i = j"
  by (auto simp: show_int_def show_nat_neq_minus show_nat_neq_minus [symmetric])

lemma show_nat_two_digits: "10 \<le> n \<Longrightarrow> n < 100 \<Longrightarrow> show_nat n = [digit_char (n div 10), digit_char (n mod 10)]"
  by (simp add: show_nat.simps [of n] show_nat.simps [of "n div 10"])

lemma show_nat_one_digit: "n < 10 \<Longrightarrow> show_nat n = [digit_char n]"
  by (simp add: show_nat.simps [of n])

lemma digit_char_0: "digit_char 0 = CHR ''0''"
  by code_simp

lemma pad2_digits:
  "0 \<le> i \<Longrightarrow> i < 100 \<Longrightarrow> pad2 i = [digit_char (nat i div 10), digit_char (nat i mod 10)]"
  by (auto simp: pad2_def show_int_def show_nat_one_digit show_nat_two_digits digit_char_0 nat_less_iff)

lemma pad2_length: "0 \<le> i \<Longrightarrow> i < 100 \<Longrightarrow> length (pad2 i) = 2"
  by (simp add: pad2_digits)

lemma pad2_all_digits: "0 \<le> i \<Longrightarrow> i < 100 \<Longrightarrow> list_all is_digit (pad2 i)"
  by (simp add: pad2_digits nat_less_iff)

lemma read_pad2: "0 \<le> i \<Longrightarrow> i < 100 \<Longrightarrow> read_nat (pad2 i) = nat i"
  using read_nat_snoc [of "[digit_char (nat i div 10)]" "digit_char (nat i mod 10)"]
    read_nat_snoc [of "[]" "digit_char (nat i div 10)"]
  by (simp add: pad2_digits nat_less_iff)

lemma read_nat_two_bound:
  assumes "length s = 2" and "list_all is_digit s"
  shows "read_nat s < 100"
proof -
  from assms(1) obtain c d where s: "s = [c, d]"
    by (auto simp: length_Suc_conv numeral_2_eq_2)
  have "read_nat s = 10 * digit_value c + digit_value d"
    using read_nat_snoc [of "[c]" d] read_nat_snoc [of "[]" c] by (simp add: s)
  then show ?thesis
    using assms(2) digit_value_bound [of c] digit_value_bound [of d] by (simp add: s)
qed

section \<open>\<open>strconv.ParseInt(s, 10, 64)\<close>\<close>

text \<open>Syntax is checked before range; where a text has both faults Go may name the other
  one, which no caller tells apart.\<close>

datatype parse_error = ErrSyntax | ErrRange

definition ParseInt :: "string \<Rightarrow> parse_error + int64" where
  "ParseInt s =
     (if s = [] then Inl ErrSyntax
      else let neg = (hd s = CHR ''-'');
               digits = (if hd s = CHR ''-'' \<or> hd s = CHR ''+'' then tl s else s)
           in if digits = [] \<or> \<not> list_all is_digit digits then Inl ErrSyntax
              else if neg then
                (if 2 ^ 63 < read_nat digits then Inl ErrRange
                 else Inr (word_of_int (- int (read_nat digits))))
              else
                (if 2 ^ 63 \<le> read_nat digits then Inl ErrRange
                 else Inr (word_of_int (int (read_nat digits)))))"

lemma ParseInt_digits:
  assumes "s \<noteq> []" and "list_all is_digit s"
  shows "ParseInt s = (if read_nat s < 2 ^ 63 then Inr (word_of_int (int (read_nat s))) else Inl ErrRange)"
proof -
  from assms obtain c t where s: "s = c # t" and "is_digit c" by (cases s) auto
  then have "c \<noteq> CHR ''-''" "c \<noteq> CHR ''+''" by auto
  with assms s show ?thesis by (simp add: ParseInt_def Let_def)
qed

section \<open>\<open>strings.Split\<close> at one byte\<close>

fun split_at :: "char \<Rightarrow> string \<Rightarrow> string list" where
  "split_at c [] = [[]]"
| "split_at c (x # xs) =
     (if x = c then [] # split_at c xs
      else (case split_at c xs of [] \<Rightarrow> [[x]] | y # ys \<Rightarrow> (x # y) # ys))"

lemma split_at_not_Nil [simp]: "split_at c s \<noteq> []"
  by (induction s) (auto split: list.splits)

lemma split_at_absent: "c \<notin> set s \<Longrightarrow> split_at c s = [s]"
  by (induction s) auto

lemma split_at_append: "c \<notin> set a \<Longrightarrow> split_at c (a @ c # b) = a # split_at c b"
  by (induction a) auto

lemma split_at_single: "split_at c s = [a] \<Longrightarrow> s = a \<and> c \<notin> set s"
proof (induction s arbitrary: a)
  case Nil
  then show ?case by simp
next
  case (Cons x s)
  then show ?case by (auto split: if_splits list.splits)
qed

lemma split_at_two: "split_at c s = [a, b] \<longleftrightarrow> s = a @ c # b \<and> c \<notin> set a \<and> c \<notin> set b"
proof
  show "split_at c s = [a, b] \<Longrightarrow> s = a @ c # b \<and> c \<notin> set a \<and> c \<notin> set b"
  proof (induction s arbitrary: a)
    case Nil
    then show ?case by simp
  next
    case (Cons x s)
    show ?case
    proof (cases "x = c")
      case True
      with Cons.prems have "a = []" "split_at c s = [b]" by auto
      with True split_at_single [of c s b] show ?thesis by auto
    next
      case False
      with Cons.prems obtain a' where "a = x # a'" "split_at c s = [a', b]"
        by (auto split: list.splits)
      with False Cons.IH [of a'] show ?thesis by auto
    qed
  qed
qed (auto simp: split_at_append split_at_absent)

end
