(* ===== verification/Domain_Money.thy ===== *)
theory Domain_Money
  imports Errors Go_Strings
begin

text \<open>
  \<^verbatim>\<open>internal/domain/money.go\<close>: amounts in int64 minor units with a currency, strict
  parsing of fixed-two-decimal text, checked arithmetic and printing. \<open>units m\<close> reads an
  amount as an integer; every operation is specified by its effect on that integer.
\<close>

section \<open>The type and its operations\<close>

type_synonym Currency = string

definition BRL :: Currency where
  "BRL = ''BRL''"

record Money =
  amount :: int64
  currency :: Currency

definition NewMoney :: "int64 \<Rightarrow> Currency \<Rightarrow> Money" where
  "NewMoney a c = \<lparr>amount = a, currency = c\<rparr>"

definition Zero :: "Currency \<Rightarrow> Money" where
  "Zero c = \<lparr>amount = 0, currency = c\<rparr>"

definition IsZero :: "Money \<Rightarrow> bool" where
  "IsZero m \<longleftrightarrow> amount m = 0"

definition allDigits :: "string \<Rightarrow> bool" where
  "allDigits value \<longleftrightarrow> value \<noteq> [] \<and> list_all is_digit value"

definition ParseMoney :: "string \<Rightarrow> Currency \<Rightarrow> Money result" where
  "ParseMoney value cur =
     (case split_at CHR ''.'' value of
        [whole, fraction] \<Rightarrow>
          (if whole = [] \<or> length fraction \<noteq> 2 then Inl (Sentinel ErrInvalidMoneyFormat)
           else if \<not> allDigits whole \<or> \<not> allDigits fraction then Inl (Sentinel ErrInvalidMoneyFormat)
           else (case ParseInt whole of
              Inl _ \<Rightarrow> Inl (Sentinel ErrMoneyOverflow)
            | Inr wholeValue \<Rightarrow>
                (case ParseInt fraction of
                   Inl _ \<Rightarrow> Inl (Sentinel ErrInvalidMoneyFormat)
                 | Inr fractionValue \<Rightarrow>
                     (if go_div (MaxInt64 - fractionValue) 100 <s wholeValue
                      then Inl (Sentinel ErrMoneyOverflow)
                      else Inr \<lparr>amount = wholeValue * 100 + fractionValue, currency = cur\<rparr>))))
      | _ \<Rightarrow> Inl (Sentinel ErrInvalidMoneyFormat))"

definition Money_Add :: "Money \<Rightarrow> Money \<Rightarrow> Money result" where
  "Money_Add m other =
     (if currency m \<noteq> currency other then Inl (Sentinel ErrCurrencyMismatch)
      else if 0 <s amount other \<and> MaxInt64 - amount other <s amount m
      then Inl (Sentinel ErrMoneyOverflow)
      else if amount other <s 0 \<and> amount m <s MinInt64 - amount other
      then Inl (Sentinel ErrMoneyOverflow)
      else Inr (NewMoney (amount m + amount other) (currency m)))"

definition Money_Subtract :: "Money \<Rightarrow> Money \<Rightarrow> Money result" where
  "Money_Subtract m other =
     (if currency m \<noteq> currency other then Inl (Sentinel ErrCurrencyMismatch)
      else if amount other = MinInt64 then Inl (Sentinel ErrMoneyOverflow)
      else Money_Add m (NewMoney (- amount other) (currency other)))"

definition Money_Negate :: "Money \<Rightarrow> Money result" where
  "Money_Negate m =
     (if amount m = MinInt64 then Inl (Sentinel ErrMoneyOverflow)
      else Inr (NewMoney (- amount m) (currency m)))"

definition Money_Compare :: "Money \<Rightarrow> Money \<Rightarrow> int result" where
  "Money_Compare m other =
     (if currency m \<noteq> currency other then Inl (Sentinel ErrCurrencyMismatch)
      else if amount m <s amount other then Inr (- 1)
      else if amount other <s amount m then Inr 1
      else Inr 0)"

definition Money_String :: "Money \<Rightarrow> string" where
  "Money_String m =
     (if 0 \<le>s amount m
      then show_int (sint (go_div (amount m) 100)) @ ''.'' @ pad2 (sint (go_mod (amount m) 100))
      else let whole = go_div (amount m) 100;
               fraction = - go_mod (amount m) 100
           in if whole = 0 then ''-0.'' @ pad2 (sint fraction)
              else show_int (sint whole) @ ''.'' @ pad2 (sint fraction))"

section \<open>Reading amounts as integers\<close>

definition units :: "Money \<Rightarrow> int" where
  "units m = sint (amount m)"

lemma units_bounds: "- 9223372036854775808 \<le> units m" "units m \<le> 9223372036854775807"
  using sint64_bounds by (simp_all add: units_def)

lemma in_int64_units [simp]: "in_int64 (units m)"
  by (simp add: units_def)

lemma units_simps [simp]:
  "units (NewMoney a c) = sint a"
  "units (Zero c) = 0"
  "currency (NewMoney a c) = c"
  "amount (NewMoney a c) = a"
  "currency (Zero c) = c"
  "amount (Zero c) = 0"
  by (simp_all add: units_def NewMoney_def Zero_def)

lemma Money_eqI: "units m = units n \<Longrightarrow> currency m = currency n \<Longrightarrow> m = (n :: Money)"
  by (simp add: units_def)

lemma IsZero_units: "IsZero m \<longleftrightarrow> units m = 0"
  using sint_eq_iff [of "amount m" 0] by (simp add: IsZero_def units_def)

lemma NewMoney_eq_iff: "NewMoney a c = m \<longleftrightarrow> a = amount m \<and> c = currency m"
  by (auto simp: NewMoney_def)

subsection \<open>Addition, subtraction, negation\<close>

lemma Money_Add_units:
  "Money_Add m n =
     (if currency m \<noteq> currency n then Inl (Sentinel ErrCurrencyMismatch)
      else if in_int64 (units m + units n)
      then Inr (NewMoney (amount m + amount n) (currency m))
      else Inl (Sentinel ErrMoneyOverflow))"
proof -
  have pos: "0 < sint b \<Longrightarrow> sint (MaxInt64 - b) = 9223372036854775807 - sint b" for b :: int64
    using sint64_bounds [of b] by (subst sint_sub64) (simp_all add: in_int64_def)
  have neg: "sint b < 0 \<Longrightarrow> sint (MinInt64 - b) = - 9223372036854775808 - sint b" for b :: int64
    using sint64_bounds [of b] by (subst sint_sub64) (simp_all add: in_int64_def)
  show ?thesis
    using pos [of "amount n"] neg [of "amount n"]
      sint64_bounds [of "amount m"] sint64_bounds [of "amount n"]
    by (auto simp: Money_Add_def word_sless_alt in_int64_def units_def)
qed

lemma units_add [simp]:
  "in_int64 (units m + units n) \<Longrightarrow> sint (amount m + amount n) = units m + units n"
  by (simp add: units_def sint_add64)

lemma units_sub [simp]:
  "in_int64 (units m - units n) \<Longrightarrow> sint (amount m - amount n) = units m - units n"
  by (simp add: units_def sint_sub64)

lemma Money_Add_Inr:
  "Money_Add m n = Inr r \<longleftrightarrow>
     currency m = currency n \<and> currency r = currency m \<and> units r = units m + units n"
proof
  show "Money_Add m n = Inr r \<Longrightarrow>
      currency m = currency n \<and> currency r = currency m \<and> units r = units m + units n"
    by (auto simp: Money_Add_units split: if_splits)
next
  assume *: "currency m = currency n \<and> currency r = currency m \<and> units r = units m + units n"
  then have "in_int64 (units m + units n)"
    using in_int64_units [of r] by simp
  with * show "Money_Add m n = Inr r"
    by (auto simp: Money_Add_units intro: Money_eqI)
qed

lemma Money_Subtract_units:
  "Money_Subtract m n =
     (if currency m \<noteq> currency n then Inl (Sentinel ErrCurrencyMismatch)
      else if units n = - (2 ^ 63) \<or> \<not> in_int64 (units m - units n) then Inl (Sentinel ErrMoneyOverflow)
      else Inr (NewMoney (amount m - amount n) (currency m)))"
proof -
  have "amount n = MinInt64 \<longleftrightarrow> units n = - (2 ^ 63)"
    using sint_eq_iff [of "amount n" MinInt64] by (simp add: units_def)
  then show ?thesis
    by (auto simp: Money_Subtract_def Money_Add_units sint_neg64 units_def)
qed

lemma Money_Subtract_Inr:
  "Money_Subtract m n = Inr r \<Longrightarrow>
     currency m = currency n \<and> currency r = currency m \<and> units r = units m - units n"
  by (auto simp: Money_Subtract_units split: if_splits)

lemma Money_Compare_units:
  "Money_Compare m n =
     (if currency m \<noteq> currency n then Inl (Sentinel ErrCurrencyMismatch)
      else Inr (sgn (units m - units n)))"
  by (auto simp: Money_Compare_def word_sless_alt units_def)

subsection \<open>Printing\<close>

definition amount_text :: "int \<Rightarrow> string" where
  "amount_text u =
     (if u < 0 then ''-'' else []) @ show_nat (nat (\<bar>u\<bar> div 100)) @ ''.'' @ pad2 (\<bar>u\<bar> mod 100)"

lemma Money_String_text: "Money_String m = amount_text (units m)"
proof (cases "0 \<le> units m")
  case True
  then have "sgn (sint (amount m)) = 1 \<or> sint (amount m) = 0"
    by (auto simp: units_def sgn_if)
  with True show ?thesis
    by (auto simp: Money_String_def amount_text_def word_sle_eq units_def money_simps show_int_def
        pos_imp_zdiv_neg_iff)
next
  case False
  define w where "w = \<bar>units m\<bar> div 100"
  define f where "f = \<bar>units m\<bar> mod 100"
  have f: "0 \<le> f" "f < 100" by (simp_all add: f_def)
  have w: "0 \<le> w" using False by (simp add: w_def div_int_pos_iff)
  have dv: "sint (go_div (amount m) 100) = - w" and md: "sint (go_mod (amount m) 100) = - f"
    using False by (simp_all add: money_simps w_def f_def units_def sgn_if)
  have "go_mod (amount m) 100 \<noteq> MinInt64"
    using md f sint_eq_iff [of "go_mod (amount m) 100" MinInt64] by auto
  then have fr: "sint (- go_mod (amount m) 100) = f"
    using md by (simp add: sint_neg64)
  have z: "go_div (amount m) 100 = 0 \<longleftrightarrow> w = 0"
    using dv sint_eq_iff [of "go_div (amount m) 100" 0] by simp
  have "\<not> 0 \<le>s amount m" using False by (simp add: word_sle_eq units_def)
  moreover have "show_nat 0 = ''0''" by code_simp
  moreover have "amount_text (units m) = ''-'' @ show_nat (nat w) @ ''.'' @ pad2 f"
    using False by (simp add: amount_text_def w_def f_def)
  ultimately show ?thesis
    using w by (auto simp: Money_String_def Let_def z fr dv show_int_def)
qed

lemma pad2_no_dot: "0 \<le> i \<Longrightarrow> i < 100 \<Longrightarrow> CHR ''.'' \<notin> set (pad2 i)"
  using pad2_all_digits [of i] by (auto simp: list_all_iff)

lemma amount_text_inject: "amount_text u = amount_text v \<longleftrightarrow> u = v"
proof
  assume eq: "amount_text u = amount_text v"
  have sgn: "x < 0 \<longleftrightarrow> hd (amount_text x) = CHR ''-''" for x
    using show_nat_hd_digit [of "nat (\<bar>x\<bar> div 100)"] by (auto simp: amount_text_def)
  have neg: "u < 0 \<longleftrightarrow> v < 0" using sgn [of u] sgn [of v] eq by simp
  have "split_at CHR ''.'' (drop (if u < 0 then 1 else 0) (amount_text x)) =
      [show_nat (nat (\<bar>x\<bar> div 100)), pad2 (\<bar>x\<bar> mod 100)]" if "x < 0 \<longleftrightarrow> u < 0" for x
    using that by (subst split_at_two) (auto simp: amount_text_def pad2_no_dot)
  from this [of u] this [of v] eq neg
  have "nat (\<bar>u\<bar> div 100) = nat (\<bar>v\<bar> div 100)" and p: "pad2 (\<bar>u\<bar> mod 100) = pad2 (\<bar>v\<bar> mod 100)"
    by auto
  moreover from p have "\<bar>u\<bar> mod 100 = \<bar>v\<bar> mod 100"
    by (metis read_pad2 Euclidean_Rings.pos_mod_bound Euclidean_Rings.pos_mod_sign
        nat_0_le zero_less_numeral)
  ultimately have "\<bar>u\<bar> = \<bar>v\<bar>"
    by (metis abs_ge_zero div_mult_mod_eq eq_nat_nat_iff pos_imp_zdiv_nonneg_iff zero_less_numeral)
  with neg show "u = v" by linarith
qed simp

subsection \<open>Parsing\<close>

text \<open>The accepted texts: digits, a point, exactly two digits. \<open>money_text w f\<close> is
  the text with whole part \<open>w\<close> and fraction \<open>f\<close>.\<close>

definition money_text :: "string \<Rightarrow> string \<Rightarrow> string \<Rightarrow> bool" where
  "money_text s w f \<longleftrightarrow> s = w @ CHR ''.'' # f \<and> allDigits w \<and> allDigits f \<and> length f = 2"

lemma allDigits_no_dot: "allDigits s \<Longrightarrow> CHR ''.'' \<notin> set s"
  by (auto simp: allDigits_def list_all_iff)

lemma money_text_split: "money_text s w f \<Longrightarrow> split_at CHR ''.'' s = [w, f]"
  by (simp add: money_text_def split_at_two allDigits_no_dot)

lemma ParseMoney_text:
  assumes "money_text s w f"
  shows "ParseMoney s c =
     (if 100 * read_nat w + read_nat f < 2 ^ 63
      then Inr (NewMoney (word_of_int (int (100 * read_nat w + read_nat f))) c)
      else Inl (Sentinel ErrMoneyOverflow))"
proof -
  have w: "w \<noteq> []" "list_all is_digit w" and f: "length f = 2" "f \<noteq> []" "list_all is_digit f"
    using assms by (auto simp: money_text_def allDigits_def)
  have f100: "read_nat f < 100" using f by (simp add: read_nat_two_bound)
  then have pf: "ParseInt f = Inr (word_of_int (int (read_nat f)))"
    using f by (simp add: ParseInt_digits)
  have sf: "sint (word_of_int (int (read_nat f)) :: int64) = int (read_nat f)"
    using f100 by (intro sint_word_of_int_int64) (simp add: in_int64_def)
  then have sm: "sint (MaxInt64 - word_of_int (int (read_nat f))) = 9223372036854775807 - int (read_nat f)"
    using f100 by (subst sint_sub64) (simp_all add: in_int64_def)
  show ?thesis
  proof (cases "read_nat w < 2 ^ 63")
    case False
    with w f show ?thesis
      by (simp add: ParseMoney_def money_text_split [OF assms] allDigits_def ParseInt_digits)
  next
    case True
    have sw: "sint (word_of_int (int (read_nat w)) :: int64) = int (read_nat w)"
      using True by (intro sint_word_of_int_int64) (simp add: in_int64_def)
    have "go_div (MaxInt64 - word_of_int (int (read_nat f))) 100 <s (word_of_int (int (read_nat w)) :: int64)
        \<longleftrightarrow> \<not> 100 * read_nat w + read_nat f < 2 ^ 63"
      unfolding word_sless_alt sw sint_go_div_100 sm using f100 by (simp add: sgn_if) linarith
    then show ?thesis
      using w f True
      by (simp add: ParseMoney_def money_text_split [OF assms] allDigits_def ParseInt_digits pf
          NewMoney_def mult.commute)
  qed
qed

lemma ParseMoney_no_text:
  assumes "\<nexists>w f. money_text s w f"
  shows "ParseMoney s c = Inl (Sentinel ErrInvalidMoneyFormat)"
proof (cases "\<exists>w f. split_at CHR ''.'' s = [w, f]")
  case True
  then obtain w f where wf: "split_at CHR ''.'' s = [w, f]" by blast
  then have "s = w @ CHR ''.'' # f" by (simp add: split_at_two)
  with assms have "\<not> (allDigits w \<and> allDigits f \<and> length f = 2)"
    by (auto simp: money_text_def)
  with wf show ?thesis by (auto simp: ParseMoney_def)
next
  case False
  then show ?thesis by (auto simp: ParseMoney_def split: list.split)
qed

section \<open>Properties\<close>

text \<open>C37: \<^verbatim>\<open>ParseMoney\<close> accepts exactly the texts of digits, a point and two digits whose
  value fits in int64 and returns that value in the currency given; it reports an overflow exactly
  for well-formed texts that do not fit, and a format error for every other text.\<close>

theorem ParseMoney_exact:
  "(ParseMoney s c = Inr m \<longleftrightarrow> currency m = c
      \<and> (\<exists>w f. money_text s w f \<and> units m = 100 * int (read_nat w) + int (read_nat f)))
   \<and> (ParseMoney s c = Inl (Sentinel ErrMoneyOverflow) \<longleftrightarrow>
      (\<exists>w f. money_text s w f \<and> 2 ^ 63 \<le> 100 * read_nat w + read_nat f))
   \<and> (ParseMoney s c = Inl (Sentinel ErrInvalidMoneyFormat) \<longleftrightarrow> (\<nexists>w f. money_text s w f))"
proof (cases "\<exists>w f. money_text s w f")
  case False
  then show ?thesis by (simp add: ParseMoney_no_text)
next
  case True
  then obtain w f where t: "money_text s w f" by blast
  have only: "money_text s w' f' \<longleftrightarrow> w' = w \<and> f' = f" for w' f'
    using t money_text_split [of s w' f'] money_text_split [OF t] by auto
  define v where "v = 100 * read_nat w + read_nat f"
  have "units m = int v \<Longrightarrow> v < 2 ^ 63"
    using units_bounds [of m] by simp
  moreover have "v < 2 ^ 63 \<Longrightarrow> units (NewMoney (word_of_int (int v)) c) = int v"
    unfolding units_simps by (rule sint_word_of_int_int64) (simp add: in_int64_def)
  ultimately show ?thesis
    using ParseMoney_text [OF t, of c, folded v_def] only
    by (auto simp: v_def [symmetric] intro!: Money_eqI simp del: units_simps) (simp_all add: v_def)
qed

text \<open>C38: a non-negative amount printed by \<^verbatim>\<open>String\<close> is parsed back to the same money.\<close>

theorem Money_String_round_trip:
  assumes "0 \<le> units m"
  shows "ParseMoney (Money_String m) (currency m) = Inr m"
proof -
  let ?w = "show_nat (nat (units m div 100))" and ?f = "pad2 (units m mod 100)"
  have "money_text (Money_String m) ?w ?f"
    using assms
    by (simp add: money_text_def Money_String_text amount_text_def allDigits_def pad2_all_digits pad2_length)
      (metis length_0_conv pad2_length pos_mod_bound pos_mod_sign zero_less_numeral zero_neq_numeral)
  from ParseMoney_text [OF this, of "currency m"] show ?thesis
    using assms units_bounds [of m]
    by (auto simp: read_pad2 nat_div_distrib nat_mod_distrib in_int64_def NewMoney_def units_def
        simp flip: nat_add_distrib intro!: Money.equality)
qed

lemma Money_String_round_trip_witness:
  "0 \<le> units (NewMoney 123405 BRL)
   \<and> ParseMoney (Money_String (NewMoney 123405 BRL)) (currency (NewMoney 123405 BRL)) = Inr (NewMoney 123405 BRL)"
proof -
  have "0 \<le> units (NewMoney 123405 BRL)" by simp
  from this Money_String_round_trip [OF this] show ?thesis by (rule conjI)
qed

text \<open>C39: the checked int64 operations on amounts. Addition and subtraction are exact or report an
  overflow, never wrap, and need equal currencies; subtracting the least int64 is refused even where
  the difference is representable. \<^verbatim>\<open>Compare\<close> is the sign of the difference.\<close>

theorem money_arithmetic_exact:
  "Money_Add m n =
     (if currency m \<noteq> currency n then Inl (Sentinel ErrCurrencyMismatch)
      else if in_int64 (units m + units n)
      then Inr (NewMoney (word_of_int (units m + units n)) (currency m))
      else Inl (Sentinel ErrMoneyOverflow))
   \<and> Money_Subtract m n =
     (if currency m \<noteq> currency n then Inl (Sentinel ErrCurrencyMismatch)
      else if units n \<noteq> - (2 ^ 63) \<and> in_int64 (units m - units n)
      then Inr (NewMoney (word_of_int (units m - units n)) (currency m))
      else Inl (Sentinel ErrMoneyOverflow))
   \<and> Money_Compare m n =
     (if currency m \<noteq> currency n then Inl (Sentinel ErrCurrencyMismatch)
      else Inr (sgn (units m - units n)))"
proof -
  have "amount m + amount n = word_of_int (units m + units n)"
    "amount m - amount n = word_of_int (units m - units n)"
    by (simp_all add: units_def)
  then show ?thesis
    unfolding Money_Add_units Money_Subtract_units Money_Compare_units by auto
qed

end
