(* ===== verification/Domain_Wallet.thy ===== *)
theory Domain_Wallet
  imports Domain_Money
begin

text \<open>
  \<^verbatim>\<open>internal/domain/wallet.go\<close>: the wallet aggregate, its validation, and credit and
  debit. The pointer methods return the updated wallet, or an error and the wallet the
  caller still holds. Times are microseconds since the Unix epoch, the resolution of the
  \<^verbatim>\<open>timestamptz\<close> columns; \<open>zero_time\<close> is Go's zero \<^verbatim>\<open>time.Time\<close>.
\<close>

type_synonym time = int

definition zero_time :: time where
  "zero_time = - 62135596800000000"

definition IsZeroTime :: "time \<Rightarrow> bool" where
  "IsZeroTime t \<longleftrightarrow> t = zero_time"

record Wallet =
  ID :: string
  PlayerID :: string
  Balance :: Money
  Version :: int64
  CreatedAt :: time
  UpdatedAt :: time

definition validateWallet :: "Wallet \<Rightarrow> sentinel option" where
  "validateWallet w =
     (if ID w = [] then Some ErrInvalidWalletID
      else if PlayerID w = [] then Some ErrInvalidWalletPlayerID
      else if currency (Balance w) = [] then Some ErrInvalidWalletCurrency
      else if amount (Balance w) <s 0 then Some ErrInvalidWalletBalance
      else if Version w \<le>s 0 then Some ErrInvalidWalletVersion
      else if IsZeroTime (CreatedAt w) \<or> IsZeroTime (UpdatedAt w) then Some ErrInvalidWalletTimestamps
      else None)"

definition NewWallet :: "string \<Rightarrow> string \<Rightarrow> Money \<Rightarrow> time \<Rightarrow> Wallet result" where
  "NewWallet i p initialBalance now =
     (let wallet = \<lparr>ID = i, PlayerID = p, Balance = initialBalance, Version = 1,
                     CreatedAt = now, UpdatedAt = now\<rparr>
      in case validateWallet wallet of Some e \<Rightarrow> Inl (Sentinel e) | None \<Rightarrow> Inr wallet)"

definition ReconstituteWallet ::
  "string \<Rightarrow> string \<Rightarrow> Money \<Rightarrow> int64 \<Rightarrow> time \<Rightarrow> time \<Rightarrow> Wallet result" where
  "ReconstituteWallet i p bal ver created updated =
     (let wallet = \<lparr>ID = i, PlayerID = p, Balance = bal, Version = ver,
                     CreatedAt = created, UpdatedAt = updated\<rparr>
      in case validateWallet wallet of Some e \<Rightarrow> Inl (Sentinel e) | None \<Rightarrow> Inr wallet)"

definition validateVersionIncrement :: "Wallet \<Rightarrow> sentinel option" where
  "validateVersionIncrement w =
     (if Version w \<le>s 0 then Some ErrInvalidWalletVersion
      else if Version w = MaxInt64 then Some ErrWalletVersionOverflow
      else None)"

definition Wallet_Credit :: "Wallet \<Rightarrow> Money \<Rightarrow> time \<Rightarrow> Wallet result" where
  "Wallet_Credit w m now =
     (if amount m \<le>s 0 then Inl (Sentinel ErrInvalidAmount)
      else res_bind (Money_Add (Balance w) m) (\<lambda>newBalance.
        case validateVersionIncrement w of
          Some e \<Rightarrow> Inl (Sentinel e)
        | None \<Rightarrow> Inr (w\<lparr>Balance := newBalance, Version := Version w + 1, UpdatedAt := now\<rparr>)))"

definition Wallet_Debit :: "Wallet \<Rightarrow> Money \<Rightarrow> time \<Rightarrow> Wallet result" where
  "Wallet_Debit w m now =
     (if amount m \<le>s 0 then Inl (Sentinel ErrInvalidAmount)
      else res_bind (Money_Compare (Balance w) m) (\<lambda>comparison.
        if comparison < 0 then Inl (Sentinel ErrInsufficientFunds)
        else res_bind (Money_Subtract (Balance w) m) (\<lambda>newBalance.
          case validateVersionIncrement w of
            Some e \<Rightarrow> Inl (Sentinel e)
          | None \<Rightarrow> Inr (w\<lparr>Balance := newBalance, Version := Version w + 1, UpdatedAt := now\<rparr>))))"

section \<open>Validation\<close>

definition valid_wallet :: "Wallet \<Rightarrow> bool" where
  "valid_wallet w \<longleftrightarrow>
     ID w \<noteq> [] \<and> PlayerID w \<noteq> [] \<and> currency (Balance w) \<noteq> [] \<and> 0 \<le> units (Balance w)
     \<and> 0 < sint (Version w) \<and> CreatedAt w \<noteq> zero_time \<and> UpdatedAt w \<noteq> zero_time"

lemma validateWallet_None: "validateWallet w = None \<longleftrightarrow> valid_wallet w"
  by (auto simp: validateWallet_def valid_wallet_def word_sless_alt word_sle_eq units_def
      IsZeroTime_def split: if_splits)

lemma NewWallet_Inr:
  "NewWallet i p m now = Inr w \<longleftrightarrow>
     w = \<lparr>ID = i, PlayerID = p, Balance = m, Version = 1, CreatedAt = now, UpdatedAt = now\<rparr>
     \<and> valid_wallet w"
  by (auto simp: NewWallet_def Let_def validateWallet_None [symmetric] split: option.splits)

lemma ReconstituteWallet_Inr:
  "ReconstituteWallet i p m v c u = Inr w \<longleftrightarrow>
     w = \<lparr>ID = i, PlayerID = p, Balance = m, Version = v, CreatedAt = c, UpdatedAt = u\<rparr>
     \<and> valid_wallet w"
  by (auto simp: ReconstituteWallet_def Let_def validateWallet_None [symmetric] split: option.splits)

section \<open>Credit and debit\<close>

text \<open>\<open>moved w now d w'\<close>: \<open>w'\<close> is \<open>w\<close> after one movement of \<open>d\<close> units.\<close>

definition moved :: "Wallet \<Rightarrow> time \<Rightarrow> int \<Rightarrow> Wallet \<Rightarrow> bool" where
  "moved w now d w' \<longleftrightarrow>
     ID w' = ID w \<and> PlayerID w' = PlayerID w \<and> CreatedAt w' = CreatedAt w \<and> UpdatedAt w' = now
     \<and> currency (Balance w') = currency (Balance w)
     \<and> units (Balance w') = units (Balance w) + d
     \<and> sint (Version w') = sint (Version w) + 1"

lemma version_increment:
  "validateVersionIncrement w = None \<Longrightarrow> sint (Version w + 1) = sint (Version w) + 1"
proof -
  assume "validateVersionIncrement w = None"
  then have "Version w \<noteq> MaxInt64" "0 < sint (Version w)"
    by (auto simp: validateVersionIncrement_def word_sle_eq split: if_splits)
  moreover from this(1) have "sint (Version w) \<noteq> 9223372036854775807"
    using sint_eq_iff [of "Version w" MaxInt64] by simp
  ultimately show ?thesis
    using sint64_bounds [of "Version w"] by (subst sint_add64) (simp_all add: in_int64_def)
qed

lemma Wallet_Credit_Inr:
  assumes "Wallet_Credit w m now = Inr w'"
  shows "0 < units m \<and> currency m = currency (Balance w) \<and> 0 < sint (Version w)
     \<and> moved w now (units m) w'"
  using assms version_increment [of w]
  by (auto simp: Wallet_Credit_def res_bind_eq_Inr Money_Add_Inr word_sle_eq units_def [symmetric]
      moved_def validateVersionIncrement_def split: if_splits)

lemma Wallet_Debit_Inr:
  assumes "Wallet_Debit w m now = Inr w'"
  shows "0 < units m \<and> units m \<le> units (Balance w) \<and> currency m = currency (Balance w)
     \<and> 0 < sint (Version w) \<and> moved w now (- units m) w'"
proof -
  from assms obtain b where "\<not> amount m \<le>s 0" "currency (Balance w) = currency m"
      "\<not> sgn (units (Balance w) - units m) < 0" "Money_Subtract (Balance w) m = Inr b"
      and v: "validateVersionIncrement w = None"
      and w': "w' = w\<lparr>Balance := b, Version := Version w + 1, UpdatedAt := now\<rparr>"
    by (auto simp: Wallet_Debit_def res_bind_eq_Inr Money_Compare_units split: if_splits option.splits)
  moreover have "0 < sint (Version w)"
    using v by (auto simp: validateVersionIncrement_def word_sle_eq split: if_splits)
  ultimately show ?thesis
    using version_increment [OF v] Money_Subtract_Inr [of "Balance w" m b]
    by (auto simp: word_sle_eq units_def [symmetric] moved_def sgn_if split: if_splits)
qed

lemma Wallet_Debit_insufficient:
  "Wallet_Debit w m now = Inl (Sentinel ErrInsufficientFunds) \<longleftrightarrow>
     0 < units m \<and> currency m = currency (Balance w) \<and> units (Balance w) < units m"
proof -
  have "validateVersionIncrement w \<noteq> Some ErrInsufficientFunds"
    by (simp add: validateVersionIncrement_def)
  then show ?thesis
    by (auto simp: Wallet_Debit_def res_bind_eq_Inl Money_Compare_units Money_Subtract_units
        word_sle_eq units_def [symmetric] sgn_if split: if_splits option.splits)
qed

lemma valid_wallet_moved:
  "valid_wallet w \<Longrightarrow> moved w now d w' \<Longrightarrow> 0 \<le> units (Balance w) + d \<Longrightarrow> now \<noteq> zero_time \<Longrightarrow> valid_wallet w'"
  by (auto simp: valid_wallet_def moved_def)

lemma Wallet_Credit_total:
  assumes "0 < units m" "currency m = currency (Balance w)" "0 < sint (Version w)"
    and "in_int64 (units (Balance w) + units m)" "Version w \<noteq> MaxInt64"
  shows "\<exists>w'. Wallet_Credit w m now = Inr w'"
  using assms
  by (auto simp: Wallet_Credit_def Money_Add_units word_sle_eq units_def [symmetric]
      validateVersionIncrement_def)

lemma Wallet_Debit_total:
  assumes "0 < units m" "currency m = currency (Balance w)" "0 < sint (Version w)"
    and "units m \<le> units (Balance w)" "Version w \<noteq> MaxInt64"
  shows "\<exists>w'. Wallet_Debit w m now = Inr w'"
proof -
  have "in_int64 (units (Balance w) - units m)"
    using assms(1,4) units_bounds [of "Balance w"] by (simp add: in_int64_def)
  with assms show ?thesis
    by (auto simp: Wallet_Debit_def Money_Compare_units Money_Subtract_units word_sle_eq
        units_def [symmetric] validateVersionIncrement_def sgn_if)
qed

section \<open>Properties\<close>

text \<open>\<^verbatim>\<open>Credit\<close> on every branch: it refuses non-positive amounts, other currencies, a
  balance beyond int64 and a version that is not positive or cannot grow, in this order; otherwise
  it adds the amount exactly, adds one to the version and sets the update time.\<close>

theorem Wallet_Credit_spec:
  "Wallet_Credit w m now =
     (if units m \<le> 0 then Inl (Sentinel ErrInvalidAmount)
      else if currency (Balance w) \<noteq> currency m then Inl (Sentinel ErrCurrencyMismatch)
      else if 2 ^ 63 \<le> units (Balance w) + units m then Inl (Sentinel ErrMoneyOverflow)
      else if sint (Version w) \<le> 0 then Inl (Sentinel ErrInvalidWalletVersion)
      else if sint (Version w) = 2 ^ 63 - 1 then Inl (Sentinel ErrWalletVersionOverflow)
      else Inr (w\<lparr>Balance := NewMoney (word_of_int (units (Balance w) + units m)) (currency (Balance w)),
                  Version := word_of_int (sint (Version w) + 1), UpdatedAt := now\<rparr>))"
  using units_bounds [of m] units_bounds [of "Balance w"] sint_eq_iff [of "Version w" MaxInt64]
  by (auto simp: Wallet_Credit_def Money_Add_units validateVersionIncrement_def word_sle_eq in_int64_def)
    (simp_all add: units_def)

text \<open>\<^verbatim>\<open>Debit\<close> on every branch. It never takes more than the balance, so a debit from a
  non-negative balance leaves a non-negative one and cannot overflow.\<close>

theorem Wallet_Debit_spec:
  "Wallet_Debit w m now =
     (if units m \<le> 0 then Inl (Sentinel ErrInvalidAmount)
      else if currency (Balance w) \<noteq> currency m then Inl (Sentinel ErrCurrencyMismatch)
      else if units (Balance w) < units m then Inl (Sentinel ErrInsufficientFunds)
      else if sint (Version w) \<le> 0 then Inl (Sentinel ErrInvalidWalletVersion)
      else if sint (Version w) = 2 ^ 63 - 1 then Inl (Sentinel ErrWalletVersionOverflow)
      else Inr (w\<lparr>Balance := NewMoney (word_of_int (units (Balance w) - units m)) (currency (Balance w)),
                  Version := word_of_int (sint (Version w) + 1), UpdatedAt := now\<rparr>))"
  using units_bounds [of m] units_bounds [of "Balance w"] sint_eq_iff [of "Version w" MaxInt64]
  by (auto simp: Wallet_Debit_def Money_Compare_units Money_Subtract_units validateVersionIncrement_def
      word_sle_eq in_int64_def sgn_if)
    (simp_all add: units_def)

end
