(* ===== verification/Go_Json.thy ===== *)
theory Go_Json
  imports Prelude
begin

text \<open>
  What the code uses of \<^verbatim>\<open>encoding/json\<close>'s \<^verbatim>\<open>Marshal\<close> when it hashes a command:
  an object whose members are strings, in declaration order, with Go's escaping of string
  bytes (quotes, backslash, control characters, \<^verbatim>\<open><\<close>, \<^verbatim>\<open>>\<close>, \<^verbatim>\<open>&\<close>, the line separators
  U+2028 and U+2029, and ill-formed UTF-8 as U+FFFD). The lemmas show that the text
  determines the members when their values are well-formed UTF-8.
\<close>

section \<open>Well-formed UTF-8\<close>

definition byte :: "char \<Rightarrow> nat" where
  "byte c = of_char c"

definition cont :: "nat \<Rightarrow> nat \<Rightarrow> char \<Rightarrow> bool" where
  "cont lo hi c \<longleftrightarrow> lo \<le> byte c \<and> byte c \<le> hi"

text \<open>The length of the multi-byte sequence a string starts with, 0 if it is ill-formed.\<close>

definition utf8_size :: "string \<Rightarrow> nat" where
  "utf8_size s =
     (case s of
        a # b # t \<Rightarrow>
          (if cont 0xC2 0xDF a then (if cont 0x80 0xBF b then 2 else 0)
           else case t of
             c # u \<Rightarrow>
               (if cont 0xE0 0xEF a then
                  (if cont (if byte a = 0xE0 then 0xA0 else 0x80) (if byte a = 0xED then 0x9F else 0xBF) b
                      \<and> cont 0x80 0xBF c then 3 else 0)
                else case u of
                  d # _ \<Rightarrow>
                    (if cont 0xF0 0xF4 a
                        \<and> cont (if byte a = 0xF0 then 0x90 else 0x80) (if byte a = 0xF4 then 0x8F else 0xBF) b
                        \<and> cont 0x80 0xBF c \<and> cont 0x80 0xBF d then 4 else 0)
                | [] \<Rightarrow> 0)
           | [] \<Rightarrow> 0)
      | _ \<Rightarrow> 0)"

lemma cont_high: "cont lo hi c \<Longrightarrow> 0x80 \<le> lo \<Longrightarrow> 0x80 \<le> byte c"
  by (simp add: cont_def)

lemma utf8_size_two: "cont 0xC2 0xDF a \<Longrightarrow> utf8_size (a # b # t) \<noteq> 0 \<Longrightarrow>
    utf8_size (a # b # t) = 2 \<and> 0x80 \<le> byte a \<and> 0x80 \<le> byte b"
  by (auto simp: utf8_size_def dest: cont_high split: if_splits)

lemma utf8_size_three: "\<not> cont 0xC2 0xDF a \<Longrightarrow> cont 0xE0 0xEF a \<Longrightarrow> utf8_size (a # b # c # t) \<noteq> 0 \<Longrightarrow>
    utf8_size (a # b # c # t) = 3 \<and> 0x80 \<le> byte a \<and> 0x80 \<le> byte b \<and> 0x80 \<le> byte c"
  by (auto simp: utf8_size_def dest: cont_high split: if_splits)

lemma utf8_size_four: "\<not> cont 0xC2 0xDF a \<Longrightarrow> \<not> cont 0xE0 0xEF a \<Longrightarrow> utf8_size (a # b # c # d # t) \<noteq> 0 \<Longrightarrow>
    utf8_size (a # b # c # d # t) = 4
    \<and> 0x80 \<le> byte a \<and> 0x80 \<le> byte b \<and> 0x80 \<le> byte c \<and> 0x80 \<le> byte d"
  by (auto simp: utf8_size_def dest: cont_high split: if_splits)

lemma utf8_size_high:
  assumes nz: "utf8_size s \<noteq> 0"
  shows "list_all (\<lambda>c. 0x80 \<le> byte c) (take (utf8_size s) s)"
proof -
  from nz obtain a b t where s: "s = a # b # t"
    by (auto simp: utf8_size_def split: list.splits)
  show ?thesis
  proof (cases "cont 0xC2 0xDF a")
    case True
    with utf8_size_two [of a b t] nz show ?thesis by (simp add: s)
  next
    case n2: False
    with nz obtain c u where t: "t = c # u"
      by (auto simp: s utf8_size_def split: list.splits if_splits)
    show ?thesis
    proof (cases "cont 0xE0 0xEF a")
      case True
      with n2 utf8_size_three [of a b c u] nz show ?thesis by (simp add: s t)
    next
      case n3: False
      with n2 nz obtain d v where "u = d # v"
        by (auto simp: s t utf8_size_def split: list.splits if_splits)
      with n2 n3 utf8_size_four [of a b c d v] nz show ?thesis by (simp add: s t)
    qed
  qed
qed

fun well_formed :: "string \<Rightarrow> bool" where
  "well_formed [] = True"
| "well_formed (c # cs) =
     (if byte c < 0x80 then well_formed cs
      else utf8_size (c # cs) \<noteq> 0 \<and> well_formed (drop (utf8_size (c # cs) - 1) cs))"

section \<open>Escaping\<close>

abbreviation quote_char :: char where
  "quote_char \<equiv> CHR 0x22"

abbreviation backslash :: char where
  "backslash \<equiv> CHR 0x5C"

definition hex_char :: "nat \<Rightarrow> char" where
  "hex_char n = (if n < 10 then char_of (48 + n) else char_of (87 + n))"

definition escape_ascii :: "char \<Rightarrow> string" where
  "escape_ascii c =
     (if c = quote_char \<or> c = backslash then [backslash, c]
      else if byte c = 8 then [backslash, CHR ''b'']
      else if byte c = 12 then [backslash, CHR ''f'']
      else if byte c = 10 then [backslash, CHR ''n'']
      else if byte c = 13 then [backslash, CHR ''r'']
      else if byte c = 9 then [backslash, CHR ''t'']
      else if byte c < 0x20 \<or> c = CHR ''<'' \<or> c = CHR ''>'' \<or> c = CHR ''&''
      then [backslash, CHR ''u'', CHR ''0'', CHR ''0'', hex_char (byte c div 16), hex_char (byte c mod 16)]
      else [c])"

definition line_sep :: "string \<Rightarrow> string option" where
  "line_sep r =
     (if r = [CHR 0xE2, CHR 0x80, CHR 0xA8] then Some (backslash # ''u2028'')
      else if r = [CHR 0xE2, CHR 0x80, CHR 0xA9] then Some (backslash # ''u2029'')
      else None)"

fun json_escape :: "string \<Rightarrow> string" where
  "json_escape [] = []"
| "json_escape (c # cs) =
     (if byte c < 0x80 then escape_ascii c @ json_escape cs
      else let n = utf8_size (c # cs)
           in if n = 0 then (backslash # ''ufffd'') @ json_escape cs
              else (case line_sep (take n (c # cs)) of None \<Rightarrow> take n (c # cs) | Some e \<Rightarrow> e)
                   @ json_escape (drop (n - 1) cs))"

definition json_string :: "string \<Rightarrow> string" where
  "json_string s = quote_char # json_escape s @ [quote_char]"

definition json_member :: "string \<times> string \<Rightarrow> string" where
  "json_member m = json_string (fst m) @ '':'' @ json_string (snd m)"

fun json_members :: "(string \<times> string) list \<Rightarrow> string" where
  "json_members [] = []"
| "json_members [m] = json_member m"
| "json_members (m # n # ms) = json_member m @ '','' @ json_members (n # ms)"

definition json_object :: "(string \<times> string) list \<Rightarrow> string" where
  "json_object ms = ''{'' @ json_members ms @ ''}''"

section \<open>Reading an escaped string back\<close>

definition hex_value :: "char \<Rightarrow> nat" where
  "hex_value c = (if byte c < 58 then byte c - 48 else byte c - 87)"

definition unescape_short :: "char \<Rightarrow> char" where
  "unescape_short e =
     (if e = CHR ''b'' then char_of (8 :: nat) else if e = CHR ''f'' then char_of (12 :: nat)
      else if e = CHR ''n'' then char_of (10 :: nat) else if e = CHR ''r'' then char_of (13 :: nat)
      else if e = CHR ''t'' then char_of (9 :: nat) else e)"

definition unescape_hex :: "char \<Rightarrow> char \<Rightarrow> char \<Rightarrow> char \<Rightarrow> string" where
  "unescape_hex h1 h2 h3 h4 =
     (if [h1, h2] = ''00'' then [char_of (16 * hex_value h3 + hex_value h4)]
      else if [h1, h2, h3, h4] = ''2028'' then [CHR 0xE2, CHR 0x80, CHR 0xA8]
      else if [h1, h2, h3, h4] = ''2029'' then [CHR 0xE2, CHR 0x80, CHR 0xA9]
      else [])"

definition prepend :: "string \<Rightarrow> (string \<times> string) option \<Rightarrow> (string \<times> string) option" where
  "prepend p r = map_option (\<lambda>(s, t). (p @ s, t)) r"

fun unescape :: "string \<Rightarrow> (string \<times> string) option" where
  "unescape [] = None"
| "unescape (c # cs) =
     (if c = quote_char then Some ([], cs)
      else if c = backslash then
        (case cs of
           [] \<Rightarrow> None
         | e # r \<Rightarrow>
             (if e = CHR ''u'' then
                (case r of
                   h1 # h2 # h3 # h4 # r' \<Rightarrow> prepend (unescape_hex h1 h2 h3 h4) (unescape r')
                 | _ \<Rightarrow> None)
              else prepend [unescape_short e] (unescape r)))
      else prepend [c] (unescape cs))"

lemma prepend_Some [simp]: "prepend p (Some (s, t)) = Some (p @ s, t)"
  by (simp add: prepend_def)

lemma prepend_prepend [simp]: "prepend p (prepend q r) = prepend (p @ q) r"
  by (cases r) (auto simp: prepend_def)

lemma prepend_Nil [simp]: "prepend [] r = r"
  by (cases r) (auto simp: prepend_def)

lemma byte_high_neq: "0x80 \<le> byte c \<Longrightarrow> c \<noteq> quote_char \<and> c \<noteq> backslash"
  by (auto simp: byte_def)

lemma unescape_high: "list_all (\<lambda>c. 0x80 \<le> byte c) xs \<Longrightarrow> unescape (xs @ t) = prepend xs (unescape t)"
proof (induction xs)
  case Nil
  then show ?case by (simp del: unescape.simps)
next
  case (Cons x xs)
  then show ?case using byte_high_neq [of x] by simp
qed

lemma hex_value_hex_char: "n < 16 \<Longrightarrow> hex_value (hex_char n) = n"
  by (simp add: hex_value_def hex_char_def byte_def)

lemma char_of_byte [simp]: "char_of (byte c) = c"
  by (simp add: byte_def)

lemma byte_eq_iff: "byte c = n \<Longrightarrow> c = char_of n"
  by auto

lemma unescape_escape_ascii:
  assumes "byte c < 0x80"
  shows "unescape (escape_ascii c @ t) = prepend [c] (unescape t)"
proof -
  have hex: "unescape (backslash # CHR ''u'' # CHR ''0'' # CHR ''0'' # hex_char (byte c div 16)
      # hex_char (byte c mod 16) # t) = prepend [c] (unescape t)"
    using assms by (simp add: unescape_hex_def hex_value_hex_char)
  have short: "e \<noteq> CHR ''u'' \<Longrightarrow> unescape (backslash # e # t) = prepend [unescape_short e] (unescape t)" for e
    by simp
  show ?thesis
  proof (cases "c = quote_char \<or> c = backslash")
    case True
    then show ?thesis by (auto simp: escape_ascii_def unescape_short_def)
  next
    case False
    note nq = this
    show ?thesis
    proof (cases "byte c \<in> {8, 12, 10, 13, 9}")
      case True
      have c: "byte c = k \<Longrightarrow> char_of k = c" for k by auto
      from True consider "byte c = 8" | "byte c = 12" | "byte c = 10" | "byte c = 13" | "byte c = 9"
        by blast
      then show ?thesis
        by cases (use nq in \<open>simp_all add: escape_ascii_def short unescape_short_def c
          del: unescape.simps\<close>)
    next
      case False
      with nq hex show ?thesis by (auto simp: escape_ascii_def)
    qed
  qed
qed

lemma unescape_line_sep: "line_sep r = Some e \<Longrightarrow> unescape (e @ t) = prepend r (unescape t)"
  by (auto simp: line_sep_def unescape_hex_def split: if_splits)

lemma unescape_json_escape:
  "well_formed s \<Longrightarrow> unescape (json_escape s @ quote_char # t) = Some (s, t)"
proof (induction s rule: json_escape.induct)
  case 1
  then show ?case by simp
next
  case (2 c cs)
  show ?case
  proof (cases "byte c < 0x80")
    case True
    with 2 show ?thesis
      by (simp add: unescape_escape_ascii del: unescape.simps)
  next
    case False
    define n where "n = utf8_size (c # cs)"
    from False "2.prems" have n: "n \<noteq> 0" and wf: "well_formed (drop (n - 1) cs)"
      by (simp_all add: n_def)
    have hi: "list_all (\<lambda>c. 0x80 \<le> byte c) (take n (c # cs))"
      using utf8_size_high [of "c # cs"] n by (simp add: n_def)
    have split: "take n (c # cs) @ drop (n - 1) cs = c # cs"
      using n by (cases n) auto
    have rest: "unescape (json_escape (drop (n - 1) cs) @ quote_char # t) = Some (drop (n - 1) cs, t)"
      using "2.IH"(3) [OF False n_def n wf] .
    have enc: "json_escape (c # cs) =
        (case line_sep (take n (c # cs)) of None \<Rightarrow> take n (c # cs) | Some e \<Rightarrow> e) @ json_escape (drop (n - 1) cs)"
      using False n unfolding n_def by (simp add: Let_def)
    have "unescape (json_escape (c # cs) @ quote_char # t) = prepend (take n (c # cs)) (Some (drop (n - 1) cs, t))"
      unfolding enc using rest hi
      by (cases "line_sep (take n (c # cs))")
        (simp_all add: unescape_high unescape_line_sep del: unescape.simps take_Suc_Cons)
    then show ?thesis using split by simp
  qed
qed

section \<open>The text determines the members\<close>

lemma json_string_inject:
  assumes "json_string a @ t = json_string b @ u" "well_formed a" "well_formed b"
  shows "a = b \<and> t = u"
proof -
  have "json_escape a @ quote_char # t = json_escape b @ quote_char # u"
    using assms(1) by (simp add: json_string_def)
  then have "Some (a, t) = Some (b, u)"
    by (simp only: unescape_json_escape [OF assms(2), symmetric]
        unescape_json_escape [OF assms(3), symmetric])
  then show ?thesis by simp
qed

definition members_ok :: "(string \<times> string) list \<Rightarrow> bool" where
  "members_ok ms \<longleftrightarrow> list_all (\<lambda>m. well_formed (fst m) \<and> well_formed (snd m)) ms"

lemma json_member_inject:
  assumes "json_member m @ t = json_member n @ u" "members_ok [m]" "members_ok [n]"
  shows "m = n \<and> t = u"
proof -
  have "json_string (fst m) @ '':'' @ json_string (snd m) @ t
      = json_string (fst n) @ '':'' @ json_string (snd n) @ u"
    using assms(1) by (simp add: json_member_def)
  from json_string_inject [OF this] assms(2,3)
  have "fst m = fst n" and "json_string (snd m) @ t = json_string (snd n) @ u"
    by (auto simp: members_ok_def)
  with json_string_inject [OF this(2)] assms(2,3) show ?thesis
    by (auto simp: members_ok_def prod_eq_iff)
qed

lemma json_members_inject:
  "json_members ms @ ''}'' = json_members ns @ ''}'' \<Longrightarrow> members_ok ms \<Longrightarrow> members_ok ns \<Longrightarrow> ms = ns"
proof (induction ms arbitrary: ns rule: json_members.induct)
  case 1
  then show ?case
    by (cases ns rule: json_members.cases) (auto simp: json_member_def json_string_def)
next
  case (2 m)
  show ?case
  proof (cases ns rule: json_members.cases)
    case 1
    with 2 show ?thesis by (simp add: json_member_def json_string_def)
  next
    case (2 n)
    with "2.prems" json_member_inject [of m "''}''" n "''}''"] show ?thesis by simp
  next
    case (3 n n' ns')
    with "2.prems" json_member_inject [of m "''}''" n "'','' @ json_members (n' # ns') @ ''}''"]
    show ?thesis by (simp add: members_ok_def)
  qed
next
  case (3 m m' ms')
  show ?case
  proof (cases ns rule: json_members.cases)
    case 1
    with 3 show ?thesis by (simp add: json_member_def json_string_def)
  next
    case (2 n)
    with "3.prems" json_member_inject [of m "'','' @ json_members (m' # ms') @ ''}''" n "''}''"]
    show ?thesis by (simp add: members_ok_def)
  next
    case (3 n n' ns')
    from "3.prems" 3
    have "json_member m @ '','' @ json_members (m' # ms') @ ''}''
        = json_member n @ '','' @ json_members (n' # ns') @ ''}''" by simp
    from json_member_inject [OF this] "3.prems" 3
    have "m = n" and "json_members (m' # ms') @ ''}'' = json_members (n' # ns') @ ''}''"
      by (simp_all add: members_ok_def)
    with "3.IH" [of "n' # ns'"] "3.prems" 3 show ?thesis by (simp add: members_ok_def)
  qed
qed

lemma json_object_inject:
  "json_object ms = json_object ns \<Longrightarrow> members_ok ms \<Longrightarrow> members_ok ns \<Longrightarrow> ms = ns"
  by (auto simp: json_object_def intro: json_members_inject)

end
