(* ===== verification/Go_Sha256.thy ===== *)
theory Go_Sha256
  imports Go_Json
begin

text \<open>
  \<^verbatim>\<open>crypto/sha256\<close>'s \<^verbatim>\<open>Sum256\<close> (FIPS 180-4) and \<^verbatim>\<open>encoding/hex\<close>'s
  \<^verbatim>\<open>EncodeToString\<close> on byte strings. The development relies on two facts only: the digest
  is a function of the bytes, and its text is 64 lower-case hexadecimal digits.
\<close>

unbundle bit_operations_syntax

section \<open>Words and constants\<close>

type_synonym u32 = "32 word"

definition rotr32 :: "nat \<Rightarrow> u32 \<Rightarrow> u32" where
  "rotr32 n x = drop_bit n x OR push_bit (32 - n) x"

definition sha_K :: "u32 list" where
  "sha_K =
     [1116352408, 1899447441, 3049323471, 3921009573, 961987163, 1508970993, 2453635748, 2870763221,
      3624381080, 310598401, 607225278, 1426881987, 1925078388, 2162078206, 2614888103, 3248222580,
      3835390401, 4022224774, 264347078, 604807628, 770255983, 1249150122, 1555081692, 1996064986,
      2554220882, 2821834349, 2952996808, 3210313671, 3336571891, 3584528711, 113926993, 338241895,
      666307205, 773529912, 1294757372, 1396182291, 1695183700, 1986661051, 2177026350, 2456956037,
      2730485921, 2820302411, 3259730800, 3345764771, 3516065817, 3600352804, 4094571909, 275423344,
      430227734, 506948616, 659060556, 883997877, 958139571, 1322822218, 1537002063, 1747873779,
      1955562222, 2024104815, 2227730452, 2361852424, 2428436474, 2756734187, 3204031479, 3329325298]"

datatype sha_state = ShaState u32 u32 u32 u32 u32 u32 u32 u32

definition sha_init :: sha_state where
  "sha_init = ShaState 1779033703 3144134277 1013904242 2773480762
     1359893119 2600822924 528734635 1541459225"

section \<open>Padding and blocks\<close>

definition be_bytes :: "nat \<Rightarrow> int \<Rightarrow> char list" where
  "be_bytes k n = rev (map (\<lambda>i. char_of (n div 256 ^ i)) [0..<k])"

definition be_word :: "char list \<Rightarrow> u32" where
  "be_word bs = foldl (\<lambda>a c. push_bit 8 a OR of_char c) 0 bs"

definition sha_pad :: "char list \<Rightarrow> char list" where
  "sha_pad m =
     m @ CHR 0x80 # replicate ((64 - (length m + 9) mod 64) mod 64) (CHR 0x00) @ be_bytes 8 (8 * int (length m))"

function chunks :: "nat \<Rightarrow> 'a list \<Rightarrow> 'a list list" where
  "chunks n xs = (if xs = [] \<or> n = 0 then [] else take n xs # chunks n (drop n xs))"
  by pat_completeness auto
termination
  by (relation "measure (\<lambda>(n, xs). length xs)") auto

declare chunks.simps [simp del]

section \<open>Compression\<close>

definition sigma0 :: "u32 \<Rightarrow> u32" where
  "sigma0 x = rotr32 7 x XOR rotr32 18 x XOR drop_bit 3 x"

definition sigma1 :: "u32 \<Rightarrow> u32" where
  "sigma1 x = rotr32 17 x XOR rotr32 19 x XOR drop_bit 10 x"

text \<open>The message schedule, newest word first.\<close>

fun sha_extend :: "nat \<Rightarrow> u32 list \<Rightarrow> u32 list" where
  "sha_extend 0 ws = ws"
| "sha_extend (Suc n) ws =
     sha_extend n ((sigma1 (ws ! 1) + ws ! 6 + sigma0 (ws ! 14) + ws ! 15) # ws)"

definition sha_schedule :: "char list \<Rightarrow> u32 list" where
  "sha_schedule block = rev (sha_extend 48 (rev (map be_word (chunks 4 block))))"

fun sha_round :: "sha_state \<Rightarrow> u32 \<times> u32 \<Rightarrow> sha_state" where
  "sha_round (ShaState a b c d e f g h) (k, w) =
     (let t1 = h + (rotr32 6 e XOR rotr32 11 e XOR rotr32 25 e) + ((e AND f) XOR (NOT e AND g)) + k + w;
          t2 = (rotr32 2 a XOR rotr32 13 a XOR rotr32 22 a) + ((a AND b) XOR (a AND c) XOR (b AND c))
      in ShaState (t1 + t2) a b c (d + t1) e f g)"

fun sha_add :: "sha_state \<Rightarrow> sha_state \<Rightarrow> sha_state" where
  "sha_add (ShaState a b c d e f g h) (ShaState a' b' c' d' e' f' g' h') =
     ShaState (a + a') (b + b') (c + c') (d + d') (e + e') (f + f') (g + g') (h + h')"

definition sha_block :: "sha_state \<Rightarrow> char list \<Rightarrow> sha_state" where
  "sha_block s block = sha_add s (foldl sha_round s (zip sha_K (sha_schedule block)))"

fun sha_words :: "sha_state \<Rightarrow> u32 list" where
  "sha_words (ShaState a b c d e f g h) = [a, b, c, d, e, f, g, h]"

definition Sum256 :: "char list \<Rightarrow> char list" where
  "Sum256 m =
     concat (map (\<lambda>w. be_bytes 4 (uint w)) (sha_words (foldl sha_block sha_init (chunks 64 (sha_pad m)))))"

definition hex_EncodeToString :: "char list \<Rightarrow> string" where
  "hex_EncodeToString bs = concat (map (\<lambda>c. [hex_char (byte c div 16), hex_char (byte c mod 16)]) bs)"

definition sha256_hex :: "char list \<Rightarrow> string" where
  "sha256_hex m = hex_EncodeToString (Sum256 m)"

lemma length_Sum256 [simp]: "length (Sum256 m) = 32"
proof -
  obtain a b c d e f g h where
    "foldl sha_block sha_init (chunks 64 (sha_pad m)) = ShaState a b c d e f g h"
    by (metis sha_state.exhaust)
  then show ?thesis by (simp add: Sum256_def be_bytes_def)
qed

lemma length_hex_EncodeToString: "length (hex_EncodeToString bs) = 2 * length bs"
  by (induction bs) (simp_all add: hex_EncodeToString_def)

lemma length_sha256_hex [simp]: "length (sha256_hex m) = 64"
  by (simp add: sha256_hex_def length_hex_EncodeToString)

definition is_hex_digit :: "char \<Rightarrow> bool" where
  "is_hex_digit c \<longleftrightarrow> (48 \<le> byte c \<and> byte c \<le> 57) \<or> (97 \<le> byte c \<and> byte c \<le> 102)"

lemma is_hex_digit_hex_char: "n < 16 \<Longrightarrow> is_hex_digit (hex_char n)"
  by (simp add: is_hex_digit_def hex_char_def byte_def)

lemma byte_less: "byte c < 256"
  by (simp add: byte_def)

lemma sha256_hex_digits: "list_all is_hex_digit (sha256_hex m)"
  unfolding sha256_hex_def hex_EncodeToString_def list_all_iff
  by (auto intro!: is_hex_digit_hex_char simp: byte_less less_mult_imp_div_less)

lemma sha256_hex_not_Nil [simp]: "sha256_hex m \<noteq> []"
  using length_sha256_hex [of m] by (metis list.size(3) zero_neq_numeral)

end
