(* ===== verification/Domain_Wager.thy ===== *)
theory Domain_Wager
  imports Domain_Money Go_Sha256
begin

text \<open>
  \<^verbatim>\<open>internal/domain/wager_transaction.go\<close>: wager kinds and states, the wager request with
  its contract validation, and the canonical payload whose SHA-256 identifies a command.
  Kinds and states are strings, as in the source; their constants are opaque to the
  simplifier except for being pairwise different.
\<close>

section \<open>Kinds and states\<close>

type_synonym WagerKind = string
type_synonym WagerState = string

definition WagerKindBet :: WagerKind where "WagerKindBet = ''BET''"
definition WagerKindWin :: WagerKind where "WagerKindWin = ''WIN''"
definition WagerKindLoss :: WagerKind where "WagerKindLoss = ''LOSS''"
definition WagerKindRefund :: WagerKind where "WagerKindRefund = ''REFUND''"
definition WagerKindRollback :: WagerKind where "WagerKindRollback = ''ROLLBACK''"

definition WagerStatePending :: WagerState where "WagerStatePending = ''PENDING''"
definition WagerStatePendingReference :: WagerState where "WagerStatePendingReference = ''PENDING_REFERENCE''"
definition WagerStateProcessed :: WagerState where "WagerStateProcessed = ''PROCESSED''"
definition WagerStateRejected :: WagerState where "WagerStateRejected = ''REJECTED''"
definition WagerStateFailed :: WagerState where "WagerStateFailed = ''FAILED''"

lemmas kind_defs = WagerKindBet_def WagerKindWin_def WagerKindLoss_def WagerKindRefund_def WagerKindRollback_def

lemmas state_defs = WagerStatePending_def WagerStatePendingReference_def WagerStateProcessed_def
  WagerStateRejected_def WagerStateFailed_def

lemma kinds_distinct [simp]:
  "WagerKindBet \<noteq> WagerKindWin" "WagerKindWin \<noteq> WagerKindBet"
  "WagerKindBet \<noteq> WagerKindLoss" "WagerKindLoss \<noteq> WagerKindBet"
  "WagerKindBet \<noteq> WagerKindRefund" "WagerKindRefund \<noteq> WagerKindBet"
  "WagerKindBet \<noteq> WagerKindRollback" "WagerKindRollback \<noteq> WagerKindBet"
  "WagerKindWin \<noteq> WagerKindLoss" "WagerKindLoss \<noteq> WagerKindWin"
  "WagerKindWin \<noteq> WagerKindRefund" "WagerKindRefund \<noteq> WagerKindWin"
  "WagerKindWin \<noteq> WagerKindRollback" "WagerKindRollback \<noteq> WagerKindWin"
  "WagerKindLoss \<noteq> WagerKindRefund" "WagerKindRefund \<noteq> WagerKindLoss"
  "WagerKindLoss \<noteq> WagerKindRollback" "WagerKindRollback \<noteq> WagerKindLoss"
  "WagerKindRefund \<noteq> WagerKindRollback" "WagerKindRollback \<noteq> WagerKindRefund"
  by (simp_all add: kind_defs)

lemma states_distinct [simp]:
  "WagerStatePending \<noteq> WagerStatePendingReference" "WagerStatePendingReference \<noteq> WagerStatePending"
  "WagerStatePending \<noteq> WagerStateProcessed" "WagerStateProcessed \<noteq> WagerStatePending"
  "WagerStatePending \<noteq> WagerStateRejected" "WagerStateRejected \<noteq> WagerStatePending"
  "WagerStatePending \<noteq> WagerStateFailed" "WagerStateFailed \<noteq> WagerStatePending"
  "WagerStatePendingReference \<noteq> WagerStateProcessed" "WagerStateProcessed \<noteq> WagerStatePendingReference"
  "WagerStatePendingReference \<noteq> WagerStateRejected" "WagerStateRejected \<noteq> WagerStatePendingReference"
  "WagerStatePendingReference \<noteq> WagerStateFailed" "WagerStateFailed \<noteq> WagerStatePendingReference"
  "WagerStateProcessed \<noteq> WagerStateRejected" "WagerStateRejected \<noteq> WagerStateProcessed"
  "WagerStateProcessed \<noteq> WagerStateFailed" "WagerStateFailed \<noteq> WagerStateProcessed"
  "WagerStateRejected \<noteq> WagerStateFailed" "WagerStateFailed \<noteq> WagerStateRejected"
  by (simp_all add: state_defs)

definition IsValidExternalKind :: "WagerKind \<Rightarrow> bool" where
  "IsValidExternalKind k \<longleftrightarrow>
     k = WagerKindBet \<or> k = WagerKindWin \<or> k = WagerKindLoss \<or> k = WagerKindRefund \<or> k = WagerKindRollback"

section \<open>Requests\<close>

record WagerRequest =
  reqProviderID :: string
  reqExternalTransactionID :: string
  reqPlayerID :: string
  reqWalletID :: string
  reqRoundID :: string
  reqGameID :: string
  reqKind :: WagerKind
  reqAmount :: Money
  reqReferenceExternalTransactionID :: string

definition ValidateExternal :: "WagerRequest \<Rightarrow> sentinel option" where
  "ValidateExternal r =
     (if \<not> IsValidExternalKind (reqKind r) then Some ErrInvalidWagerKind
      else if reqKind r = WagerKindLoss \<and> \<not> IsZero (reqAmount r) then Some ErrInvalidLossAmount
      else if reqKind r \<noteq> WagerKindLoss \<and> amount (reqAmount r) \<le>s 0 then Some ErrInvalidAmount
      else let hasReference = reqReferenceExternalTransactionID r \<noteq> []
           in if (reqKind r = WagerKindBet \<or> reqKind r = WagerKindLoss) \<and> hasReference
              then Some ErrWagerReferenceNotAllowed
              else if (reqKind r = WagerKindRefund \<or> reqKind r = WagerKindRollback) \<and> \<not> hasReference
              then Some ErrWagerReferenceRequired
              else None)"

text \<open>The contract a validated request meets: its amount and reference by kind.\<close>

definition request_contract :: "WagerRequest \<Rightarrow> bool" where
  "request_contract r \<longleftrightarrow>
     (reqKind r = WagerKindLoss \<and> units (reqAmount r) = 0 \<and> reqReferenceExternalTransactionID r = [])
   \<or> (reqKind r = WagerKindBet \<and> 0 < units (reqAmount r) \<and> reqReferenceExternalTransactionID r = [])
   \<or> (reqKind r = WagerKindWin \<and> 0 < units (reqAmount r))
   \<or> (reqKind r \<in> {WagerKindRefund, WagerKindRollback} \<and> 0 < units (reqAmount r)
      \<and> reqReferenceExternalTransactionID r \<noteq> [])"

lemma ValidateExternal_None: "ValidateExternal r = None \<longleftrightarrow> request_contract r"
  by (auto simp: ValidateExternal_def request_contract_def IsValidExternalKind_def IsZero_units
      word_sle_eq units_def [symmetric] Let_def)

section \<open>The canonical payload and its hash\<close>

record CanonicalPayload =
  cpProviderID :: string
  cpExternalTransactionID :: string
  cpPlayerID :: string
  cpWalletID :: string
  cpRoundID :: string
  cpGameID :: string
  cpKind :: string
  cpAmount :: string
  cpCurrency :: string
  cpReferenceExternalTransactionID :: string

definition canonical_payload :: "WagerRequest \<Rightarrow> CanonicalPayload" where
  "canonical_payload r =
     \<lparr>cpProviderID = reqProviderID r, cpExternalTransactionID = reqExternalTransactionID r,
      cpPlayerID = reqPlayerID r, cpWalletID = reqWalletID r, cpRoundID = reqRoundID r,
      cpGameID = reqGameID r, cpKind = reqKind r, cpAmount = Money_String (reqAmount r),
      cpCurrency = currency (reqAmount r),
      cpReferenceExternalTransactionID = reqReferenceExternalTransactionID r\<rparr>"

text \<open>\<^verbatim>\<open>json.Marshal\<close> of the struct: members in declaration order under their tags,
  the reference dropped when empty (\<^verbatim>\<open>omitempty\<close>).\<close>

definition payload_members :: "CanonicalPayload \<Rightarrow> (string \<times> string) list" where
  "payload_members p =
     [(''providerId'', cpProviderID p), (''externalTransactionId'', cpExternalTransactionID p),
      (''playerId'', cpPlayerID p), (''walletId'', cpWalletID p), (''roundId'', cpRoundID p),
      (''gameId'', cpGameID p), (''kind'', cpKind p), (''amount'', cpAmount p),
      (''currency'', cpCurrency p)]
     @ (if cpReferenceExternalTransactionID p = [] then []
        else [(''referenceExternalTransactionId'', cpReferenceExternalTransactionID p)])"

definition Marshal_CanonicalPayload :: "CanonicalPayload \<Rightarrow> string" where
  "Marshal_CanonicalPayload p = json_object (payload_members p)"

text \<open>Marshalling a struct of strings never fails, so the hash is returned without an error.\<close>

definition PayloadHash :: "WagerRequest \<Rightarrow> string" where
  "PayloadHash r = sha256_hex (Marshal_CanonicalPayload (canonical_payload r))"

lemma length_PayloadHash [simp]: "length (PayloadHash r) = 64"
  by (simp add: PayloadHash_def)

lemma PayloadHash_not_Nil [simp]: "PayloadHash r \<noteq> []"
  by (simp add: PayloadHash_def)

lemma PayloadHash_hex: "list_all is_hex_digit (PayloadHash r)"
  by (simp add: PayloadHash_def sha256_hex_digits)

definition request_utf8 :: "WagerRequest \<Rightarrow> bool" where
  "request_utf8 r \<longleftrightarrow>
     list_all well_formed [reqProviderID r, reqExternalTransactionID r, reqPlayerID r, reqWalletID r,
       reqRoundID r, reqGameID r, reqKind r, currency (reqAmount r), reqReferenceExternalTransactionID r]"

lemma well_formed_ascii: "list_all (\<lambda>c. byte c < 0x80) s \<Longrightarrow> well_formed s"
  by (induction s) auto

lemma well_formed_digits: "list_all is_digit s \<Longrightarrow> well_formed s"
  by (rule well_formed_ascii) (auto simp: list_all_iff is_digit_def byte_def)

lemma list_all_ascii_digits: "list_all is_digit s \<Longrightarrow> list_all (\<lambda>c. byte c < 0x80) s"
  by (auto simp: list_all_iff is_digit_def byte_def)

lemma well_formed_amount_text: "well_formed (amount_text u)"
proof (rule well_formed_ascii)
  have "byte CHR ''-'' < 0x80" "byte CHR ''.'' < 0x80" by (simp_all add: byte_def)
  then show "list_all (\<lambda>c. byte c < 0x80) (amount_text u)"
    by (simp add: amount_text_def list_all_ascii_digits pad2_all_digits)
qed

lemma members_ok_payload: "request_utf8 r \<Longrightarrow> members_ok (payload_members (canonical_payload r))"
proof -
  have names: "list_all well_formed [''providerId'', ''externalTransactionId'', ''playerId'', ''walletId'',
      ''roundId'', ''gameId'', ''kind'', ''amount'', ''currency'', ''referenceExternalTransactionId'']"
    by (simp add: byte_def)
  assume "request_utf8 r"
  with names show ?thesis
    by (simp add: members_ok_def payload_members_def canonical_payload_def request_utf8_def
        Money_String_text well_formed_amount_text del: well_formed.simps)
qed

lemma payload_members_inject: "payload_members p = payload_members q \<Longrightarrow> p = q"
  by (auto simp: payload_members_def split: if_splits)

lemma canonical_payload_inject: "canonical_payload r = canonical_payload q \<Longrightarrow> r = q"
  by (auto simp: canonical_payload_def Money_String_text amount_text_inject intro!: WagerRequest.equality Money_eqI)

section \<open>Properties\<close>

text \<open>\<^verbatim>\<open>ValidateExternal\<close> accepts exactly the requests that meet the contract of their
  kind: a positive amount except for LOSS, whose amount is zero; no reference for BET and LOSS; a
  reference for REFUND and ROLLBACK. A wrong reference is reported only when kind and amount are right.\<close>

theorem ValidateExternal_contract:
  "(ValidateExternal r = None \<longleftrightarrow> request_contract r)
   \<and> (ValidateExternal r = Some ErrInvalidWagerKind \<longleftrightarrow>
      reqKind r \<notin> {WagerKindBet, WagerKindWin, WagerKindLoss, WagerKindRefund, WagerKindRollback})
   \<and> (ValidateExternal r = Some ErrWagerReferenceNotAllowed \<longleftrightarrow>
      reqReferenceExternalTransactionID r \<noteq> []
      \<and> (reqKind r = WagerKindBet \<and> 0 < units (reqAmount r) \<or> reqKind r = WagerKindLoss \<and> units (reqAmount r) = 0))
   \<and> (ValidateExternal r = Some ErrWagerReferenceRequired \<longleftrightarrow>
      reqReferenceExternalTransactionID r = [] \<and> 0 < units (reqAmount r)
      \<and> reqKind r \<in> {WagerKindRefund, WagerKindRollback})"
  unfolding ValidateExternal_None
  by (auto simp: ValidateExternal_def IsValidExternalKind_def IsZero_units word_sle_eq
      units_def [symmetric] Let_def)

text \<open>C36: the canonical JSON text of a request determines it, over UTF-8 texts: no two different
  requests are hashed from the same bytes, so equal payload hashes mean the same request or an
  explicit SHA-256 collision.\<close>

theorem PayloadHash_identifies_request:
  assumes "request_utf8 r" "request_utf8 q"
  shows "PayloadHash r = PayloadHash q \<longleftrightarrow>
     r = q \<or> (Marshal_CanonicalPayload (canonical_payload r) \<noteq> Marshal_CanonicalPayload (canonical_payload q)
              \<and> sha256_hex (Marshal_CanonicalPayload (canonical_payload r))
                = sha256_hex (Marshal_CanonicalPayload (canonical_payload q)))"
  using json_object_inject [OF _ members_ok_payload members_ok_payload, OF _ assms]
    payload_members_inject canonical_payload_inject
  by (auto simp: PayloadHash_def Marshal_CanonicalPayload_def)

definition bet_request :: "string \<Rightarrow> WagerRequest" where
  "bet_request external =
     \<lparr>reqProviderID = ''p'', reqExternalTransactionID = external, reqPlayerID = ''a'', reqWalletID = ''1'',
      reqRoundID = ''r'', reqGameID = ''g'', reqKind = WagerKindBet, reqAmount = NewMoney 3000 BRL,
      reqReferenceExternalTransactionID = []\<rparr>"

lemma PayloadHash_identifies_request_witness:
  "PayloadHash (bet_request ''x'') = PayloadHash (bet_request ''y'') \<longleftrightarrow>
     Marshal_CanonicalPayload (canonical_payload (bet_request ''x''))
       \<noteq> Marshal_CanonicalPayload (canonical_payload (bet_request ''y''))
     \<and> sha256_hex (Marshal_CanonicalPayload (canonical_payload (bet_request ''x'')))
       = sha256_hex (Marshal_CanonicalPayload (canonical_payload (bet_request ''y'')))"
proof -
  have "request_utf8 (bet_request ''x'')" "request_utf8 (bet_request ''y'')"
    by (simp_all add: request_utf8_def bet_request_def kind_defs BRL_def byte_def)
  from PayloadHash_identifies_request [OF this] show ?thesis
    by (simp add: bet_request_def)
qed

end
