(* ===== verification/Event_Payload.thy ===== *)
theory Event_Payload
  imports Domain_Wallet Domain_Wager
begin

text \<open>
  \<^verbatim>\<open>internal/application/eventpayload/payload.go\<close>: the event envelope, the data of the four
  event types and their constructors. A constructor's \<^verbatim>\<open>uuid.New()\<close> is an argument, drawn
  by the caller. UUIDs are 128-bit words.
\<close>

type_synonym uuid = "128 word"

definition eventVersion :: int where
  "eventVersion = 1"

definition optionalString :: "string \<Rightarrow> string option" where
  "optionalString v = (if v = [] then None else Some v)"

record event_money =
  evAmount :: string
  evCurrency :: string

definition eventpayload_NewMoney :: "Money \<Rightarrow> event_money" where
  "eventpayload_NewMoney m = \<lparr>evAmount = Money_String m, evCurrency = currency m\<rparr>"

record WagerTransactionProcessedData =
  pdTransactionID :: string
  pdWalletID :: string
  pdKind :: string

record WagerTransactionRejectedData =
  rdTransactionID :: string
  rdWalletID :: string
  rdProviderID :: string
  rdKind :: string
  rdFailureCode :: string

record WagerTransactionPendingReferenceData =
  ndTransactionID :: string
  ndProviderID :: string
  ndExternalTransactionID :: string
  ndReferenceExternalTransactionID :: string

record WalletBalanceChangedData =
  bdWalletID :: string
  bdTransactionID :: string
  bdDirection :: string
  bdMoney :: event_money
  bdBalanceBefore :: event_money
  bdBalanceAfter :: event_money
  bdWalletVersion :: int64

datatype event_data =
    ProcessedData WagerTransactionProcessedData
  | RejectedData WagerTransactionRejectedData
  | PendingReferenceData WagerTransactionPendingReferenceData
  | BalanceChangedData WalletBalanceChangedData

record eventEnvelope =
  EventIDValue :: uuid
  EventTypeValue :: string
  AggregateIDValue :: uuid
  CorrelationIDValue :: string
  CausationIDValue :: "string option"
  OccurredAtValue :: time
  VersionValue :: int
  Data :: event_data

definition NewWagerTransactionProcessedEvent ::
  "uuid \<Rightarrow> uuid \<Rightarrow> string \<Rightarrow> string \<Rightarrow> time \<Rightarrow> WagerTransactionProcessedData \<Rightarrow> eventEnvelope" where
  "NewWagerTransactionProcessedEvent eventID aggregateID correlationID causationID occurredAt d =
     \<lparr>EventIDValue = eventID, EventTypeValue = ''WagerTransactionProcessed'',
      AggregateIDValue = aggregateID, CorrelationIDValue = correlationID,
      CausationIDValue = optionalString causationID, OccurredAtValue = occurredAt,
      VersionValue = eventVersion, Data = ProcessedData d\<rparr>"

definition NewWagerTransactionRejectedEvent ::
  "uuid \<Rightarrow> uuid \<Rightarrow> string \<Rightarrow> string \<Rightarrow> time \<Rightarrow> WagerTransactionRejectedData \<Rightarrow> eventEnvelope" where
  "NewWagerTransactionRejectedEvent eventID aggregateID correlationID causationID occurredAt d =
     \<lparr>EventIDValue = eventID, EventTypeValue = ''WagerTransactionRejected'',
      AggregateIDValue = aggregateID, CorrelationIDValue = correlationID,
      CausationIDValue = optionalString causationID, OccurredAtValue = occurredAt,
      VersionValue = eventVersion, Data = RejectedData d\<rparr>"

definition NewWagerTransactionPendingReferenceEvent ::
  "uuid \<Rightarrow> uuid \<Rightarrow> string \<Rightarrow> string \<Rightarrow> time \<Rightarrow> WagerTransactionPendingReferenceData \<Rightarrow> eventEnvelope" where
  "NewWagerTransactionPendingReferenceEvent eventID aggregateID correlationID causationID occurredAt d =
     \<lparr>EventIDValue = eventID, EventTypeValue = ''WagerTransactionPendingReference'',
      AggregateIDValue = aggregateID, CorrelationIDValue = correlationID,
      CausationIDValue = optionalString causationID, OccurredAtValue = occurredAt,
      VersionValue = eventVersion, Data = PendingReferenceData d\<rparr>"

definition NewWalletBalanceChangedEvent ::
  "uuid \<Rightarrow> uuid \<Rightarrow> string \<Rightarrow> string \<Rightarrow> time \<Rightarrow> WalletBalanceChangedData \<Rightarrow> eventEnvelope" where
  "NewWalletBalanceChangedEvent eventID aggregateID correlationID causationID occurredAt d =
     \<lparr>EventIDValue = eventID, EventTypeValue = ''WalletBalanceChanged'',
      AggregateIDValue = aggregateID, CorrelationIDValue = correlationID,
      CausationIDValue = optionalString causationID, OccurredAtValue = occurredAt,
      VersionValue = eventVersion, Data = BalanceChangedData d\<rparr>"

lemmas event_defs = NewWagerTransactionProcessedEvent_def NewWagerTransactionRejectedEvent_def
  NewWagerTransactionPendingReferenceEvent_def NewWalletBalanceChangedEvent_def

end
