(* ===== verification/Pg_Schema.thy ===== *)
theory Pg_Schema
  imports Event_Payload
begin

text \<open>
  The tables of \<^verbatim>\<open>migrations/\<close> (after all seven migrations) with their constraints, and the
  row changes the code's statements make. A table is the list of its rows in insertion
  order; nullable columns are options. A statement that leaves a table in violation of a
  declared constraint fails with the SQLSTATE and constraint name PostgreSQL reports:
  enum and uuid input first, then the widths of the columns, then CHECK constraints in the
  order of their names, unique indexes in the order of their creation, foreign keys last.
  (PostgreSQL cuts off an excess of blanks alone; here it is refused as any other.)
\<close>

section \<open>Rows\<close>

record wallet_row =
  w_id :: uuid
  w_player_id :: string
  w_currency :: string
  w_balance :: int64
  w_version :: int64
  w_created_at :: time
  w_updated_at :: time

record wager_row =
  t_id :: uuid
  t_provider_id :: "string option"
  t_external_transaction_id :: "string option"
  t_idempotency_key :: "string option"
  t_payload_hash :: "string option"
  t_wallet_id :: uuid
  t_player_id :: string
  t_round_id :: "string option"
  t_game_id :: "string option"
  t_kind :: string
  t_state :: string
  t_amount :: int64
  t_currency :: string
  t_reference_external_transaction_id :: "string option"
  t_referenced_transaction_id :: "uuid option"
  t_failure_code :: "string option"
  t_result_balance :: "int64 option"
  t_created_at :: time
  t_updated_at :: time
  t_reference_attempts :: int
  t_reference_next_attempt_at :: "time option"
  t_reference_expires_at :: "time option"
  t_correlation_id :: "string option"
  t_causation_id :: "string option"

record ledger_row =
  l_id :: uuid
  l_wallet_id :: uuid
  l_transaction_id :: uuid
  l_direction :: string
  l_amount :: int64
  l_balance_before :: int64
  l_balance_after :: int64
  l_created_at :: time

record inbox_row =
  i_consumer_name :: string
  i_message_id :: string
  i_payload_hash :: string
  i_received_at :: time
  i_completed_at :: "time option"

record outbox_row =
  o_id :: uuid
  o_aggregate_id :: uuid
  o_event_type :: string
  o_payload :: eventEnvelope
  o_occurred_at :: time
  o_attempts :: int
  o_next_attempt_at :: time
  o_published_at :: "time option"

record database =
  wallets :: "wallet_row list"
  wager_transactions :: "wager_row list"
  ledger_entries :: "ledger_row list"
  inbox_messages :: "inbox_row list"
  outbox_events :: "outbox_row list"

section \<open>Constraints\<close>

definition KindOpening :: string where
  "KindOpening = ''OPENING''"

lemma KindOpening_distinct [simp]:
  "KindOpening \<noteq> WagerKindBet" "WagerKindBet \<noteq> KindOpening"
  "KindOpening \<noteq> WagerKindWin" "WagerKindWin \<noteq> KindOpening"
  "KindOpening \<noteq> WagerKindLoss" "WagerKindLoss \<noteq> KindOpening"
  "KindOpening \<noteq> WagerKindRefund" "WagerKindRefund \<noteq> KindOpening"
  "KindOpening \<noteq> WagerKindRollback" "WagerKindRollback \<noteq> KindOpening"
  by (simp_all add: KindOpening_def kind_defs)

definition DirectionCredit :: string where "DirectionCredit = ''CREDIT''"
definition DirectionDebit :: string where "DirectionDebit = ''DEBIT''"

lemma directions_distinct [simp]: "DirectionCredit \<noteq> DirectionDebit" "DirectionDebit \<noteq> DirectionCredit"
  by (simp_all add: DirectionCredit_def DirectionDebit_def)

type_synonym 'r check = "string \<times> ('r \<Rightarrow> bool)"
type_synonym 'r unique = "string \<times> ('r \<Rightarrow> 'r \<Rightarrow> bool)"

definition btrim_nonempty :: "string \<Rightarrow> bool" where
  "btrim_nonempty s \<longleftrightarrow> list_ex (\<lambda>c. c \<noteq> CHR '' '') s"

definition some_nonempty :: "string option \<Rightarrow> bool" where
  "some_nonempty x \<longleftrightarrow> (case x of None \<Rightarrow> False | Some s \<Rightarrow> s \<noteq> [])"

definition coalesce :: "string option \<Rightarrow> string" where
  "coalesce x = (case x of None \<Rightarrow> [] | Some s \<Rightarrow> s)"

definition both_some_eq :: "'a option \<Rightarrow> 'a option \<Rightarrow> bool" where
  "both_some_eq x y \<longleftrightarrow> x \<noteq> None \<and> x = y"

definition wallet_checks :: "wallet_row check list" where
  "wallet_checks =
     [(''wallets_balance_non_negative'', \<lambda>r. 0 \<le>s w_balance r),
      (''wallets_version_positive'', \<lambda>r. 1 \<le>s w_version r)]"

definition wallet_uniques :: "wallet_row unique list" where
  "wallet_uniques =
     [(''wallets_pkey'', \<lambda>a b. w_id a = w_id b),
      (''wallets_player_currency_unique'',
       \<lambda>a b. w_player_id a = w_player_id b \<and> w_currency a = w_currency b)]"

definition external_kinds :: "string list" where
  "external_kinds = [WagerKindBet, WagerKindWin, WagerKindLoss, WagerKindRefund, WagerKindRollback]"

definition wager_enums :: "wager_row \<Rightarrow> bool" where
  "wager_enums r \<longleftrightarrow>
     t_kind r \<in> set (KindOpening # external_kinds)
     \<and> t_state r \<in> {WagerStatePending, WagerStatePendingReference, WagerStateProcessed,
                    WagerStateRejected, WagerStateFailed}"

definition origin_metadata :: "wager_row \<Rightarrow> bool" where
  "origin_metadata r \<longleftrightarrow>
     (t_kind r = KindOpening \<and> t_state r = WagerStateProcessed
      \<and> t_provider_id r = None \<and> t_external_transaction_id r = None \<and> t_idempotency_key r = None
      \<and> t_payload_hash r = None \<and> t_round_id r = None \<and> t_game_id r = None
      \<and> t_reference_external_transaction_id r = None \<and> t_referenced_transaction_id r = None
      \<and> t_failure_code r = None \<and> t_result_balance r = Some (t_amount r)
      \<and> t_player_id r \<noteq> [] \<and> btrim_nonempty (t_currency r))
   \<or> (t_kind r \<in> set external_kinds
      \<and> some_nonempty (t_provider_id r) \<and> some_nonempty (t_external_transaction_id r)
      \<and> some_nonempty (t_idempotency_key r)
      \<and> (case t_payload_hash r of None \<Rightarrow> False | Some h \<Rightarrow> btrim_nonempty h)
      \<and> t_player_id r \<noteq> [] \<and> some_nonempty (t_round_id r) \<and> some_nonempty (t_game_id r)
      \<and> btrim_nonempty (t_currency r))"

definition amount_by_kind :: "wager_row \<Rightarrow> bool" where
  "amount_by_kind r \<longleftrightarrow>
     (t_kind r = WagerKindLoss \<and> t_amount r = 0)
   \<or> (t_kind r \<in> {KindOpening, WagerKindBet, WagerKindWin, WagerKindRefund, WagerKindRollback}
      \<and> 0 <s t_amount r)"

definition reference_applicability :: "wager_row \<Rightarrow> bool" where
  "reference_applicability r \<longleftrightarrow>
     (t_kind r = KindOpening \<and> t_reference_external_transaction_id r = None
      \<and> t_referenced_transaction_id r = None)
   \<or> (t_kind r \<in> {WagerKindBet, WagerKindLoss} \<and> coalesce (t_reference_external_transaction_id r) = []
      \<and> t_referenced_transaction_id r = None)
   \<or> (t_kind r = WagerKindWin
      \<and> (t_referenced_transaction_id r = None \<or> some_nonempty (t_reference_external_transaction_id r)))
   \<or> (t_kind r \<in> {WagerKindRefund, WagerKindRollback}
      \<and> some_nonempty (t_reference_external_transaction_id r))"

definition wager_checks :: "wager_row check list" where
  "wager_checks =
     [(''wager_external_amount_non_negative'', \<lambda>r. t_kind r = KindOpening \<or> 0 \<le>s t_amount r),
      (''wager_transactions_amount_by_kind_check'', amount_by_kind),
      (''wager_transactions_origin_metadata_check'', origin_metadata),
      (''wager_transactions_reference_applicability_check'', reference_applicability),
      (''wager_transactions_reference_attempts_non_negative'', \<lambda>r. 0 \<le> t_reference_attempts r),
      (''wager_transactions_reference_kind_check'',
       \<lambda>r. t_referenced_transaction_id r = None
           \<or> t_kind r \<in> {WagerKindWin, WagerKindRefund, WagerKindRollback}),
      (''wager_transactions_result_balance_non_negative'',
       \<lambda>r. case t_result_balance r of None \<Rightarrow> True | Some b \<Rightarrow> 0 \<le>s b)]"

text \<open>A processed refund or rollback of some transaction: the rows of the partial unique index
  \<^verbatim>\<open>wager_single_processed_reversal_idx\<close>.\<close>

definition processed_reversal :: "wager_row \<Rightarrow> bool" where
  "processed_reversal r \<longleftrightarrow>
     t_state r = WagerStateProcessed \<and> t_kind r \<in> {WagerKindRefund, WagerKindRollback}
     \<and> t_referenced_transaction_id r \<noteq> None"

definition wager_uniques :: "wager_row unique list" where
  "wager_uniques =
     [(''wager_transactions_pkey'', \<lambda>a b. t_id a = t_id b),
      (''wager_external_identity_unique'',
       \<lambda>a b. both_some_eq (t_provider_id a) (t_provider_id b)
             \<and> both_some_eq (t_external_transaction_id a) (t_external_transaction_id b)),
      (''wager_idempotency_unique'',
       \<lambda>a b. both_some_eq (t_provider_id a) (t_provider_id b)
             \<and> both_some_eq (t_idempotency_key a) (t_idempotency_key b)),
      (''ux_wager_transactions_wallet_opening'',
       \<lambda>a b. t_kind a = KindOpening \<and> t_kind b = KindOpening \<and> t_wallet_id a = t_wallet_id b),
      (''wager_single_processed_reversal_idx'',
       \<lambda>a b. processed_reversal a \<and> processed_reversal b
             \<and> t_referenced_transaction_id a = t_referenced_transaction_id b)]"

definition ledger_arithmetic :: "ledger_row \<Rightarrow> bool" where
  "ledger_arithmetic r \<longleftrightarrow>
     (l_direction r = DirectionDebit \<and> sint (l_balance_after r) = sint (l_balance_before r) - sint (l_amount r))
   \<or> (l_direction r = DirectionCredit \<and> sint (l_balance_after r) = sint (l_balance_before r) + sint (l_amount r))"

definition ledger_checks :: "ledger_row check list" where
  "ledger_checks =
     [(''ledger_arithmetic_valid'', ledger_arithmetic),
      (''ledger_entries_amount_check'', \<lambda>r. 0 <s l_amount r),
      (''ledger_entries_balance_after_check'', \<lambda>r. 0 \<le>s l_balance_after r),
      (''ledger_entries_balance_before_check'', \<lambda>r. 0 \<le>s l_balance_before r)]"

definition ledger_uniques :: "ledger_row unique list" where
  "ledger_uniques =
     [(''ledger_entries_pkey'', \<lambda>a b. l_id a = l_id b),
      (''ledger_wallet_transaction_unique'',
       \<lambda>a b. l_wallet_id a = l_wallet_id b \<and> l_transaction_id a = l_transaction_id b)]"

definition inbox_uniques :: "inbox_row unique list" where
  "inbox_uniques =
     [(''inbox_messages_pkey'',
       \<lambda>a b. i_consumer_name a = i_consumer_name b \<and> i_message_id a = i_message_id b)]"

definition outbox_checks :: "outbox_row check list" where
  "outbox_checks = [(''outbox_attempts_non_negative'', \<lambda>r. 0 \<le> o_attempts r)]"

definition outbox_uniques :: "outbox_row unique list" where
  "outbox_uniques = [(''outbox_events_pkey'', \<lambda>a b. o_id a = o_id b)]"

section \<open>Column widths\<close>

text \<open>
  The length of a text is counted in characters; its bytes from \<^verbatim>\<open>0x80\<close> to \<^verbatim>\<open>0xBF\<close> continue one. The
  columns that only take constants of the code (kinds, states, event types) are wide enough for each.
\<close>

fun characters :: "string \<Rightarrow> nat" where
  "characters [] = 0"
| "characters (c # s) = (if 0x80 \<le> byte c \<and> byte c \<le> 0xBF then characters s else Suc (characters s))"

lemma characters_Char [simp]:
  "characters (Char b0 b1 b2 b3 b4 b5 b6 b7 # s) = (if b7 \<and> \<not> b6 then characters s else Suc (characters s))"
  by (cases b7; cases b6) (simp_all add: byte_def of_char_def)

lemma characters_le_length: "characters s \<le> length s"
  by (induction s) (auto simp: characters.simps(2) intro: le_SucI)

declare characters.simps(2) [simp del]

lemma short_text: "length s \<le> n \<Longrightarrow> characters s \<le> n"
  using characters_le_length [of s] by simp

definition fits :: "nat \<Rightarrow> string option \<Rightarrow> bool" where
  "fits n x \<longleftrightarrow> (case x of None \<Rightarrow> True | Some s \<Rightarrow> characters s \<le> n)"

lemma fits_simps [simp]: "fits n None" "fits n (Some s) \<longleftrightarrow> characters s \<le> n"
  by (simp_all add: fits_def)

definition wallet_widths :: "wallet_row \<Rightarrow> bool" where
  "wallet_widths r \<longleftrightarrow> characters (w_player_id r) \<le> 100 \<and> characters (w_currency r) \<le> 3"

definition wager_widths :: "wager_row \<Rightarrow> bool" where
  "wager_widths r \<longleftrightarrow>
     fits 100 (t_provider_id r) \<and> fits 100 (t_external_transaction_id r) \<and> fits 255 (t_idempotency_key r)
     \<and> fits 64 (t_payload_hash r) \<and> characters (t_player_id r) \<le> 100 \<and> fits 100 (t_round_id r)
     \<and> fits 100 (t_game_id r) \<and> characters (t_currency r) \<le> 3
     \<and> fits 100 (t_reference_external_transaction_id r) \<and> fits 100 (t_failure_code r)
     \<and> fits 255 (t_correlation_id r) \<and> fits 255 (t_causation_id r)"

definition inbox_widths :: "inbox_row \<Rightarrow> bool" where
  "inbox_widths r \<longleftrightarrow>
     characters (i_consumer_name r) \<le> 100 \<and> characters (i_message_id r) \<le> 255
     \<and> characters (i_payload_hash r) \<le> 64"

text \<open>\<^verbatim>\<open>string_data_right_truncation\<close>; the error names no constraint.\<close>

definition too_long :: error where
  "too_long = PgError ''22001'' []"

section \<open>Enforcement\<close>
fun check_violation :: "'r check list \<Rightarrow> 'r \<Rightarrow> error option" where
  "check_violation [] r = None"
| "check_violation ((n, p) # cs) r = (if p r then check_violation cs r else Some (PgError ''23514'' n))"

definition conflict_free :: "('r \<Rightarrow> 'r \<Rightarrow> bool) \<Rightarrow> 'r list \<Rightarrow> bool" where
  "conflict_free conf rs \<longleftrightarrow> sorted_wrt (\<lambda>a b. \<not> conf a b) rs"

fun unique_violation :: "'r unique list \<Rightarrow> 'r list \<Rightarrow> error option" where
  "unique_violation [] rs = None"
| "unique_violation ((n, conf) # us) rs =
     (if conflict_free conf rs then unique_violation us rs else Some (PgError ''23505'' n))"

text \<open>\<open>store cs us changed after\<close>: the error of a statement that writes the rows \<open>changed\<close> and
  leaves the table \<open>after\<close>.\<close>

definition store :: "'r check list \<Rightarrow> 'r unique list \<Rightarrow> 'r list \<Rightarrow> 'r list \<Rightarrow> error option" where
  "store cs us changed after =
     (case List.find (\<lambda>r. check_violation cs r \<noteq> None) changed of
        Some r \<Rightarrow> check_violation cs r
      | None \<Rightarrow> unique_violation us after)"

lemma check_violation_None: "check_violation cs r = None \<longleftrightarrow> (\<forall>(n, p) \<in> set cs. p r)"
  by (induction cs r rule: check_violation.induct) auto

lemma unique_violation_None:
  "unique_violation us rs = None \<longleftrightarrow> (\<forall>(n, conf) \<in> set us. conflict_free conf rs)"
  by (induction us rs rule: unique_violation.induct) auto

lemma store_None:
  "store cs us changed after = None \<longleftrightarrow>
     (\<forall>r \<in> set changed. check_violation cs r = None) \<and> unique_violation us after = None"
  by (auto simp: store_def find_None_iff find_Some_iff split: option.splits)

definition table_ok :: "'r check list \<Rightarrow> 'r unique list \<Rightarrow> 'r list \<Rightarrow> bool" where
  "table_ok cs us rs \<longleftrightarrow> (\<forall>r \<in> set rs. check_violation cs r = None) \<and> unique_violation us rs = None"

lemma table_ok_insert: "table_ok cs us rs \<Longrightarrow> store cs us [r] (rs @ [r]) = None \<Longrightarrow> table_ok cs us (rs @ [r])"
  by (auto simp: table_ok_def store_None)

lemma table_ok_update:
  "table_ok cs us rs \<Longrightarrow> store cs us (map f (filter p rs)) (map (\<lambda>r. if p r then f r else r) rs) = None \<Longrightarrow>
   table_ok cs us (map (\<lambda>r. if p r then f r else r) rs)"
  by (auto simp: table_ok_def store_None)

lemma conflict_free_append:
  "conflict_free conf (rs @ [r]) \<longleftrightarrow> conflict_free conf rs \<and> (\<forall>x \<in> set rs. \<not> conf x r)"
  by (auto simp: conflict_free_def sorted_wrt_append)

lemma conflict_free_distinct: "conflict_free (\<lambda>a b. f a = f b) rs \<Longrightarrow> distinct (map f rs)"
  by (induction rs) (auto simp: conflict_free_def)

lemma conflict_free_nth:
  "conflict_free conf rs \<Longrightarrow> i < j \<Longrightarrow> j < length rs \<Longrightarrow> \<not> conf (rs ! i) (rs ! j)"
  using sorted_wrt_nth_less [of "\<lambda>a b. \<not> conf a b" rs i j] by (simp add: conflict_free_def)

lemma conflict_free_unique:
  assumes "conflict_free conf rs" "a \<in> set rs" "b \<in> set rs" "conf a b" "conf b a"
  shows "a = b"
proof -
  obtain i j where ij: "i < length rs" "a = rs ! i" "j < length rs" "b = rs ! j"
    using assms(2,3) by (auto simp: in_set_conv_nth)
  have "\<not> i < j" "\<not> j < i"
    using conflict_free_nth [OF assms(1), of i j] conflict_free_nth [OF assms(1), of j i] ij assms(4,5) by auto
  with ij show ?thesis by (simp add: less_linear nat_neq_iff)
qed

lemma table_ok_unique:
  "table_ok cs us rs \<Longrightarrow> (n, conf) \<in> set us \<Longrightarrow> a \<in> set rs \<Longrightarrow> b \<in> set rs \<Longrightarrow> conf a b \<Longrightarrow> conf b a \<Longrightarrow>
     a = b"
  unfolding table_ok_def unique_violation_None by (blast intro: conflict_free_unique)

lemma table_ok_check: "table_ok cs us rs \<Longrightarrow> (n, p) \<in> set cs \<Longrightarrow> r \<in> set rs \<Longrightarrow> p r"
  unfolding table_ok_def check_violation_None by blast

end
