(* ===== verification/Pg_Statements.thy ===== *)
theory Pg_Statements
  imports Pg_Schema
begin

text \<open>
  The statements the code sends to PostgreSQL, as functions from a database to an error or
  the database after the statement (and the number of rows it affected). Every write
  enforces the constraints of its table, an insertion also the widths of its columns. The
  updates only write texts that are constants of the code.
\<close>

section \<open>Writes\<close>

definition guard :: "bool \<Rightarrow> error \<Rightarrow> unit result" where
  "guard b e = (if b then Inr () else Inl e)"

definition stored :: "error option \<Rightarrow> 'a \<Rightarrow> 'a result" where
  "stored x a = (case x of Some e \<Rightarrow> Inl e | None \<Rightarrow> Inr a)"

definition insert_wallet :: "wallet_row \<Rightarrow> database \<Rightarrow> database result" where
  "insert_wallet r d =
     (let rs = wallets d @ [r] in
      res_bind (guard (wallet_widths r) too_long) (\<lambda>_.
      stored (store wallet_checks wallet_uniques [r] rs) (d\<lparr>wallets := rs\<rparr>)))"

definition wager_foreign_keys :: "database \<Rightarrow> wager_row \<Rightarrow> error option" where
  "wager_foreign_keys d r =
     (if t_wallet_id r \<notin> w_id ` set (wallets d)
      then Some (PgError ''23503'' ''wager_transactions_wallet_id_fkey'')
      else case t_referenced_transaction_id r of
        None \<Rightarrow> None
      | Some i \<Rightarrow>
          if i \<notin> t_id ` set (wager_transactions d)
          then Some (PgError ''23503'' ''wager_transactions_referenced_transaction_id_fkey'')
          else None)"

definition insert_wager :: "wager_row \<Rightarrow> database \<Rightarrow> database result" where
  "insert_wager r d =
     (let rs = wager_transactions d @ [r]; d' = d\<lparr>wager_transactions := rs\<rparr> in
      res_bind (guard (wager_enums r) (PgError ''22P02'' [])) (\<lambda>_.
      res_bind (guard (wager_widths r) too_long) (\<lambda>_.
      res_bind (stored (store wager_checks wager_uniques [r] rs) ()) (\<lambda>_.
      stored (wager_foreign_keys d' r) d'))))"

definition ledger_foreign_keys :: "database \<Rightarrow> ledger_row \<Rightarrow> error option" where
  "ledger_foreign_keys d r =
     (if l_wallet_id r \<notin> w_id ` set (wallets d)
      then Some (PgError ''23503'' ''ledger_entries_wallet_id_fkey'')
      else if l_transaction_id r \<notin> t_id ` set (wager_transactions d)
      then Some (PgError ''23503'' ''ledger_entries_transaction_id_fkey'')
      else None)"

definition insert_ledger :: "ledger_row \<Rightarrow> database \<Rightarrow> database result" where
  "insert_ledger r d =
     (let rs = ledger_entries d @ [r] in
      res_bind (guard (l_direction r = DirectionCredit \<or> l_direction r = DirectionDebit)
                  (PgError ''22P02'' [])) (\<lambda>_.
      res_bind (stored (store ledger_checks ledger_uniques [r] rs) ()) (\<lambda>_.
      stored (ledger_foreign_keys d r) (d\<lparr>ledger_entries := rs\<rparr>))))"

definition insert_outbox :: "outbox_row \<Rightarrow> database \<Rightarrow> database result" where
  "insert_outbox r d =
     (let rs = outbox_events d @ [r]
      in stored (store outbox_checks outbox_uniques [r] rs) (d\<lparr>outbox_events := rs\<rparr>))"

text \<open>\<^verbatim>\<open>INSERT ... ON CONFLICT (consumer_name, message_id) DO NOTHING\<close>.\<close>

definition insert_inbox :: "inbox_row \<Rightarrow> database \<Rightarrow> (nat \<times> database) result" where
  "insert_inbox r d =
     (if \<not> inbox_widths r then Inl too_long
      else if \<exists>x \<in> set (inbox_messages d). i_consumer_name x = i_consumer_name r \<and> i_message_id x = i_message_id r
      then Inr (0, d)
      else Inr (1, d\<lparr>inbox_messages := inbox_messages d @ [r]\<rparr>))"

definition update_rows :: "('r \<Rightarrow> bool) \<Rightarrow> ('r \<Rightarrow> 'r) \<Rightarrow> 'r list \<Rightarrow> 'r list" where
  "update_rows p f rs = map (\<lambda>r. if p r then f r else r) rs"

definition update_wallet :: "uuid \<Rightarrow> int64 \<Rightarrow> int64 \<Rightarrow> time \<Rightarrow> database \<Rightarrow> database result" where
  "update_wallet i bal ver now d =
     (let f = (\<lambda>r. r\<lparr>w_balance := bal, w_version := ver, w_updated_at := now\<rparr>);
          rs = update_rows (\<lambda>r. w_id r = i) f (wallets d) in
      stored (store wallet_checks wallet_uniques (map f (filter (\<lambda>r. w_id r = i) (wallets d))) rs)
        (d\<lparr>wallets := rs\<rparr>))"

text \<open>\<^verbatim>\<open>UPDATE wager_transactions SET ... WHERE id = $1 AND state = 'PENDING_REFERENCE'\<close>.\<close>

definition is_pending :: "uuid \<Rightarrow> wager_row \<Rightarrow> bool" where
  "is_pending i r \<longleftrightarrow> t_id r = i \<and> t_state r = WagerStatePendingReference"

fun first_error :: "error option list \<Rightarrow> error option" where
  "first_error [] = None"
| "first_error (Some e # xs) = Some e"
| "first_error (None # xs) = first_error xs"

definition update_pending :: "uuid \<Rightarrow> (wager_row \<Rightarrow> wager_row) \<Rightarrow> database \<Rightarrow> (nat \<times> database) result" where
  "update_pending i f d =
     (let rs = update_rows (is_pending i) f (wager_transactions d);
          changed = map f (filter (is_pending i) (wager_transactions d));
          d' = d\<lparr>wager_transactions := rs\<rparr> in
      res_bind (stored (store wager_checks wager_uniques changed rs) ()) (\<lambda>_.
      res_bind (stored (first_error (map (wager_foreign_keys d') changed)) ()) (\<lambda>_.
      Inr (length changed, d'))))"

definition update_inbox ::
  "(inbox_row \<Rightarrow> bool) \<Rightarrow> (inbox_row \<Rightarrow> inbox_row) \<Rightarrow> database \<Rightarrow> nat \<times> database" where
  "update_inbox p f d =
     (length (filter p (inbox_messages d)), d\<lparr>inbox_messages := update_rows p f (inbox_messages d)\<rparr>)"

definition update_outbox ::
  "(outbox_row \<Rightarrow> bool) \<Rightarrow> (outbox_row \<Rightarrow> outbox_row) \<Rightarrow> database \<Rightarrow> nat \<times> database" where
  "update_outbox p f d =
     (length (filter p (outbox_events d)), d\<lparr>outbox_events := update_rows p f (outbox_events d)\<rparr>)"

section \<open>What a successful write does\<close>

lemma stored_Inr [simp]: "stored x a = Inr b \<longleftrightarrow> x = None \<and> a = b"
  by (auto simp: stored_def split: option.splits)

lemma guard_Inr [simp]: "guard b e = Inr u \<longleftrightarrow> b"
  by (simp add: guard_def)

lemma stored_simps [simp]: "stored None a = Inr a" "stored (Some e) a = Inl e"
  by (simp_all add: stored_def)

lemma guard_simps [simp]: "guard True e = Inr ()" "guard False e = Inl e"
  by (simp_all add: guard_def)

lemma set_update_rows: "set (update_rows p f rs) = f ` {r \<in> set rs. p r} \<union> {r \<in> set rs. \<not> p r}"
  by (auto simp: update_rows_def)

lemma length_update_rows [simp]: "length (update_rows p f rs) = length rs"
  by (simp add: update_rows_def)

lemma update_rows_None: "\<forall>r \<in> set rs. \<not> p r \<Longrightarrow> update_rows p f rs = rs"
  by (simp add: update_rows_def map_idI)

lemma map_update_rows: "(\<And>r. g (f r) = g r) \<Longrightarrow> map g (update_rows p f rs) = map g rs"
  by (simp add: update_rows_def)

lemma insert_wallet_Inr:
  "insert_wallet r d = Inr d' \<longleftrightarrow>
     wallet_widths r \<and> store wallet_checks wallet_uniques [r] (wallets d @ [r]) = None \<and> d' = d\<lparr>wallets := wallets d @ [r]\<rparr>"
  by (auto simp: insert_wallet_def Let_def res_bind_eq_Inr)

lemma insert_wager_Inr:
  "insert_wager r d = Inr d' \<longleftrightarrow>
     wager_enums r \<and> wager_widths r \<and> store wager_checks wager_uniques [r] (wager_transactions d @ [r]) = None
     \<and> d' = d\<lparr>wager_transactions := wager_transactions d @ [r]\<rparr> \<and> wager_foreign_keys d' r = None"
  by (auto simp: insert_wager_def Let_def res_bind_eq_Inr)

lemma insert_ledger_Inr:
  "insert_ledger r d = Inr d' \<longleftrightarrow>
     (l_direction r = DirectionCredit \<or> l_direction r = DirectionDebit)
     \<and> store ledger_checks ledger_uniques [r] (ledger_entries d @ [r]) = None
     \<and> ledger_foreign_keys d r = None \<and> d' = d\<lparr>ledger_entries := ledger_entries d @ [r]\<rparr>"
  by (auto simp: insert_ledger_def Let_def res_bind_eq_Inr)

lemma insert_outbox_Inr:
  "insert_outbox r d = Inr d' \<longleftrightarrow>
     store outbox_checks outbox_uniques [r] (outbox_events d @ [r]) = None
     \<and> d' = d\<lparr>outbox_events := outbox_events d @ [r]\<rparr>"
  by (auto simp: insert_outbox_def Let_def)

lemma update_wallet_Inr:
  "update_wallet i b v now d = Inr d' \<longleftrightarrow>
     (let f = (\<lambda>r. r\<lparr>w_balance := b, w_version := v, w_updated_at := now\<rparr>) in
      store wallet_checks wallet_uniques (map f (filter (\<lambda>r. w_id r = i) (wallets d)))
        (update_rows (\<lambda>r. w_id r = i) f (wallets d)) = None
      \<and> d' = d\<lparr>wallets := update_rows (\<lambda>r. w_id r = i) f (wallets d)\<rparr>)"
  by (auto simp: update_wallet_def Let_def)

lemma first_error_None: "first_error xs = None \<longleftrightarrow> (\<forall>x \<in> set xs. x = None)"
  by (induction xs rule: first_error.induct) auto

lemma update_pending_Inr:
  "update_pending i f d = Inr (n, d') \<Longrightarrow>
     store wager_checks wager_uniques (map f (filter (is_pending i) (wager_transactions d)))
       (update_rows (is_pending i) f (wager_transactions d)) = None
     \<and> n = length (filter (is_pending i) (wager_transactions d))
     \<and> d' = d\<lparr>wager_transactions := update_rows (is_pending i) f (wager_transactions d)\<rparr>
     \<and> (\<forall>r \<in> set (wager_transactions d). is_pending i r \<longrightarrow> wager_foreign_keys d' (f r) = None)"
  by (auto simp: update_pending_def Let_def res_bind_eq_Inr first_error_None)

end
