(* ===== verification/Tx.thy ===== *)
theory Tx
  imports Pg_Statements
begin

text \<open>
  Programs that run inside one database transaction. A program reads an environment (the
  clock, the UUID source, the UUID text format, the faults the database may return) and
  threads a world: the database as the transaction sees it and how often the clock, the
  UUID source and the database were used. A program that fails returns only its error: the
  deferred \<^verbatim>\<open>tx.Rollback\<close> discards whatever it had written.
\<close>

section \<open>Environment and world\<close>

text \<open>\<open>uuid_String\<close>, \<open>uuid_Parse\<close> are \<^verbatim>\<open>uuid.UUID.String\<close> and \<^verbatim>\<open>uuid.Parse\<close> of
  \<^verbatim>\<open>github.com/google/uuid\<close>, \<open>pg_uuid_in\<close> is PostgreSQL's reading of a text as a
  \<^verbatim>\<open>uuid\<close>, \<open>new_uuid n\<close> and \<open>time_now n\<close> the \<open>n\<close>-th values of \<^verbatim>\<open>uuid.New()\<close> and
  \<^verbatim>\<open>time.Now().UTC()\<close>, \<open>db_now\<close> the transaction's \<^verbatim>\<open>NOW()\<close>. \<open>fault n\<close> is the failure of the
  \<open>n\<close>-th statement, if any; a failed commit may have been durable. \<open>row_locked\<close> says which
  rows other transactions hold (for \<^verbatim>\<open>SKIP LOCKED\<close>) and \<open>elapsed\<close> is what \<^verbatim>\<open>time.Since\<close>
  measures when an operation is over.\<close>

record env =
  uuid_String :: "uuid \<Rightarrow> string"
  uuid_Parse :: "string \<Rightarrow> uuid option"
  pg_uuid_in :: "string \<Rightarrow> uuid option"
  new_uuid :: "nat \<Rightarrow> uuid"
  time_now :: "nat \<Rightarrow> time"
  db_now :: time
  fault :: "nat \<Rightarrow> error option"
  begin_fault :: "error option"
  commit_fault :: "(error \<times> bool) option"
  row_locked :: "uuid \<Rightarrow> bool"
  elapsed :: int

record world =
  db :: database
  uuid_count :: nat
  now_count :: nat
  stmt_count :: nat

type_synonym 'a tx = "env \<Rightarrow> world \<Rightarrow> ('a \<times> world) result"

definition tx_return :: "'a \<Rightarrow> 'a tx" where
  "tx_return a E w = Inr (a, w)"

definition tx_fail :: "error \<Rightarrow> 'a tx" where
  "tx_fail e E w = Inl e"

definition tx_bind :: "'a tx \<Rightarrow> ('a \<Rightarrow> 'b tx) \<Rightarrow> 'b tx" where
  "tx_bind m k E w = (case m E w of Inl e \<Rightarrow> Inl e | Inr (a, w') \<Rightarrow> k a E w')"

definition tx_lift :: "'a result \<Rightarrow> 'a tx" where
  "tx_lift r E w = (case r of Inl e \<Rightarrow> Inl e | Inr a \<Rightarrow> Inr (a, w))"

definition tx_map_err :: "(error \<Rightarrow> error) \<Rightarrow> 'a tx \<Rightarrow> 'a tx" where
  "tx_map_err f m E w = (case m E w of Inl e \<Rightarrow> Inl (f e) | Inr r \<Rightarrow> Inr r)"

definition tx_asks :: "(env \<Rightarrow> 'a) \<Rightarrow> 'a tx" where
  "tx_asks f E w = Inr (f E, w)"

definition uuid_New :: "uuid tx" where
  "uuid_New E w = Inr (new_uuid E (uuid_count w), w\<lparr>uuid_count := Suc (uuid_count w)\<rparr>)"

definition uuid_NewString :: "string tx" where
  "uuid_NewString = tx_bind uuid_New (\<lambda>u. tx_asks (\<lambda>E. uuid_String E u))"

definition time_Now :: "time tx" where
  "time_Now E w = Inr (time_now E (now_count w), w\<lparr>now_count := Suc (now_count w)\<rparr>)"

definition sql :: "(env \<Rightarrow> database \<Rightarrow> ('a \<times> database) result) \<Rightarrow> 'a tx" where
  "sql st E w =
     (case fault E (stmt_count w) of
        Some e \<Rightarrow> Inl e
      | None \<Rightarrow>
          (case st E (db w) of
             Inl e \<Rightarrow> Inl e
           | Inr (a, d) \<Rightarrow> Inr (a, w\<lparr>db := d, stmt_count := Suc (stmt_count w)\<rparr>)))"

definition sql_read :: "(env \<Rightarrow> database \<Rightarrow> 'a result) \<Rightarrow> 'a tx" where
  "sql_read q = sql (\<lambda>E d. res_bind (q E d) (\<lambda>a. Inr (a, d)))"

definition sql_exec :: "(database \<Rightarrow> database result) \<Rightarrow> unit tx" where
  "sql_exec st = sql (\<lambda>E d. res_bind (st d) (\<lambda>d'. Inr ((), d')))"

text \<open>A text sent for a \<^verbatim>\<open>uuid\<close> parameter.\<close>

definition uuid_param :: "env \<Rightarrow> string \<Rightarrow> uuid result" where
  "uuid_param E s = (case pg_uuid_in E s of None \<Rightarrow> Inl (PgError ''22P02'' []) | Some u \<Rightarrow> Inr u)"

section \<open>Evaluation\<close>

lemma tx_apply [tx_simps]:
  "tx_return a E w = Inr (a, w)"
  "tx_fail e E w = Inl e"
  "tx_lift (Inl e) E w = Inl e"
  "tx_lift (Inr a) E w = Inr (a, w)"
  "tx_asks f E w = Inr (f E, w)"
  "uuid_New E w = Inr (new_uuid E (uuid_count w), w\<lparr>uuid_count := Suc (uuid_count w)\<rparr>)"
  "time_Now E w = Inr (time_now E (now_count w), w\<lparr>now_count := Suc (now_count w)\<rparr>)"
  by (simp_all add: tx_return_def tx_fail_def tx_lift_def tx_asks_def uuid_New_def time_Now_def)

lemma uuid_NewString_apply [tx_simps]:
  "uuid_NewString E w =
     Inr (uuid_String E (new_uuid E (uuid_count w)), w\<lparr>uuid_count := Suc (uuid_count w)\<rparr>)"
  by (simp add: uuid_NewString_def tx_bind_def tx_simps)

lemma tx_bind_apply [tx_simps]:
  "m E w = Inl e \<Longrightarrow> tx_bind m k E w = Inl e"
  "m E w = Inr (a, w') \<Longrightarrow> tx_bind m k E w = k a E w'"
  by (simp_all add: tx_bind_def)

lemma tx_map_err_apply [tx_simps]:
  "m E w = Inl e \<Longrightarrow> tx_map_err f m E w = Inl (f e)"
  "m E w = Inr r \<Longrightarrow> tx_map_err f m E w = Inr r"
  by (simp_all add: tx_map_err_def)

lemma tx_bind_return [simp]: "tx_bind (tx_return a) k = k a"
  by (rule ext, rule ext) (simp add: tx_simps)

lemma tx_bind_assoc: "tx_bind (tx_bind m k) h = tx_bind m (\<lambda>a. tx_bind (k a) h)"
  by (rule ext, rule ext) (simp add: tx_bind_def split: sum.splits)

section \<open>Inversion of success\<close>

lemma tx_bind_Inr:
  "tx_bind m k E w = Inr r \<longleftrightarrow> (\<exists>a w'. m E w = Inr (a, w') \<and> k a E w' = Inr r)"
  by (auto simp: tx_bind_def split: sum.splits)

lemma tx_bindE [tx_elims]:
  assumes "tx_bind m k E w = Inr r"
  obtains a w' where "m E w = Inr (a, w')" "k a E w' = Inr r"
  using assms by (auto simp: tx_bind_Inr)

lemma tx_returnE [tx_elims]: "tx_return a E w = Inr r \<Longrightarrow> (r = (a, w) \<Longrightarrow> P) \<Longrightarrow> P"
  by (simp add: tx_return_def)

lemma tx_failE [tx_elims]: "tx_fail e E w = Inr r \<Longrightarrow> P"
  by (simp add: tx_fail_def)

lemma tx_lift_Inr: "tx_lift x E w = Inr (a, w') \<longleftrightarrow> x = Inr a \<and> w' = w"
  by (cases x) (auto simp: tx_lift_def)

lemma tx_liftE [tx_elims]: "tx_lift x E w = Inr r \<Longrightarrow> (\<And>a. x = Inr a \<Longrightarrow> r = (a, w) \<Longrightarrow> P) \<Longrightarrow> P"
  by (cases x) (auto simp: tx_lift_def)

lemma tx_map_err_Inr [simp]: "tx_map_err f m E w = Inr r \<longleftrightarrow> m E w = Inr r"
  by (auto simp: tx_map_err_def split: sum.splits)

lemma tx_asksE [tx_elims]: "tx_asks f E w = Inr r \<Longrightarrow> (r = (f E, w) \<Longrightarrow> P) \<Longrightarrow> P"
  by (simp add: tx_asks_def)

lemma uuid_NewE [tx_elims]:
  "uuid_New E w = Inr r \<Longrightarrow>
   (r = (new_uuid E (uuid_count w), w\<lparr>uuid_count := Suc (uuid_count w)\<rparr>) \<Longrightarrow> P) \<Longrightarrow> P"
  by (simp add: uuid_New_def)

lemma time_NowE [tx_elims]:
  "time_Now E w = Inr r \<Longrightarrow>
   (r = (time_now E (now_count w), w\<lparr>now_count := Suc (now_count w)\<rparr>) \<Longrightarrow> P) \<Longrightarrow> P"
  by (simp add: time_Now_def)

lemma sqlE [tx_elims]:
  assumes "sql st E w = Inr r"
  obtains a d where "fault E (stmt_count w) = None" "st E (db w) = Inr (a, d)"
    "r = (a, w\<lparr>db := d, stmt_count := Suc (stmt_count w)\<rparr>)"
  using assms by (auto simp: sql_def split: option.splits sum.splits)

lemma sql_readE [tx_elims]:
  assumes "sql_read q E w = Inr r"
  obtains a where "fault E (stmt_count w) = None" "q E (db w) = Inr a"
    "r = (a, w\<lparr>stmt_count := Suc (stmt_count w)\<rparr>)"
  using assms unfolding sql_read_def by (elim tx_elims) (auto simp: res_bind_eq_Inr)

lemma sql_execE [tx_elims]:
  assumes "sql_exec st E w = Inr r"
  obtains d where "fault E (stmt_count w) = None" "st (db w) = Inr d"
    "r = ((), w\<lparr>db := d, stmt_count := Suc (stmt_count w)\<rparr>)"
  using assms unfolding sql_exec_def by (elim tx_elims) (auto simp: res_bind_eq_Inr)

lemma sql_apply [tx_simps]:
  "fault E (stmt_count w) = None \<Longrightarrow> q E (db w) = Inr a \<Longrightarrow>
     sql_read q E w = Inr (a, w\<lparr>stmt_count := Suc (stmt_count w)\<rparr>)"
  "fault E (stmt_count w) = None \<Longrightarrow> q E (db w) = Inl e \<Longrightarrow> sql_read q E w = Inl e"
  "fault E (stmt_count w) = None \<Longrightarrow> st (db w) = Inr d \<Longrightarrow>
     sql_exec st E w = Inr ((), w\<lparr>db := d, stmt_count := Suc (stmt_count w)\<rparr>)"
  "fault E (stmt_count w) = None \<Longrightarrow> st (db w) = Inl e \<Longrightarrow> sql_exec st E w = Inl e"
  by (simp_all add: sql_read_def sql_exec_def sql_def)

section \<open>Running a transaction\<close>

text \<open>\<^verbatim>\<open>pool.Begin\<close>, the program, \<^verbatim>\<open>tx.Commit\<close>, with the deferred rollback on every error
  and on a return without commit (a result whose \<open>commit_context\<close> is \<open>None\<close>). The result is
  paired with the database afterwards.\<close>

definition run_tx ::
  "env \<Rightarrow> string \<Rightarrow> ('a \<Rightarrow> string option) \<Rightarrow> 'a tx \<Rightarrow> world \<Rightarrow> 'a result \<times> database" where
  "run_tx E begin_context commit_context m w =
     (case begin_fault E of
        Some e \<Rightarrow> (Inl (Wrapped begin_context e), db w)
      | None \<Rightarrow>
          (case m E w of
             Inl e \<Rightarrow> (Inl e, db w)
           | Inr (a, w') \<Rightarrow>
               (case commit_context a of
                  None \<Rightarrow> (Inr a, db w)
                | Some context \<Rightarrow>
                    (case commit_fault E of
                       Some (e, durable) \<Rightarrow> (Inl (Wrapped context e), if durable then db w' else db w)
                     | None \<Rightarrow> (Inr a, db w')))))"

definition start_world :: "database \<Rightarrow> world" where
  "start_world d = \<lparr>db = d, uuid_count = 0, now_count = 0, stmt_count = 0\<rparr>"

lemma db_start_world [simp]: "db (start_world d) = d"
  by (simp add: start_world_def)

lemma run_tx_db:
  "snd (run_tx E b c m w) = db w \<or> (\<exists>a w'. m E w = Inr (a, w') \<and> snd (run_tx E b c m w) = db w')"
  by (auto simp: run_tx_def split: option.splits sum.splits)

lemma run_tx_Inr:
  "run_tx E b c m w = (Inr a, d) \<Longrightarrow>
     \<exists>w'. m E w = Inr (a, w') \<and> d = (if c a = None then db w else db w')"
  by (auto simp: run_tx_def split: option.splits sum.splits if_splits)

lemma run_tx_Inl:
  assumes "run_tx E b c m w = (Inl e, d)" "\<forall>x. commit_fault E \<noteq> Some (x, True)"
  shows "d = db w"
  using assms by (auto simp: run_tx_def split: option.splits sum.splits if_splits prod.splits)

lemma run_tx_fst:
  "\<forall>x. commit_fault E \<noteq> Some (x, True) \<Longrightarrow> fst (run_tx E b c m w) = Inl e \<Longrightarrow> snd (run_tx E b c m w) = db w"
  using run_tx_Inl [of E b c m w e "snd (run_tx E b c m w)"] by (simp add: prod_eq_iff)

text \<open>What the code relies on of UUIDs: both readers read back what \<open>uuid_String\<close> writes, which is
  never empty and short.\<close>

definition uuid_laws :: "env \<Rightarrow> bool" where
  "uuid_laws E \<longleftrightarrow>
     (\<forall>u. pg_uuid_in E (uuid_String E u) = Some u \<and> uuid_Parse E (uuid_String E u) = Some u
          \<and> uuid_String E u \<noteq> [] \<and> length (uuid_String E u) \<le> 255)"

lemma uuid_laws_simps:
  "uuid_laws E \<Longrightarrow> pg_uuid_in E (uuid_String E u) = Some u"
  "uuid_laws E \<Longrightarrow> uuid_Parse E (uuid_String E u) = Some u"
  "uuid_laws E \<Longrightarrow> uuid_String E u \<noteq> []"
  "uuid_laws E \<Longrightarrow> length (uuid_String E u) \<le> 255"
  by (simp_all add: uuid_laws_def)

lemma uuid_String_inject: "uuid_laws E \<Longrightarrow> uuid_String E u = uuid_String E v \<longleftrightarrow> u = v"
  by (metis option.inject uuid_laws_simps(1))

section \<open>Relations every step of a program respects\<close>

definition keeps :: "(database \<Rightarrow> database \<Rightarrow> bool) \<Rightarrow> 'a tx \<Rightarrow> bool" where
  "keeps R m \<longleftrightarrow> (\<forall>E w a w'. m E w = Inr (a, w') \<longrightarrow> R (db w) (db w'))"

lemma keepsD: "keeps R m \<Longrightarrow> m E w = Inr (a, w') \<Longrightarrow> R (db w) (db w')"
  by (auto simp: keeps_def)

locale tx_relation =
  fixes R :: "database \<Rightarrow> database \<Rightarrow> bool"
  assumes R_refl: "R d d"
    and R_trans: "R d1 d2 \<Longrightarrow> R d2 d3 \<Longrightarrow> R d1 d3"
begin

lemma keeps_return: "keeps R (tx_return a)"
  by (auto simp: keeps_def R_refl tx_return_def)

lemma keeps_fail: "keeps R (tx_fail e)"
  by (auto simp: keeps_def tx_fail_def)

lemma keeps_lift: "keeps R (tx_lift r)"
  by (auto simp: keeps_def R_refl tx_lift_Inr)

lemma keeps_asks: "keeps R (tx_asks f)"
  by (auto simp: keeps_def R_refl tx_asks_def)

lemma keeps_uuid_New: "keeps R uuid_New"
  by (auto simp: keeps_def R_refl uuid_New_def)

lemma keeps_time_Now: "keeps R time_Now"
  by (auto simp: keeps_def R_refl time_Now_def)

lemma keeps_bind: "keeps R m \<Longrightarrow> (\<And>a. keeps R (k a)) \<Longrightarrow> keeps R (tx_bind m k)"
  by (auto simp: keeps_def tx_bind_Inr; blast intro: R_trans)

lemma keeps_map_err: "keeps R m \<Longrightarrow> keeps R (tx_map_err f m)"
  by (auto simp: keeps_def)

lemma keeps_read: "keeps R (sql_read q)"
  by (auto simp: keeps_def R_refl elim!: sql_readE)

lemma keeps_sql: "(\<And>E d a d'. st E d = Inr (a, d') \<Longrightarrow> R d d') \<Longrightarrow> keeps R (sql st)"
  by (auto simp: keeps_def elim!: sqlE)

lemma keeps_exec: "(\<And>d d'. st d = Inr d' \<Longrightarrow> R d d') \<Longrightarrow> keeps R (sql_exec st)"
  by (auto simp: keeps_def elim!: sql_execE)

lemma keeps_NewString: "keeps R uuid_NewString"
  unfolding uuid_NewString_def by (intro keeps_bind keeps_uuid_New keeps_asks)

lemma keeps_if: "(c \<Longrightarrow> keeps R m) \<Longrightarrow> (\<not> c \<Longrightarrow> keeps R n) \<Longrightarrow> keeps R (if c then m else n)"
  by simp

lemma keeps_option: "keeps R n \<Longrightarrow> (\<And>a. keeps R (k a)) \<Longrightarrow> keeps R (case x of None \<Rightarrow> n | Some a \<Rightarrow> k a)"
  by (cases x) simp_all

lemma keeps_sum: "(\<And>e. keeps R (h e)) \<Longrightarrow> (\<And>a. keeps R (k a)) \<Longrightarrow> keeps R (case x of Inl e \<Rightarrow> h e | Inr a \<Rightarrow> k a)"
  by (cases x) simp_all

lemma keeps_prod: "(\<And>a b. keeps R (k a b)) \<Longrightarrow> keeps R (case p of (a, b) \<Rightarrow> k a b)"
  by (cases p) simp

lemma run_tx_R: "keeps R m \<Longrightarrow> R (db w) (snd (run_tx E b c m w))"
  using run_tx_db [of E b c m w] by (auto simp: R_refl dest: keepsD)

lemma run_tx_RD: "run_tx E b c m w = (res, d) \<Longrightarrow> keeps R m \<Longrightarrow> R (db w) d"
  using run_tx_R [of m w E b c] by simp

lemmas keeps_intros = keeps_return keeps_fail keeps_lift keeps_asks keeps_uuid_New keeps_time_Now
  keeps_bind keeps_map_err keeps_read keeps_NewString keeps_if keeps_option keeps_sum keeps_prod

end

end
