(* ===== verification/Wagering_Reference.thy ===== *)
theory Wagering_Reference
  imports Tx
begin

text \<open>
  \<^verbatim>\<open>internal/application/wagering/reference.go\<close> and \<^verbatim>\<open>reversal.go\<close>: looking up the transaction
  a WIN, REFUND or ROLLBACK refers to, validating it against the request, finding an
  earlier reversal, and the direction of a reversal.
\<close>

section \<open>Directions\<close>

type_synonym movementDirection = string

definition movementCredit :: movementDirection where "movementCredit = ''CREDIT''"
definition movementDebit :: movementDirection where "movementDebit = ''DEBIT''"

lemma movements_distinct [simp]:
  "movementCredit \<noteq> movementDebit" "movementDebit \<noteq> movementCredit"
  "movementCredit \<noteq> []" "movementDebit \<noteq> []" "[] \<noteq> movementCredit" "[] \<noteq> movementDebit"
  by (simp_all add: movementCredit_def movementDebit_def)

section \<open>The referenced transaction\<close>

record referencedTransaction =
  refID :: uuid
  refProviderID :: string
  refExternalTransactionID :: string
  refWalletID :: uuid
  refPlayerID :: string
  refRoundID :: string
  refKind :: WagerKind
  refState :: WagerState
  refAmount :: Money

definition failureCodeReferenceMismatch :: string where
  "failureCodeReferenceMismatch = ''REFERENCE_MISMATCH''"
definition failureCodeReferenceAmountMismatch :: string where
  "failureCodeReferenceAmountMismatch = ''REFERENCE_AMOUNT_MISMATCH''"
definition failureCodeInvalidReferenceKind :: string where
  "failureCodeInvalidReferenceKind = ''INVALID_REFERENCE_KIND''"
definition failureCodeInvalidReference :: string where
  "failureCodeInvalidReference = ''INVALID_REFERENCE''"
definition failureCodeReferenceTerminalUnsuccessful :: string where
  "failureCodeReferenceTerminalUnsuccessful = ''REFERENCE_TERMINAL_UNSUCCESSFUL''"
definition failureCodeAlreadyReversed :: string where
  "failureCodeAlreadyReversed = ''ALREADY_REVERSED''"

definition external_identity :: "string \<Rightarrow> string \<Rightarrow> wager_row \<Rightarrow> bool" where
  "external_identity provider external r \<longleftrightarrow>
     t_provider_id r = Some provider \<and> t_external_transaction_id r = Some external"

definition scan_reference :: "wager_row \<Rightarrow> referencedTransaction" where
  "scan_reference r =
     \<lparr>refID = t_id r, refProviderID = coalesce (t_provider_id r),
      refExternalTransactionID = coalesce (t_external_transaction_id r),
      refWalletID = t_wallet_id r, refPlayerID = t_player_id r,
      refRoundID = coalesce (t_round_id r), refKind = t_kind r, refState = t_state r,
      refAmount = NewMoney (t_amount r) (t_currency r)\<rparr>"

definition findReferencedTransaction :: "WagerRequest \<Rightarrow> referencedTransaction option tx" where
  "findReferencedTransaction request =
     (if reqReferenceExternalTransactionID request = [] then tx_fail (Sentinel ErrReferenceMismatch)
      else tx_map_err (Wrapped ''find referenced transaction'')
        (sql_read (\<lambda>_ d. Inr (map_option scan_reference
           (List.find (external_identity (reqProviderID request) (reqReferenceExternalTransactionID request))
              (wager_transactions d))))))"

definition validateReference :: "env \<Rightarrow> WagerRequest \<Rightarrow> referencedTransaction \<Rightarrow> sentinel option" where
  "validateReference E request reference =
     (if refProviderID reference \<noteq> reqProviderID request
         \<or> refPlayerID reference \<noteq> reqPlayerID request
         \<or> uuid_String E (refWalletID reference) \<noteq> reqWalletID request
         \<or> refRoundID reference \<noteq> reqRoundID request
         \<or> currency (refAmount reference) \<noteq> currency (reqAmount request)
      then Some ErrReferenceMismatch
      else if reqKind request = WagerKindWin then
        (if refKind reference \<noteq> WagerKindBet then Some ErrInvalidReferenceKind else None)
      else if reqKind request = WagerKindRefund then
        (if refKind reference \<noteq> WagerKindBet then Some ErrInvalidReferenceKind
         else if amount (refAmount reference) \<noteq> amount (reqAmount request)
         then Some ErrReferenceAmountMismatch
         else None)
      else if reqKind request = WagerKindRollback then
        (if \<not> (refKind reference = WagerKindBet \<or> refKind reference = WagerKindWin
              \<or> refKind reference = WagerKindRefund)
         then Some ErrInvalidReferenceKind
         else if amount (refAmount reference) \<noteq> amount (reqAmount request)
         then Some ErrReferenceAmountMismatch
         else None)
      else Some ErrInvalidReferenceKind)"

text \<open>\<^verbatim>\<open>referenceFailureCode\<close> of \<^verbatim>\<open>pending_reference_resolver.go\<close>.\<close>

definition referenceFailureCode :: "error \<Rightarrow> string" where
  "referenceFailureCode err =
     (if errors_is err ErrReferenceMismatch then failureCodeReferenceMismatch
      else if errors_is err ErrReferenceAmountMismatch then failureCodeReferenceAmountMismatch
      else if errors_is err ErrInvalidReferenceKind then failureCodeInvalidReferenceKind
      else failureCodeInvalidReference)"

text \<open>The rows a new reversal of \<open>i\<close> would collide with.\<close>

definition reverses :: "uuid \<Rightarrow> wager_row \<Rightarrow> bool" where
  "reverses i r \<longleftrightarrow>
     t_referenced_transaction_id r = Some i \<and> t_state r = WagerStateProcessed
     \<and> (t_kind r = WagerKindRefund \<or> t_kind r = WagerKindRollback)"

definition referenceAlreadyReversed :: "uuid \<Rightarrow> bool tx" where
  "referenceAlreadyReversed referenceID =
     tx_map_err (Wrapped ''check existing reversal'')
       (sql_read (\<lambda>_ d. Inr (list_ex (reverses referenceID) (wager_transactions d))))"

definition reversalDirection :: "WagerKind \<Rightarrow> referencedTransaction \<Rightarrow> movementDirection result" where
  "reversalDirection kind reference =
     (if kind = WagerKindRefund then
        (if refKind reference \<noteq> WagerKindBet then Inl (Sentinel ErrInvalidReferenceKind)
         else Inr movementCredit)
      else if kind = WagerKindRollback then
        (if refKind reference = WagerKindBet then Inr movementCredit
         else if refKind reference = WagerKindWin then Inr movementDebit
         else if refKind reference = WagerKindRefund then Inr movementDebit
         else Inl (Sentinel ErrInvalidReferenceKind))
      else Inl (Sentinel ErrInvalidReferenceKind))"

section \<open>What validation establishes\<close>

text \<open>The kinds a request may refer to.\<close>

definition referable :: "WagerKind \<Rightarrow> WagerKind set" where
  "referable k =
     (if k = WagerKindWin \<or> k = WagerKindRefund then {WagerKindBet}
      else if k = WagerKindRollback then {WagerKindBet, WagerKindWin, WagerKindRefund}
      else {})"

lemma validateReference_None:
  "validateReference E q r = None \<longleftrightarrow>
     refProviderID r = reqProviderID q \<and> refPlayerID r = reqPlayerID q
     \<and> uuid_String E (refWalletID r) = reqWalletID q \<and> refRoundID r = reqRoundID q
     \<and> currency (refAmount r) = currency (reqAmount q)
     \<and> refKind r \<in> referable (reqKind q)
     \<and> (reqKind q = WagerKindWin \<or> amount (refAmount r) = amount (reqAmount q))"
  by (auto simp: validateReference_def referable_def)

text \<open>The sign of the balance movement of a kind, given the kind it refers to; the financial
  effect of a reversal is the opposite of what it reverses.\<close>

definition effect_sign :: "WagerKind \<Rightarrow> WagerKind option \<Rightarrow> int" where
  "effect_sign k refk =
     (if k = WagerKindBet then - 1
      else if k = WagerKindWin \<or> k = WagerKindRefund \<or> k = KindOpening then 1
      else if k = WagerKindRollback then (if refk = Some WagerKindBet then 1 else - 1)
      else 0)"

definition movement_sign :: "movementDirection \<Rightarrow> int" where
  "movement_sign m = (if m = movementCredit then 1 else if m = movementDebit then - 1 else 0)"

lemma reversalDirection_sign:
  "reversalDirection k r = Inr m \<Longrightarrow>
     movement_sign m = effect_sign k (Some (refKind r))
     \<and> effect_sign k (Some (refKind r)) = - effect_sign (refKind r) x
     \<and> (m = movementCredit \<or> m = movementDebit)"
  by (auto simp: reversalDirection_def movement_sign_def effect_sign_def split: if_splits)

lemma reversalDirection_total:
  "k = WagerKindRefund \<or> k = WagerKindRollback \<Longrightarrow> refKind r \<in> referable k \<Longrightarrow>
     \<exists>m. reversalDirection k r = Inr m"
  by (auto simp: reversalDirection_def referable_def)

lemma findReferencedTransactionE [tx_elims]:
  assumes "findReferencedTransaction q E w = Inr (x, w')"
  obtains "fault E (stmt_count w) = None" "w' = w\<lparr>stmt_count := Suc (stmt_count w)\<rparr>"
    "reqReferenceExternalTransactionID q \<noteq> []"
    "x = map_option scan_reference
       (List.find (external_identity (reqProviderID q) (reqReferenceExternalTransactionID q))
          (wager_transactions (db w)))"
  using assms unfolding findReferencedTransaction_def
  by (auto elim!: tx_elims split: if_splits)

lemma referenceAlreadyReversedE [tx_elims]:
  assumes "referenceAlreadyReversed i E w = Inr (x, w')"
  obtains "fault E (stmt_count w) = None" "w' = w\<lparr>stmt_count := Suc (stmt_count w)\<rparr>"
    "x = list_ex (reverses i) (wager_transactions (db w))"
  using assms unfolding referenceAlreadyReversed_def by (auto elim!: tx_elims)

end
