(* ===== verification/Wagering_Persistence.thy ===== *)
theory Wagering_Persistence
  imports Wagering_Reference
begin

text \<open>
  \<^verbatim>\<open>internal/application/wagering/persistence.go\<close>, \<^verbatim>\<open>results.go\<close> and
  \<^verbatim>\<open>pending_reference.go\<close>: the idempotency and external-identity lookups, the wallet lock,
  and the writes that record a rejected, a pending or a processed outcome with its events.
\<close>

section \<open>Commands and results\<close>

record ProcessCommand =
  cmdIdempotencyKey :: string
  cmdCorrelationID :: string
  cmdCausationID :: string
  cmdRequest :: WagerRequest

record ProcessResult =
  resTransactionID :: string
  resState :: WagerState
  resBalance :: Money
  resIdempotentReplay :: bool
  resFailureCode :: string

section \<open>persistence.go\<close>

definition mapWagerUniqueViolation :: "error \<Rightarrow> error" where
  "mapWagerUniqueViolation err =
     (case errors_as_pg err of
        None \<Rightarrow> err
      | Some (code, constr) \<Rightarrow>
          (if code \<noteq> ''23505'' then err
           else if constr = ''wager_idempotency_unique'' then Sentinel ErrIdempotencyConflict
           else if constr = ''wager_external_identity_unique'' then Sentinel ErrExternalTransactionExists
           else err))"

definition idempotency_identity :: "string \<Rightarrow> string \<Rightarrow> wager_row \<Rightarrow> bool" where
  "idempotency_identity provider key r \<longleftrightarrow>
     t_provider_id r = Some provider \<and> t_idempotency_key r = Some key"

text \<open>The result a stored row is replayed as; a NULL hash cannot be scanned into a string.\<close>

definition replay_of :: "env \<Rightarrow> string \<Rightarrow> wager_row \<Rightarrow> ProcessResult result" where
  "replay_of E payloadHash r =
     (case t_payload_hash r of
        None \<Rightarrow> Inl (Wrapped ''find idempotent transaction'' (PlainError ''cannot scan NULL''))
      | Some storedHash \<Rightarrow>
          (if storedHash \<noteq> payloadHash then Inl (Sentinel ErrIdempotencyConflict)
           else Inr \<lparr>resTransactionID = uuid_String E (t_id r), resState = t_state r,
                     resBalance = NewMoney (case t_result_balance r of None \<Rightarrow> 0 | Some b \<Rightarrow> b) (t_currency r),
                     resIdempotentReplay = True, resFailureCode = coalesce (t_failure_code r)\<rparr>))"

definition findIdempotentReplay :: "string \<Rightarrow> string \<Rightarrow> string \<Rightarrow> ProcessResult option tx" where
  "findIdempotentReplay providerID idempotencyKey payloadHash =
     tx_bind (tx_map_err (Wrapped ''find idempotent transaction'')
       (sql_read (\<lambda>_ d. Inr (List.find (idempotency_identity providerID idempotencyKey)
          (wager_transactions d))))) (\<lambda>row.
     case row of
       None \<Rightarrow> tx_return None
     | Some r \<Rightarrow>
         tx_bind (tx_asks (\<lambda>E. replay_of E payloadHash r)) (\<lambda>res.
         tx_bind (tx_lift res) (\<lambda>replay. tx_return (Some replay))))"

definition externalTransactionExists :: "string \<Rightarrow> string \<Rightarrow> bool tx" where
  "externalTransactionExists providerID externalTransactionID =
     tx_map_err (Wrapped ''check external transaction identity'')
       (sql_read (\<lambda>_ d. Inr (list_ex (external_identity providerID externalTransactionID)
          (wager_transactions d))))"

definition scan_wallet :: "env \<Rightarrow> wallet_row \<Rightarrow> Wallet result" where
  "scan_wallet E r =
     ReconstituteWallet (uuid_String E (w_id r)) (w_player_id r)
       (NewMoney (w_balance r) (w_currency r)) (w_version r) (w_created_at r) (w_updated_at r)"

definition lockWallet :: "string \<Rightarrow> Wallet tx" where
  "lockWallet walletID =
     tx_bind (tx_map_err (Wrapped ''lock wallet'')
       (sql_read (\<lambda>E d. res_bind (uuid_param E walletID)
          (\<lambda>u. Inr (List.find (\<lambda>r. w_id r = u) (wallets d)))))) (\<lambda>row.
     case row of
       None \<Rightarrow> tx_fail (Sentinel ErrWagerWalletNotFound)
     | Some r \<Rightarrow>
         tx_bind (tx_asks (\<lambda>E. scan_wallet E r)) (\<lambda>res.
         tx_map_err (Wrapped ''reconstitute wallet'') (tx_lift res)))"

section \<open>results.go\<close>

text \<open>The row of an event; marshalling the envelope never fails.\<close>

definition outbox_row_of :: "eventEnvelope \<Rightarrow> outbox_row" where
  "outbox_row_of event =
     \<lparr>o_id = EventIDValue event, o_aggregate_id = AggregateIDValue event,
      o_event_type = EventTypeValue event, o_payload = event,
      o_occurred_at = OccurredAtValue event, o_attempts = 0,
      o_next_attempt_at = OccurredAtValue event, o_published_at = None\<rparr>"

definition insertOutboxEvent :: "eventEnvelope \<Rightarrow> unit tx" where
  "insertOutboxEvent event =
     tx_map_err (Wrapped ''insert outbox event'') (sql_exec (insert_outbox (outbox_row_of event)))"

definition insertProcessedEvents ::
  "uuid \<Rightarrow> WagerKind \<Rightarrow> Wallet \<Rightarrow> Money \<Rightarrow> Money \<Rightarrow> string \<Rightarrow> string \<Rightarrow> string \<Rightarrow> time \<Rightarrow> unit tx" where
  "insertProcessedEvents transactionID kind wallet amt balanceBefore direction correlationID causationID now =
     tx_bind (tx_asks (\<lambda>E. uuid_String E transactionID)) (\<lambda>transactionIDText.
     tx_bind uuid_New (\<lambda>eventID.
     tx_bind (insertOutboxEvent (NewWagerTransactionProcessedEvent eventID transactionID
        correlationID causationID now
        \<lparr>pdTransactionID = transactionIDText, pdWalletID = ID wallet, pdKind = kind\<rparr>)) (\<lambda>_.
     if kind = WagerKindLoss then tx_return ()
     else
       tx_bind uuid_New (\<lambda>eventID.
       insertOutboxEvent (NewWalletBalanceChangedEvent eventID transactionID correlationID causationID now
         \<lparr>bdWalletID = ID wallet, bdTransactionID = transactionIDText, bdDirection = direction,
          bdMoney = eventpayload_NewMoney amt, bdBalanceBefore = eventpayload_NewMoney balanceBefore,
          bdBalanceAfter = eventpayload_NewMoney (Balance wallet), bdWalletVersion = Version wallet\<rparr>)))))"

definition insertRejectedEvent ::
  "uuid \<Rightarrow> string \<Rightarrow> string \<Rightarrow> WagerKind \<Rightarrow> string \<Rightarrow> string \<Rightarrow> string \<Rightarrow> time \<Rightarrow> unit tx" where
  "insertRejectedEvent transactionID walletID providerID kind failureCode correlationID causationID now =
     tx_bind (tx_asks (\<lambda>E. uuid_String E transactionID)) (\<lambda>transactionIDText.
     tx_bind uuid_New (\<lambda>eventID.
     insertOutboxEvent (NewWagerTransactionRejectedEvent eventID transactionID correlationID causationID now
       \<lparr>rdTransactionID = transactionIDText, rdWalletID = walletID, rdProviderID = providerID,
        rdKind = kind, rdFailureCode = failureCode\<rparr>)))"

text \<open>The columns the three INSERTs into \<^verbatim>\<open>wager_transactions\<close> of a command share; the
  others are NULL or their default.\<close>

definition command_row :: "uuid \<Rightarrow> ProcessCommand \<Rightarrow> string \<Rightarrow> WagerState \<Rightarrow> time \<Rightarrow> uuid \<Rightarrow> wager_row" where
  "command_row transactionID cmd payloadHash state now walletID =
     (let q = cmdRequest cmd in
      \<lparr>t_id = transactionID, t_provider_id = Some (reqProviderID q),
       t_external_transaction_id = Some (reqExternalTransactionID q),
       t_idempotency_key = Some (cmdIdempotencyKey cmd), t_payload_hash = Some payloadHash,
       t_wallet_id = walletID, t_player_id = reqPlayerID q, t_round_id = Some (reqRoundID q),
       t_game_id = Some (reqGameID q), t_kind = reqKind q, t_state = state,
       t_amount = amount (reqAmount q), t_currency = currency (reqAmount q),
       t_reference_external_transaction_id = Some (reqReferenceExternalTransactionID q),
       t_referenced_transaction_id = None, t_failure_code = None, t_result_balance = None,
       t_created_at = now, t_updated_at = now, t_reference_attempts = 0,
       t_reference_next_attempt_at = None, t_reference_expires_at = None,
       t_correlation_id = None, t_causation_id = None\<rparr>)"

text \<open>INSERT INTO wager_transactions with the wallet id sent as a text.\<close>

definition insert_command_row :: "string \<Rightarrow> string \<Rightarrow> (uuid \<Rightarrow> wager_row) \<Rightarrow> unit tx" where
  "insert_command_row context walletID row =
     tx_map_err (\<lambda>e. Wrapped context (mapWagerUniqueViolation e))
       (sql (\<lambda>E d. res_bind (uuid_param E walletID)
          (\<lambda>u. res_bind (insert_wager (row u) d) (\<lambda>d'. Inr ((), d')))))"

definition persistRejectedTransaction ::
  "ProcessCommand \<Rightarrow> string \<Rightarrow> Wallet \<Rightarrow> string \<Rightarrow> uuid option \<Rightarrow> ProcessResult tx" where
  "persistRejectedTransaction cmd payloadHash wallet failureCode referencedTransactionID =
     tx_bind uuid_New (\<lambda>transactionID.
     tx_bind time_Now (\<lambda>now.
     tx_bind (insert_command_row ''insert rejected wager transaction'' (reqWalletID (cmdRequest cmd))
        (\<lambda>u. (command_row transactionID cmd payloadHash WagerStateRejected now u)
           \<lparr>t_referenced_transaction_id := referencedTransactionID, t_failure_code := Some failureCode,
            t_result_balance := Some (amount (Balance wallet))\<rparr>)) (\<lambda>_.
     tx_bind (insertRejectedEvent transactionID (ID wallet) (reqProviderID (cmdRequest cmd))
        (reqKind (cmdRequest cmd)) failureCode (cmdCorrelationID cmd) (cmdCausationID cmd) now) (\<lambda>_.
     tx_bind (tx_asks (\<lambda>E. uuid_String E transactionID)) (\<lambda>transactionIDText.
     tx_return \<lparr>resTransactionID = transactionIDText, resState = WagerStateRejected,
        resBalance = Balance wallet, resIdempotentReplay = False, resFailureCode = failureCode\<rparr>)))))"

section \<open>pending_reference.go\<close>

text \<open>Durations are microseconds, like times.\<close>

type_synonym duration = int

definition Second :: duration where "Second = 1000000"
definition Minute :: duration where "Minute = 60 * Second"

definition referenceRetryDelay :: duration where "referenceRetryDelay = 5 * Second"
definition referenceTTL :: duration where "referenceTTL = 5 * Minute"

definition nullableString :: "string \<Rightarrow> string option" where
  "nullableString value = (if value = [] then None else Some value)"

definition insertPendingReferenceEvent :: "uuid \<Rightarrow> ProcessCommand \<Rightarrow> time \<Rightarrow> unit tx" where
  "insertPendingReferenceEvent transactionID cmd now =
     tx_bind (tx_asks (\<lambda>E. uuid_String E transactionID)) (\<lambda>transactionIDText.
     tx_bind uuid_New (\<lambda>eventID.
     tx_map_err (Wrapped ''insert pending reference outbox event'')
       (insertOutboxEvent (NewWagerTransactionPendingReferenceEvent eventID transactionID
          (cmdCorrelationID cmd) (cmdCausationID cmd) now
          \<lparr>ndTransactionID = transactionIDText, ndProviderID = reqProviderID (cmdRequest cmd),
           ndExternalTransactionID = reqExternalTransactionID (cmdRequest cmd),
           ndReferenceExternalTransactionID = reqReferenceExternalTransactionID (cmdRequest cmd)\<rparr>))))"

definition persistPendingReference :: "ProcessCommand \<Rightarrow> string \<Rightarrow> Money \<Rightarrow> time \<Rightarrow> ProcessResult tx" where
  "persistPendingReference cmd payloadHash currentBalance now =
     tx_bind uuid_New (\<lambda>transactionID.
     tx_bind (insert_command_row ''insert pending reference transaction'' (reqWalletID (cmdRequest cmd))
        (\<lambda>u. (command_row transactionID cmd payloadHash WagerStatePendingReference now u)
           \<lparr>t_result_balance := Some (amount currentBalance), t_reference_attempts := 0,
            t_reference_next_attempt_at := Some (now + referenceRetryDelay),
            t_reference_expires_at := Some (now + referenceTTL),
            t_correlation_id := Some (cmdCorrelationID cmd),
            t_causation_id := nullableString (cmdCausationID cmd)\<rparr>)) (\<lambda>_.
     tx_bind (insertPendingReferenceEvent transactionID cmd now) (\<lambda>_.
     tx_bind (tx_asks (\<lambda>E. uuid_String E transactionID)) (\<lambda>transactionIDText.
     tx_return \<lparr>resTransactionID = transactionIDText, resState = WagerStatePendingReference,
        resBalance = currentBalance, resIdempotentReplay = False, resFailureCode = []\<rparr>))))"

end
