(* ===== verification/Metrics.thy ===== *)
theory Metrics
  imports Tx
begin

text \<open>
  \<^verbatim>\<open>internal/observability/metrics.go\<close>: the counters, as a record of wrapping unsigned
  64-bit words, and their updates. Durations are microseconds.
\<close>

record Metrics =
  sqsMessagesProcessed :: uint64
  sqsErrors :: uint64
  sqsRetries :: uint64
  sqsDLQMessages :: uint64
  outboxEventsPublished :: uint64
  outboxErrors :: uint64
  outboxRetries :: uint64
  wagersProcessed :: uint64
  wagersRejected :: uint64
  wagersPendingReference :: uint64
  idempotentReplays :: uint64
  concurrencyConflicts :: uint64
  reconciliationDivergences :: uint64
  processingCount :: uint64
  processingDurationMicros :: uint64
  outboxPublishedDelayMicros :: uint64
  outboxPublishedDelaySamples :: uint64

definition NewMetrics :: Metrics where
  "NewMetrics =
     \<lparr>sqsMessagesProcessed = 0, sqsErrors = 0, sqsRetries = 0, sqsDLQMessages = 0,
      outboxEventsPublished = 0, outboxErrors = 0, outboxRetries = 0, wagersProcessed = 0,
      wagersRejected = 0, wagersPendingReference = 0, idempotentReplays = 0,
      concurrencyConflicts = 0, reconciliationDivergences = 0, processingCount = 0,
      processingDurationMicros = 0, outboxPublishedDelayMicros = 0, outboxPublishedDelaySamples = 0\<rparr>"

definition IncSQSMessagesProcessed :: "uint64 \<Rightarrow> Metrics \<Rightarrow> Metrics" where
  "IncSQSMessagesProcessed count m = m\<lparr>sqsMessagesProcessed := sqsMessagesProcessed m + count\<rparr>"

definition IncSQSErrors :: "Metrics \<Rightarrow> Metrics" where
  "IncSQSErrors m = m\<lparr>sqsErrors := sqsErrors m + 1\<rparr>"

definition IncSQSRetries :: "Metrics \<Rightarrow> Metrics" where
  "IncSQSRetries m = m\<lparr>sqsRetries := sqsRetries m + 1\<rparr>"

definition SetSQSDLQMessages :: "uint64 \<Rightarrow> Metrics \<Rightarrow> Metrics" where
  "SetSQSDLQMessages count m = m\<lparr>sqsDLQMessages := count\<rparr>"

definition IncOutboxEventsPublished :: "uint64 \<Rightarrow> Metrics \<Rightarrow> Metrics" where
  "IncOutboxEventsPublished count m = m\<lparr>outboxEventsPublished := outboxEventsPublished m + count\<rparr>"

definition IncOutboxErrors :: "Metrics \<Rightarrow> Metrics" where
  "IncOutboxErrors m = m\<lparr>outboxErrors := outboxErrors m + 1\<rparr>"

definition IncOutboxRetries :: "Metrics \<Rightarrow> Metrics" where
  "IncOutboxRetries m = m\<lparr>outboxRetries := outboxRetries m + 1\<rparr>"

definition IncWagersProcessed :: "Metrics \<Rightarrow> Metrics" where
  "IncWagersProcessed m = m\<lparr>wagersProcessed := wagersProcessed m + 1\<rparr>"

definition IncWagersRejected :: "Metrics \<Rightarrow> Metrics" where
  "IncWagersRejected m = m\<lparr>wagersRejected := wagersRejected m + 1\<rparr>"

definition IncWagersPendingReference :: "Metrics \<Rightarrow> Metrics" where
  "IncWagersPendingReference m = m\<lparr>wagersPendingReference := wagersPendingReference m + 1\<rparr>"

definition IncIdempotentReplays :: "Metrics \<Rightarrow> Metrics" where
  "IncIdempotentReplays m = m\<lparr>idempotentReplays := idempotentReplays m + 1\<rparr>"

definition IncConcurrencyConflicts :: "Metrics \<Rightarrow> Metrics" where
  "IncConcurrencyConflicts m = m\<lparr>concurrencyConflicts := concurrencyConflicts m + 1\<rparr>"

definition IncReconciliationDivergences :: "Metrics \<Rightarrow> Metrics" where
  "IncReconciliationDivergences m = m\<lparr>reconciliationDivergences := reconciliationDivergences m + 1\<rparr>"

definition ObserveProcessingDuration :: "int \<Rightarrow> Metrics \<Rightarrow> Metrics" where
  "ObserveProcessingDuration duration m =
     (if duration < 0 then m
      else m\<lparr>processingCount := processingCount m + 1,
             processingDurationMicros := processingDurationMicros m + word_of_int duration\<rparr>)"

definition ObserveOutboxPublishedDelay :: "int \<Rightarrow> Metrics \<Rightarrow> Metrics" where
  "ObserveOutboxPublishedDelay duration m =
     (if duration < 0 then m
      else m\<lparr>outboxPublishedDelaySamples := outboxPublishedDelaySamples m + 1,
             outboxPublishedDelayMicros := outboxPublishedDelayMicros m + word_of_int duration\<rparr>)"

end
