(* ===== verification/Wagering_Process.thy ===== *)
theory Wagering_Process
  imports Wagering_Persistence Metrics
begin

text \<open>
  \<^verbatim>\<open>internal/application/wagering/process.go\<close>: one wager command inside its transaction.
  \<open>ProcessTx\<close> is split where the source's phases meet: \<open>process_begin\<close> up to the fast
  idempotency lookup, \<open>process_locked\<close> from the wallet lock on, which composes
  \<open>process_reference\<close> (the referenced transaction), \<open>process_move\<close> (the wallet aggregate) and
  \<open>process_persist\<close> (the processed row, wallet, ledger entry and events).
\<close>

section \<open>Phases\<close>

datatype 'a phase = Done ProcessResult | Continue 'a

definition process_begin :: "ProcessCommand \<Rightarrow> (ProcessCommand \<times> string) phase tx" where
  "process_begin cmd0 =
     (case ValidateExternal (cmdRequest cmd0) of
        Some e \<Rightarrow> tx_fail (Sentinel e)
      | None \<Rightarrow>
          if cmdIdempotencyKey cmd0 = [] then tx_fail (PlainError ''idempotency key is required'')
          else
            tx_bind (if cmdCorrelationID cmd0 = []
                     then tx_bind uuid_NewString (\<lambda>u. tx_return (cmd0\<lparr>cmdCorrelationID := u\<rparr>))
                     else tx_return cmd0) (\<lambda>cmd.
            let payloadHash = PayloadHash (cmdRequest cmd) in
            tx_bind (findIdempotentReplay (reqProviderID (cmdRequest cmd)) (cmdIdempotencyKey cmd) payloadHash) (\<lambda>replay.
            case replay of
              Some r \<Rightarrow> tx_return (Done r)
            | None \<Rightarrow> tx_return (Continue (cmd, payloadHash)))))"

definition requiresReferenceResolution :: "WagerRequest \<Rightarrow> bool" where
  "requiresReferenceResolution q \<longleftrightarrow>
     reqKind q = WagerKindRefund \<or> reqKind q = WagerKindRollback
     \<or> (reqKind q = WagerKindWin \<and> reqReferenceExternalTransactionID q \<noteq> [])"

text \<open>The checks and the direction once the reference is processed.\<close>

definition process_reversal ::
  "ProcessCommand \<Rightarrow> string \<Rightarrow> Wallet \<Rightarrow> referencedTransaction \<Rightarrow>
   (referencedTransaction option \<times> movementDirection) phase tx" where
  "process_reversal cmd payloadHash wallet found =
     tx_bind (tx_asks (\<lambda>E. validateReference E (cmdRequest cmd) found)) (\<lambda>invalid.
     case invalid of
       Some err \<Rightarrow>
         tx_bind (persistRejectedTransaction cmd payloadHash wallet
            (referenceFailureCode (Sentinel err)) (Some (refID found))) (\<lambda>result. tx_return (Done result))
     | None \<Rightarrow>
         if reqKind (cmdRequest cmd) = WagerKindWin then tx_return (Continue (Some found, []))
         else
           tx_bind (referenceAlreadyReversed (refID found)) (\<lambda>alreadyReversed.
           if alreadyReversed then
             tx_bind (persistRejectedTransaction cmd payloadHash wallet
                failureCodeAlreadyReversed (Some (refID found))) (\<lambda>result. tx_return (Done result))
           else
             tx_bind (tx_lift (reversalDirection (reqKind (cmdRequest cmd)) found)) (\<lambda>reversalMovement.
             tx_return (Continue (Some found, reversalMovement)))))"

definition process_reference ::
  "ProcessCommand \<Rightarrow> string \<Rightarrow> Wallet \<Rightarrow> (referencedTransaction option \<times> movementDirection) phase tx" where
  "process_reference cmd payloadHash wallet =
     (if \<not> requiresReferenceResolution (cmdRequest cmd) then tx_return (Continue (None, []))
      else
        tx_bind (findReferencedTransaction (cmdRequest cmd)) (\<lambda>foundReference.
        case foundReference of
          None \<Rightarrow>
            tx_bind time_Now (\<lambda>now.
            tx_bind (persistPendingReference cmd payloadHash (Balance wallet) now) (\<lambda>result.
            tx_return (Done result)))
        | Some found \<Rightarrow>
            if refState found = WagerStatePending \<or> refState found = WagerStatePendingReference then
              tx_bind time_Now (\<lambda>now.
              tx_bind (persistPendingReference cmd payloadHash (Balance wallet) now) (\<lambda>result.
              tx_return (Done result)))
            else if refState found = WagerStateRejected \<or> refState found = WagerStateFailed then
              tx_bind (persistRejectedTransaction cmd payloadHash wallet
                 failureCodeReferenceTerminalUnsuccessful (Some (refID found))) (\<lambda>result.
              tx_return (Done result))
            else if refState found = WagerStateProcessed then
              process_reversal cmd payloadHash wallet found
            else tx_fail (PlainError ''unsupported referenced transaction state'')))"

definition credit_step :: "Wallet \<Rightarrow> Money \<Rightarrow> time \<Rightarrow> Wallet phase tx" where
  "credit_step wallet amt now =
     tx_bind (tx_lift (Wallet_Credit wallet amt now)) (\<lambda>wallet'. tx_return (Continue wallet'))"

definition debit_step ::
  "ProcessCommand \<Rightarrow> string \<Rightarrow> Wallet \<Rightarrow> string \<Rightarrow> uuid option \<Rightarrow> time \<Rightarrow> Wallet phase tx" where
  "debit_step cmd payloadHash wallet failureCode referenceID now =
     (case Wallet_Debit wallet (reqAmount (cmdRequest cmd)) now of
        Inr wallet' \<Rightarrow> tx_return (Continue wallet')
      | Inl err \<Rightarrow>
          (if errors_is err ErrInsufficientFunds then
             tx_bind (persistRejectedTransaction cmd payloadHash wallet failureCode referenceID)
               (\<lambda>result. tx_return (Done result))
           else tx_fail err))"

definition process_move ::
  "ProcessCommand \<Rightarrow> string \<Rightarrow> Wallet \<Rightarrow> referencedTransaction option \<Rightarrow> movementDirection \<Rightarrow> time
   \<Rightarrow> Wallet phase tx" where
  "process_move cmd payloadHash wallet reference reversalMovement now =
     (let kind = reqKind (cmdRequest cmd); amt = reqAmount (cmdRequest cmd) in
      if kind = WagerKindBet then
        debit_step cmd payloadHash wallet ''INSUFFICIENT_FUNDS'' None now
      else if kind = WagerKindWin then credit_step wallet amt now
      else if kind = WagerKindLoss then tx_return (Continue wallet)
      else if kind = WagerKindRefund \<or> kind = WagerKindRollback then
        (if reversalMovement = movementCredit then credit_step wallet amt now
         else if reversalMovement = movementDebit then
           debit_step cmd payloadHash wallet ''REVERSAL_INSUFFICIENT_FUNDS'' (map_option refID reference) now
         else tx_fail (Sentinel ErrInvalidReferenceKind))
      else tx_return (Continue wallet))"

text \<open>The direction written to the ledger and to the balance event.\<close>

definition ledger_direction :: "WagerKind \<Rightarrow> movementDirection \<Rightarrow> string" where
  "ledger_direction kind reversalMovement =
     (if kind = WagerKindBet then DirectionDebit
      else if kind = WagerKindRollback \<and> reversalMovement = movementDebit then DirectionDebit
      else DirectionCredit)"

text \<open>UPDATE wallets ... WHERE id = $1, the id sent as the aggregate's text.\<close>

definition exec_update_wallet :: "string \<Rightarrow> Wallet \<Rightarrow> time \<Rightarrow> unit tx" where
  "exec_update_wallet context wallet now =
     tx_map_err (Wrapped context)
       (sql (\<lambda>E d. res_bind (uuid_param E (ID wallet))
          (\<lambda>u. res_bind (update_wallet u (amount (Balance wallet)) (Version wallet) now d)
             (\<lambda>d'. Inr ((), d')))))"

definition exec_insert_ledger ::
  "string \<Rightarrow> Wallet \<Rightarrow> uuid \<Rightarrow> string \<Rightarrow> Money \<Rightarrow> Money \<Rightarrow> time \<Rightarrow> unit tx" where
  "exec_insert_ledger context wallet transactionID direction amt balanceBefore now =
     tx_bind uuid_New (\<lambda>entryID.
     tx_map_err (Wrapped context)
       (sql (\<lambda>E d. res_bind (uuid_param E (ID wallet))
          (\<lambda>u. res_bind (insert_ledger
             \<lparr>l_id = entryID, l_wallet_id = u, l_transaction_id = transactionID,
              l_direction = direction, l_amount = amount amt,
              l_balance_before = amount balanceBefore, l_balance_after = amount (Balance wallet),
              l_created_at = now\<rparr> d) (\<lambda>d'. Inr ((), d'))))))"

definition process_persist ::
  "ProcessCommand \<Rightarrow> string \<Rightarrow> Wallet \<Rightarrow> Money \<Rightarrow> referencedTransaction option \<Rightarrow> movementDirection \<Rightarrow> time
   \<Rightarrow> ProcessResult tx" where
  "process_persist cmd payloadHash wallet balanceBefore reference reversalMovement now =
     (let kind = reqKind (cmdRequest cmd); amt = reqAmount (cmdRequest cmd) in
      tx_bind uuid_New (\<lambda>transactionID.
      tx_bind (insert_command_row ''insert wager transaction'' (reqWalletID (cmdRequest cmd))
         (\<lambda>u. (command_row transactionID cmd payloadHash WagerStateProcessed now u)
            \<lparr>t_referenced_transaction_id := map_option refID reference,
             t_result_balance := Some (amount (Balance wallet))\<rparr>)) (\<lambda>_.
      tx_bind (if kind \<noteq> WagerKindLoss then
                 tx_bind (exec_update_wallet ''update wallet'' wallet now) (\<lambda>_.
                 exec_insert_ledger ''insert ledger entry'' wallet transactionID
                   (ledger_direction kind reversalMovement) amt balanceBefore now)
               else tx_return ()) (\<lambda>_.
      tx_bind (insertProcessedEvents transactionID kind wallet amt balanceBefore
         (ledger_direction kind reversalMovement) (cmdCorrelationID cmd) (cmdCausationID cmd) now) (\<lambda>_.
      tx_bind (tx_asks (\<lambda>E. uuid_String E transactionID)) (\<lambda>transactionIDText.
      tx_return \<lparr>resTransactionID = transactionIDText, resState = WagerStateProcessed,
         resBalance = Balance wallet, resIdempotentReplay = False, resFailureCode = []\<rparr>))))))"

text \<open>The part of \<open>process_locked\<close> that decides, after the checks.\<close>

definition process_decide :: "ProcessCommand \<Rightarrow> string \<Rightarrow> Wallet \<Rightarrow> ProcessResult tx" where
  "process_decide cmd payloadHash wallet =
     tx_bind (process_reference cmd payloadHash wallet) (\<lambda>p.
     case p of
       Done result \<Rightarrow> tx_return result
     | Continue (reference, reversalMovement) \<Rightarrow>
         tx_bind time_Now (\<lambda>now.
         tx_bind (process_move cmd payloadHash wallet reference reversalMovement now) (\<lambda>m.
         case m of
           Done result \<Rightarrow> tx_return result
         | Continue wallet' \<Rightarrow>
             process_persist cmd payloadHash wallet' (Balance wallet) reference reversalMovement now)))"

definition process_new :: "ProcessCommand \<Rightarrow> string \<Rightarrow> Wallet \<Rightarrow> ProcessResult tx" where
  "process_new cmd payloadHash wallet =
     (let q = cmdRequest cmd in
      tx_bind (externalTransactionExists (reqProviderID q) (reqExternalTransactionID q)) (\<lambda>exists.
      if exists then tx_fail (Sentinel ErrExternalTransactionExists)
      else if PlayerID wallet \<noteq> reqPlayerID q then tx_fail (Sentinel ErrWalletPlayerMismatch)
      else if currency (Balance wallet) \<noteq> currency (reqAmount q)
      then tx_fail (Sentinel ErrCurrencyMismatch)
      else process_decide cmd payloadHash wallet))"

definition process_locked :: "ProcessCommand \<Rightarrow> string \<Rightarrow> ProcessResult tx" where
  "process_locked cmd payloadHash =
     tx_bind (lockWallet (reqWalletID (cmdRequest cmd))) (\<lambda>wallet.
     tx_bind (findIdempotentReplay (reqProviderID (cmdRequest cmd)) (cmdIdempotencyKey cmd) payloadHash) (\<lambda>replay.
     case replay of
       Some r \<Rightarrow> tx_return r
     | None \<Rightarrow> process_new cmd payloadHash wallet))"

definition ProcessTx :: "ProcessCommand \<Rightarrow> ProcessResult tx" where
  "ProcessTx cmd0 =
     tx_bind (process_begin cmd0) (\<lambda>p.
     case p of
       Done r \<Rightarrow> tx_return r
     | Continue (cmd, payloadHash) \<Rightarrow> process_locked cmd payloadHash)"

section \<open>Service.Process\<close>

definition recordConcurrencyConflict :: "error \<Rightarrow> Metrics \<Rightarrow> Metrics" where
  "recordConcurrencyConflict err m =
     (case errors_as_pg err of
        None \<Rightarrow> m
      | Some (code, _) \<Rightarrow>
          (if code = ''40001'' \<or> code = ''40P01'' then IncConcurrencyConflicts m else m))"

definition recordProcessResult :: "ProcessResult \<Rightarrow> Metrics \<Rightarrow> Metrics" where
  "recordProcessResult result m =
     (if resIdempotentReplay result then IncIdempotentReplays m
      else if resState result = WagerStateProcessed then IncWagersProcessed m
      else if resState result = WagerStateRejected then IncWagersRejected m
      else if resState result = WagerStatePendingReference then IncWagersPendingReference m
      else m)"

text \<open>The result, the database and the counters after one call.\<close>

definition Service_Process ::
  "env \<Rightarrow> ProcessCommand \<Rightarrow> world \<Rightarrow> Metrics \<Rightarrow> ProcessResult result \<times> database \<times> Metrics" where
  "Service_Process E cmd w m =
     (let (res, d) = run_tx E ''begin transaction'' (\<lambda>_. Some ''commit wager transaction'') (ProcessTx cmd) w;
          m' = (case res of Inl e \<Rightarrow> recordConcurrencyConflict e m | Inr r \<Rightarrow> recordProcessResult r m)
      in (res, d, ObserveProcessingDuration (elapsed E) m'))"

end
