(* ===== verification/Inbox.thy ===== *)
theory Inbox
  imports Wagering_Process
begin

text \<open>
  \<^verbatim>\<open>internal/infrastructure/messaging/inbox/inbox.go\<close> and
  \<^verbatim>\<open>internal/application/wagering/message_processor.go\<close>: a message is registered, processed
  and completed in one transaction, so that a redelivery finds either nothing or a
  completed row.
\<close>

section \<open>The inbox table\<close>

definition inbox_PayloadHash :: "string \<Rightarrow> string" where
  "inbox_PayloadHash payload = sha256_hex payload"

lemma characters_inbox_PayloadHash [simp]: "characters (inbox_PayloadHash p) \<le> 64"
  by (rule short_text) (simp add: inbox_PayloadHash_def)

definition inbox_key :: "string \<Rightarrow> string \<Rightarrow> inbox_row \<Rightarrow> bool" where
  "inbox_key consumerName messageID r \<longleftrightarrow> i_consumer_name r = consumerName \<and> i_message_id r = messageID"

definition Register :: "string \<Rightarrow> string \<Rightarrow> string \<Rightarrow> bool tx" where
  "Register consumerName messageID payload =
     (let hash = inbox_PayloadHash payload in
      tx_bind (tx_map_err (Wrapped ''register inbox message'')
        (sql (\<lambda>E d. insert_inbox
           \<lparr>i_consumer_name = consumerName, i_message_id = messageID, i_payload_hash = hash,
            i_received_at = db_now E, i_completed_at = None\<rparr> d))) (\<lambda>rowsAffected.
      if rowsAffected = 1 then tx_return False
      else
        tx_bind (tx_map_err (Wrapped ''query existing inbox message'')
          (sql_read (\<lambda>_ d. case List.find (inbox_key consumerName messageID) (inbox_messages d) of
             None \<Rightarrow> Inl (PlainError ''no rows in result set'')
           | Some r \<Rightarrow> Inr (i_payload_hash r, i_completed_at r)))) (\<lambda>(existingHash, completedAt).
        if existingHash \<noteq> hash then tx_fail (Sentinel ErrPayloadConflict)
        else tx_return (completedAt \<noteq> None))))"

definition Complete :: "string \<Rightarrow> string \<Rightarrow> unit tx" where
  "Complete consumerName messageID =
     tx_bind (tx_map_err (Wrapped ''complete inbox message'')
       (sql (\<lambda>E d. Inr (update_inbox (\<lambda>r. inbox_key consumerName messageID r \<and> i_completed_at r = None)
          (\<lambda>r. r\<lparr>i_completed_at := Some (db_now E)\<rparr>) d)))) (\<lambda>rowsAffected.
     if rowsAffected \<noteq> 1 then tx_fail (PlainError ''expected to complete one inbox message'')
     else tx_return ())"

section \<open>MessageProcessor.Process\<close>

record MessageProcessCommand =
  mpConsumerName :: string
  mpMessageID :: string
  mpRawPayload :: string
  mpCommand :: ProcessCommand

record MessageProcessResult =
  mrResult :: ProcessResult
  mrInboxReplay :: bool
  mrIdempotentReplay :: bool

text \<open>Go's zero \<^verbatim>\<open>ProcessResult\<close>, which an inbox replay returns.\<close>

definition zero_ProcessResult :: ProcessResult where
  "zero_ProcessResult =
     \<lparr>resTransactionID = [], resState = [], resBalance = NewMoney 0 [], resIdempotentReplay = False,
      resFailureCode = []\<rparr>"

definition message_tx :: "MessageProcessCommand \<Rightarrow> MessageProcessResult tx" where
  "message_tx cmd =
     tx_bind (Register (mpConsumerName cmd) (mpMessageID cmd) (mpRawPayload cmd)) (\<lambda>alreadyCompleted.
     if alreadyCompleted then
       tx_return \<lparr>mrResult = zero_ProcessResult, mrInboxReplay = True, mrIdempotentReplay = False\<rparr>
     else
       tx_bind (ProcessTx (mpCommand cmd)) (\<lambda>result.
       tx_bind (tx_map_err (Wrapped ''complete inbox message'')
          (Complete (mpConsumerName cmd) (mpMessageID cmd))) (\<lambda>_.
       tx_return \<lparr>mrResult = result, mrInboxReplay = False,
                  mrIdempotentReplay = resIdempotentReplay result\<rparr>)))"

definition message_commit :: "MessageProcessResult \<Rightarrow> string option" where
  "message_commit r =
     Some (if mrInboxReplay r then ''commit inbox replay transaction'' else ''commit message transaction'')"

definition message_metrics :: "MessageProcessResult \<Rightarrow> Metrics \<Rightarrow> Metrics" where
  "message_metrics r m = (if mrInboxReplay r then m else recordProcessResult (mrResult r) m)"

definition MessageProcessor_Process ::
  "env \<Rightarrow> MessageProcessCommand \<Rightarrow> world \<Rightarrow> Metrics
   \<Rightarrow> MessageProcessResult result \<times> database \<times> Metrics" where
  "MessageProcessor_Process E cmd w m =
     (let (res, d) =
        (if mpConsumerName cmd = [] then (Inl (PlainError ''consumer name is required''), db w)
         else if mpMessageID cmd = [] then (Inl (PlainError ''message id is required''), db w)
         else if mpRawPayload cmd = [] then (Inl (PlainError ''raw payload is required''), db w)
         else run_tx E ''begin message transaction'' message_commit (message_tx cmd) w);
        m' = (case res of Inl _ \<Rightarrow> m | Inr r \<Rightarrow> message_metrics r m)
      in (res, d, ObserveProcessingDuration (elapsed E) m'))"

end
