(* ===== verification/Backoff.thy ===== *)
theory Backoff
  imports Wagering_Process
begin

text \<open>
  The three retry delays of the platform, each a loop that doubles a base delay up to a cap:
  \<^verbatim>\<open>referenceRetryBackoff\<close> (pending references), \<^verbatim>\<open>retryDelay\<close> (outbox) and
  \<^verbatim>\<open>retryVisibility\<close> (SQS redelivery). The locale \<open>capped_backoff\<close> states the law they
  share, the doubling recurrence, and derives the closed form, the bounds and monotonicity.
\<close>

section \<open>The interface\<close>

locale capped_backoff =
  fixes f :: "int \<Rightarrow> int" and base cap :: int
  assumes base_pos: "0 < base" and base_cap: "base \<le> cap"
    and f_first: "n \<le> 1 \<Longrightarrow> f n = base"
    and f_next: "1 \<le> n \<Longrightarrow> f (n + 1) = min cap (2 * f n)"
begin

lemma closed: "f (int k + 1) = min cap (base * 2 ^ k)"
proof (induction k)
  case 0
  then show ?case using base_cap by (simp add: f_first)
next
  case (Suc k)
  have "f (int (Suc k) + 1) = min cap (2 * f (int k + 1))"
    using f_next [of "int k + 1"] by (simp add: add.commute)
  also have "\<dots> = min cap (2 * min cap (base * 2 ^ k))"
    by (simp only: Suc.IH)
  also have "\<dots> = min cap (base * 2 ^ Suc k)"
    using base_pos base_cap by (auto simp: min_def)
  finally show ?case .
qed

lemma closed_form: "1 \<le> n \<Longrightarrow> f n = min cap (base * 2 ^ nat (n - 1))"
  using closed [of "nat (n - 1)"] by simp

lemma lower: "base \<le> f n"
proof (cases "1 \<le> n")
  case True
  have "base * 1 \<le> base * 2 ^ nat (n - 1)"
    by (rule mult_left_mono) (use base_pos in simp_all)
  then show ?thesis
    using True base_cap by (simp add: closed_form)
qed (simp add: f_first)

lemma upper: "f n \<le> cap"
  using base_cap by (cases "1 \<le> n") (simp_all add: closed_form f_first)

lemma grows: "f n \<le> f (n + 1)"
proof (cases "1 \<le> n")
  case True
  with base_pos lower [of n] upper [of n] show ?thesis
    by (simp add: f_next)
qed (simp add: f_first [of n] lower)

lemma mono: "n \<le> m \<Longrightarrow> f n \<le> f m"
proof (induction "nat (m - n)" arbitrary: m)
  case (Suc k)
  then have "f n \<le> f (m - 1)" by (intro Suc.hyps(1)) auto
  with grows [of "m - 1"] show ?case by simp
qed simp

lemma saturates: "cap \<le> base * 2 ^ k \<Longrightarrow> int k + 1 \<le> n \<Longrightarrow> f n = cap"
  using mono [of "int k + 1" n] closed [of k] upper [of n] by simp

end

section \<open>The three loops\<close>

definition maxReferenceRetryDelay :: duration where
  "maxReferenceRetryDelay = Minute"

fun referenceRetryBackoff_loop :: "nat \<Rightarrow> duration \<Rightarrow> duration" where
  "referenceRetryBackoff_loop 0 delay =
     (if delay > maxReferenceRetryDelay then maxReferenceRetryDelay else delay)"
| "referenceRetryBackoff_loop (Suc iterations) delay =
     (if delay \<ge> maxReferenceRetryDelay div 2 then maxReferenceRetryDelay
      else referenceRetryBackoff_loop iterations (delay * 2))"

definition referenceRetryBackoff :: "int \<Rightarrow> duration" where
  "referenceRetryBackoff attempt =
     (if attempt \<le> 1 then referenceRetryDelay
      else referenceRetryBackoff_loop (nat (attempt - 1)) referenceRetryDelay)"

definition retryBaseDelay :: duration where "retryBaseDelay = 5 * Second"
definition maxRetryDelay :: duration where "maxRetryDelay = Minute"

fun retryDelay_loop :: "nat \<Rightarrow> duration \<Rightarrow> duration" where
  "retryDelay_loop 0 delay = delay"
| "retryDelay_loop (Suc iterations) delay =
     (if delay * 2 \<ge> maxRetryDelay then maxRetryDelay
      else retryDelay_loop iterations (delay * 2))"

definition retryDelay :: "int \<Rightarrow> duration" where
  "retryDelay attempt =
     (if attempt \<le> 1 then retryBaseDelay else retryDelay_loop (nat (attempt - 1)) retryBaseDelay)"

text \<open>Seconds, on 32-bit integers as in the source.\<close>

definition maxRetryVisibilitySeconds :: int32 where "maxRetryVisibilitySeconds = 60"

fun retryVisibility_loop :: "nat \<Rightarrow> int32 \<Rightarrow> int32" where
  "retryVisibility_loop 0 delay = delay"
| "retryVisibility_loop (Suc iterations) delay =
     (if delay <s maxRetryVisibilitySeconds then retryVisibility_loop iterations (delay * 2) else delay)"

definition retryVisibility :: "int \<Rightarrow> int32" where
  "retryVisibility receiveCount0 =
     (let receiveCount = (if receiveCount0 < 1 then 1 else receiveCount0);
          delay = retryVisibility_loop (nat (receiveCount - 1)) 5
      in if maxRetryVisibilitySeconds <s delay then maxRetryVisibilitySeconds else delay)"

section \<open>Each loop meets the law\<close>

lemma doubling_next:
  assumes "0 < (b :: int)" "b \<le> c" "\<And>k. f (int k + 1) = min c (b * 2 ^ k)" "1 \<le> (n :: int)"
  shows "f (n + 1) = min c (2 * f n)"
proof -
  obtain k where n: "n = int k + 1" using assms(4) by (metis add.commute zle_iff_zadd)
  have "f (n + 1) = min c (b * 2 ^ Suc k)" using assms(3) [of "Suc k"] by (simp add: n add.commute)
  then show ?thesis
    unfolding n assms(3) using assms(1,2) by (auto simp: min_def)
qed

lemma referenceRetryBackoff_loop_min:
  "0 < d \<Longrightarrow> d \<le> Minute \<Longrightarrow> referenceRetryBackoff_loop k d = min Minute (d * 2 ^ k)"
proof (induction k arbitrary: d)
  case (Suc k)
  show ?case
  proof (cases "d \<ge> Minute div 2")
    case True
    have "Minute \<le> d * 2" using True by (simp add: Minute_def Second_def)
    also have "d * 2 * 1 \<le> d * 2 * 2 ^ k" by (rule mult_left_mono) (use Suc.prems in simp_all)
    finally show ?thesis using True by (simp add: maxReferenceRetryDelay_def mult.assoc)
  next
    case False
    then show ?thesis
      using Suc.IH [of "d * 2"] Suc.prems
      by (simp add: maxReferenceRetryDelay_def mult.assoc Minute_def Second_def)
  qed
qed (simp add: maxReferenceRetryDelay_def)

lemma retryDelay_loop_min:
  "0 < d \<Longrightarrow> d \<le> Minute \<Longrightarrow> retryDelay_loop k d = min Minute (d * 2 ^ k)"
proof (induction k arbitrary: d)
  case (Suc k)
  show ?case
  proof (cases "Minute \<le> d * 2")
    case True
    also have "d * 2 * 1 \<le> d * 2 * 2 ^ k" by (rule mult_left_mono) (use Suc.prems in simp_all)
    finally show ?thesis using True by (simp add: maxRetryDelay_def mult.assoc)
  next
    case False
    then show ?thesis
      using Suc.IH [of "d * 2"] Suc.prems by (simp add: maxRetryDelay_def mult.assoc)
  qed
qed simp

lemma sint_double32:
  "0 < sint d \<Longrightarrow> sint d < 60 \<Longrightarrow> sint (d * 2 :: int32) = 2 * sint d"
  by (simp add: sint_word_ariths signed_take_bit_int_eq_self_iff mult.commute)

lemma retryVisibility_loop_min:
  "0 < sint d \<Longrightarrow> min 60 (sint (retryVisibility_loop k d)) = min 60 (sint d * 2 ^ k)"
proof (induction k arbitrary: d)
  case (Suc k)
  show ?case
  proof (cases "sint d < 60")
    case True
    then show ?thesis
      using Suc.IH [of "d * 2"] Suc.prems
      by (simp add: maxRetryVisibilitySeconds_def word_sless_alt sint_double32 mult.assoc mult.left_commute)
  next
    case False
    have "(1 :: int) \<le> 2 ^ Suc k" by (rule one_le_power) simp
    then have "sint d * 1 \<le> sint d * 2 ^ Suc k" by (rule mult_left_mono) (use Suc.prems in simp)
    with False have "60 \<le> sint d * 2 ^ Suc k" by linarith
    with False show ?thesis
      by (simp add: maxRetryVisibilitySeconds_def word_sless_alt)
  qed
qed simp

lemma sint_retryVisibility:
  "sint (retryVisibility n) = min 60 (5 * 2 ^ nat ((if n < 1 then 1 else n) - 1))"
  using retryVisibility_loop_min [of 5 "nat ((if n < 1 then 1 else n) - 1)"]
  by (auto simp: retryVisibility_def Let_def maxRetryVisibilitySeconds_def word_sless_alt min_def
      split: if_splits)

interpretation reference_backoff: capped_backoff referenceRetryBackoff referenceRetryDelay maxReferenceRetryDelay
proof (unfold_locales, goal_cases)
  case (4 n)
  have *: "referenceRetryBackoff (int k + 1) = min maxReferenceRetryDelay (referenceRetryDelay * 2 ^ k)" for k
  proof -
    have "referenceRetryBackoff_loop k referenceRetryDelay = min Minute (referenceRetryDelay * 2 ^ k)"
      by (rule referenceRetryBackoff_loop_min) (simp_all add: referenceRetryDelay_def Minute_def Second_def)
    then show ?thesis
      by (cases "k = 0") (simp_all add: referenceRetryBackoff_def maxReferenceRetryDelay_def referenceRetryDelay_def Minute_def Second_def)
  qed
  show ?case
    using 4 by (intro doubling_next [OF _ _ *])
      (simp_all add: referenceRetryDelay_def maxReferenceRetryDelay_def Minute_def Second_def)
qed (simp_all add: referenceRetryDelay_def maxReferenceRetryDelay_def Minute_def Second_def referenceRetryBackoff_def)

interpretation outbox_backoff: capped_backoff retryDelay retryBaseDelay maxRetryDelay
proof (unfold_locales, goal_cases)
  case (4 n)
  have *: "retryDelay (int k + 1) = min maxRetryDelay (retryBaseDelay * 2 ^ k)" for k
  proof -
    have "retryDelay_loop k retryBaseDelay = min Minute (retryBaseDelay * 2 ^ k)"
      by (rule retryDelay_loop_min) (simp_all add: retryBaseDelay_def Minute_def Second_def)
    then show ?thesis
      by (cases "k = 0") (simp_all add: retryDelay_def maxRetryDelay_def retryBaseDelay_def Minute_def Second_def)
  qed
  show ?case
    using 4 by (intro doubling_next [OF _ _ *])
      (simp_all add: retryBaseDelay_def maxRetryDelay_def Minute_def Second_def)
qed (simp_all add: retryBaseDelay_def maxRetryDelay_def Minute_def Second_def retryDelay_def)

interpretation sqs_backoff: capped_backoff "\<lambda>n. sint (retryVisibility n)" 5 "sint maxRetryVisibilitySeconds"
proof (unfold_locales, goal_cases)
  case (4 n)
  have *: "sint (retryVisibility (int k + 1)) = min (sint maxRetryVisibilitySeconds) (5 * 2 ^ k)" for k
    by (simp add: sint_retryVisibility maxRetryVisibilitySeconds_def)
  show ?case
    using 4 by (intro doubling_next [where f = "\<lambda>n. sint (retryVisibility n)", OF _ _ *])
      (simp_all add: maxRetryVisibilitySeconds_def)
qed (simp_all add: sint_retryVisibility maxRetryVisibilitySeconds_def)

section \<open>Properties\<close>

text \<open>C40: the three retry delays terminate and are the capped doubling they mean to be: attempt
  \<open>k + 1\<close> waits \<open>5 * 2 ^ k\<close> seconds, never less than 5 and never more than 60, whatever the attempt
  number, without a wrap-around of the 32-bit visibility timeout; a later attempt never waits less.\<close>

theorem retry_delays_capped:
  "referenceRetryBackoff (int k + 1) = min Minute (5 * Second * 2 ^ k)
   \<and> retryDelay (int k + 1) = min Minute (5 * Second * 2 ^ k)
   \<and> sint (retryVisibility (int k + 1)) = min 60 (5 * 2 ^ k)
   \<and> referenceRetryBackoff n \<in> {5 * Second .. Minute} \<and> retryDelay n \<in> {5 * Second .. Minute}
   \<and> sint (retryVisibility n) \<in> {5 .. 60}
   \<and> referenceRetryBackoff n \<le> referenceRetryBackoff (n + int k) \<and> retryDelay n \<le> retryDelay (n + int k)
   \<and> sint (retryVisibility n) \<le> sint (retryVisibility (n + int k))"
  using reference_backoff.closed [of k] outbox_backoff.closed [of k] sqs_backoff.closed [of k]
    reference_backoff.lower [of n] reference_backoff.upper [of n] outbox_backoff.lower [of n]
    outbox_backoff.upper [of n] sqs_backoff.lower [of n] sqs_backoff.upper [of n]
    reference_backoff.mono [of n "n + int k"] outbox_backoff.mono [of n "n + int k"] sqs_backoff.mono [of n "n + int k"]
  by (simp add: referenceRetryDelay_def retryBaseDelay_def maxReferenceRetryDelay_def maxRetryDelay_def
      maxRetryVisibilitySeconds_def)

end
