(* ===== verification/Go_Json_Decode.thy ===== *)
theory Go_Json_Decode
  imports Go_Json Go_Strings
begin

text \<open>
  What the code uses of \<^verbatim>\<open>encoding/json\<close> to read: the syntax of a JSON text with Go's nesting
  limit, the unquoting of strings (escapes, surrogate pairs, ill-formed UTF-8 as U+FFFD), and
  the decoding of an object into a struct of string fields: keys match exactly or folded,
  unknown keys are ignored or refused, a repeated key overwrites, \<^verbatim>\<open>null\<close> changes nothing, any
  other kind of value is an error. A string or key keeps its raw text between the quotes until it is
  decoded, as \<^verbatim>\<open>UnmarshalJSON\<close> methods receive it. An error anywhere makes the whole decoding
  fail, so the value decoded so far is then irrelevant.
\<close>

section \<open>Syntax\<close>

datatype json = JNull | JBool bool | JNumber string | JString string
  | JArray "json list" | JObject "(string \<times> json) list"

definition is_space :: "char \<Rightarrow> bool" where
  "is_space c \<longleftrightarrow> c = CHR '' '' \<or> c = CHR 0x09 \<or> c = CHR 0x0A \<or> c = CHR 0x0D"

abbreviation skip_space :: "string \<Rightarrow> string" where
  "skip_space s \<equiv> dropWhile is_space s"

definition is_hex :: "char \<Rightarrow> bool" where
  "is_hex c \<longleftrightarrow> is_digit c \<or> (97 \<le> byte c \<and> byte c \<le> 102) \<or> (65 \<le> byte c \<and> byte c \<le> 70)"

text \<open>The rest of a string literal after its opening quote: its raw text and what follows the
  closing quote. The states are those of Go's scanner: inside the string, after a backslash, and in
  an escape \<^verbatim>\<open>\u\<close> with the number of hexadecimal digits that follow the next one.\<close>

datatype str_state = InString | InStringEsc | InStringEscU nat

definition short_escapes :: string where
  "short_escapes = quote_char # backslash # ''/bfnrt''"

fun scan_string :: "str_state \<Rightarrow> string \<Rightarrow> (string \<times> string) option" where
  "scan_string st [] = None"
| "scan_string st (c # cs) =
     (case st of
        InString \<Rightarrow>
          if c = quote_char then Some ([], cs)
          else if c = backslash then prepend [c] (scan_string InStringEsc cs)
          else if byte c < 0x20 then None else prepend [c] (scan_string InString cs)
      | InStringEsc \<Rightarrow>
          if c = CHR ''u'' then prepend [c] (scan_string (InStringEscU 3) cs)
          else if c \<in> set short_escapes then prepend [c] (scan_string InString cs) else None
      | InStringEscU n \<Rightarrow>
          if is_hex c then prepend [c] (scan_string (if n = 0 then InString else InStringEscU (n - 1)) cs)
          else None)"

definition scan_digits :: "string \<Rightarrow> (string \<times> string) option" where
  "scan_digits s = (let d = takeWhile is_digit s in if d = [] then None else Some (d, dropWhile is_digit s))"

definition scan_integer :: "string \<Rightarrow> (string \<times> string) option" where
  "scan_integer s =
     (case s of [] \<Rightarrow> None | c # r \<Rightarrow> if c = CHR ''0'' then Some ([c], r) else scan_digits s)"

definition scan_fraction :: "string \<Rightarrow> (string \<times> string) option" where
  "scan_fraction s =
     (case s of c # r \<Rightarrow> if c = CHR ''.'' then prepend [c] (scan_digits r) else Some ([], s) | [] \<Rightarrow> Some ([], s))"

definition scan_exponent :: "string \<Rightarrow> (string \<times> string) option" where
  "scan_exponent s =
     (case s of [] \<Rightarrow> Some ([], s)
      | c # r \<Rightarrow>
          if c = CHR ''e'' \<or> c = CHR ''E'' then
            (case r of
               d # r' \<Rightarrow> if d = CHR ''+'' \<or> d = CHR ''-'' then prepend [c, d] (scan_digits r') else prepend [c] (scan_digits r)
             | [] \<Rightarrow> None)
          else Some ([], s))"

definition scan_number :: "string \<Rightarrow> (string \<times> string) option" where
  "scan_number s =
     (case s of [] \<Rightarrow> None
      | c # r \<Rightarrow>
        Option.bind (if c = CHR ''-'' then prepend [c] (scan_integer r) else scan_integer s) (\<lambda>(i, s1).
        Option.bind (scan_fraction s1) (\<lambda>(f, s2).
        Option.bind (scan_exponent s2) (\<lambda>(e, s3). Some (i @ f @ e, s3)))))"

definition scan_literal :: "string \<Rightarrow> json \<Rightarrow> string \<Rightarrow> (json \<times> string) option" where
  "scan_literal l v s = (if take (length l) s = l then Some (v, drop (length l) s) else None)"

definition scan_scalar :: "string \<Rightarrow> (json \<times> string) option" where
  "scan_scalar s =
     (case s of [] \<Rightarrow> None
      | c # r \<Rightarrow>
          if c = quote_char then map_option (\<lambda>(x, t). (JString x, t)) (scan_string InString r)
          else if c = CHR ''t'' then scan_literal ''true'' (JBool True) s
          else if c = CHR ''f'' then scan_literal ''false'' (JBool False) s
          else if c = CHR ''n'' then scan_literal ''null'' JNull s
          else map_option (\<lambda>(x, t). (JNumber x, t)) (scan_number s))"

definition maxNestingDepth :: nat where "maxNestingDepth = 10000"

text \<open>One value, the members of an object after its brace, the elements of an array after its
  bracket. The first argument is fuel, the second the number of open objects and arrays.\<close>

definition next_char :: "string \<Rightarrow> (char \<times> string) option" where
  "next_char s = (case skip_space s of [] \<Rightarrow> None | c # r \<Rightarrow> Some (c, r))"

fun parse_value :: "nat \<Rightarrow> nat \<Rightarrow> string \<Rightarrow> (json \<times> string) option"
and parse_members :: "nat \<Rightarrow> nat \<Rightarrow> string \<Rightarrow> ((string \<times> json) list \<times> string) option"
and parse_elements :: "nat \<Rightarrow> nat \<Rightarrow> string \<Rightarrow> (json list \<times> string) option" where
  "parse_value 0 d s = None"
| "parse_value (Suc n) d s =
     Option.bind (next_char s) (\<lambda>(c, r).
     if c = CHR ''{'' then
       if maxNestingDepth \<le> d then None
       else if skip_space r \<noteq> [] \<and> hd (skip_space r) = CHR ''}'' then Some (JObject [], tl (skip_space r))
       else map_option (\<lambda>(ms, t). (JObject ms, t)) (parse_members n (Suc d) r)
     else if c = CHR ''['' then
       if maxNestingDepth \<le> d then None
       else if skip_space r \<noteq> [] \<and> hd (skip_space r) = CHR '']'' then Some (JArray [], tl (skip_space r))
       else map_option (\<lambda>(vs, t). (JArray vs, t)) (parse_elements n (Suc d) r)
     else scan_scalar (c # r))"
| "parse_members 0 d s = None"
| "parse_members (Suc n) d s =
     Option.bind (next_char s) (\<lambda>(c, r).
     if c \<noteq> quote_char then None
     else
       Option.bind (scan_string InString r) (\<lambda>(k, r1).
       Option.bind (next_char r1) (\<lambda>(c1, r2).
       if c1 \<noteq> CHR '':'' then None
       else
         Option.bind (parse_value n d r2) (\<lambda>(v, r3).
         Option.bind (next_char r3) (\<lambda>(c2, r4).
         if c2 = CHR ''}'' then Some ([(k, v)], r4)
         else if c2 = CHR '','' then map_option (\<lambda>(ms, t). ((k, v) # ms, t)) (parse_members n d r4)
         else None)))))"
| "parse_elements 0 d s = None"
| "parse_elements (Suc n) d s =
     Option.bind (parse_value n d s) (\<lambda>(v, r3).
     Option.bind (next_char r3) (\<lambda>(c2, r4).
     if c2 = CHR '']'' then Some ([v], r4)
     else if c2 = CHR '','' then map_option (\<lambda>(vs, t). (v # vs, t)) (parse_elements n d r4)
     else None))"

text \<open>\<open>parse_text\<close> is the whole text, as \<^verbatim>\<open>json.Unmarshal\<close> reads it, \<open>parse_first\<close> its first value,
  as a \<^verbatim>\<open>json.Decoder\<close> does.\<close>

definition json_fuel :: "string \<Rightarrow> nat" where
  "json_fuel s = 2 * length s + 2"

definition parse_first :: "string \<Rightarrow> json option" where
  "parse_first s = map_option fst (parse_value (json_fuel s) 0 s)"

definition parse_text :: "string \<Rightarrow> json option" where
  "parse_text s =
     (case parse_value (json_fuel s) 0 s of
        None \<Rightarrow> None | Some (v, r) \<Rightarrow> if skip_space r = [] then Some v else None)"

section \<open>The parser consumes its input, so the fuel suffices\<close>

lemma prepend_eq_Some: "prepend p r = Some (s, t) \<longleftrightarrow> (\<exists>s'. r = Some (s', t) \<and> s = p @ s')"
  by (cases r) (auto simp: prepend_def)

lemma scan_string_length: "scan_string st s = Some (x, t) \<Longrightarrow> length t < length s"
proof (induction s arbitrary: st x)
  case Nil
  then show ?case by simp
next
  case (Cons c cs)
  then show ?case by (cases st) (fastforce simp: prepend_eq_Some split: if_splits)+
qed

lemma skip_space_length: "length (skip_space s) \<le> length s"
  by (rule length_dropWhile_le)

lemma scan_digits_length: "scan_digits s = Some (x, t) \<Longrightarrow> length t < length s"
proof -
  assume "scan_digits s = Some (x, t)"
  then have "takeWhile is_digit s \<noteq> []" "t = dropWhile is_digit s"
    by (auto simp: scan_digits_def Let_def split: if_splits)
  moreover have "length (takeWhile is_digit s) + length (dropWhile is_digit s) = length s"
    by (metis length_append takeWhile_dropWhile_id)
  ultimately show ?thesis by (cases "takeWhile is_digit s") auto
qed

lemma scan_number_length: "scan_number s = Some (x, t) \<Longrightarrow> length t < length s"
proof -
  assume r: "scan_number s = Some (x, t)"
  have i: "scan_integer u = Some (y, v) \<Longrightarrow> length v < length u" for u y v
    by (auto simp: scan_integer_def dest: scan_digits_length split: list.splits if_splits)
  have f: "scan_fraction u = Some (y, v) \<Longrightarrow> length v \<le> length u" for u y v
    by (auto simp: scan_fraction_def prepend_eq_Some dest: scan_digits_length split: list.splits if_splits)
  have e: "scan_exponent u = Some (y, v) \<Longrightarrow> length v \<le> length u" for u y v
    by (auto simp: scan_exponent_def prepend_eq_Some dest!: scan_digits_length split: list.splits if_splits)
  from r obtain c u i1 s1 f1 s2 e1 where "s = c # u"
    "(if c = CHR ''-'' then prepend [c] (scan_integer u) else scan_integer s) = Some (i1, s1)"
    "scan_fraction s1 = Some (f1, s2)" "scan_exponent s2 = Some (e1, t)"
    by (auto simp: scan_number_def bind_eq_Some_conv split: list.splits)
  then show ?thesis
    using f [of s1] e [of s2] i [of u] i [of s] by (fastforce simp: prepend_eq_Some split: if_splits)
qed

lemma scan_scalar_length: "scan_scalar s = Some (v, t) \<Longrightarrow> length t < length s"
  by (cases s) (auto simp: scan_scalar_def scan_literal_def dest!: scan_string_length scan_number_length split: if_splits)

lemma next_char_length: "next_char s = Some (c, r) \<Longrightarrow> length r < length s"
  using skip_space_length [of s] by (auto simp: next_char_def split: list.splits)

lemma parse_length:
  "parse_value n d s = Some (v, t) \<Longrightarrow> length t < length s"
  "parse_members n d s = Some (ms, t) \<Longrightarrow> length t < length s"
  "parse_elements n d s = Some (vs, t) \<Longrightarrow> length t < length s"
proof (induction n arbitrary: d s v t ms vs)
  case 0
  { case 1 then show ?case by simp next case 2 then show ?case by simp next case 3 then show ?case by simp }
next
  case (Suc n)
  {
    case 1
    then obtain c r where c: "next_char s = Some (c, r)" by (auto simp: bind_eq_Some_conv)
    note len = next_char_length [OF c] skip_space_length [of r]
    from 1 c show ?case
      by (auto simp: bind_eq_Some_conv dest!: Suc.IH scan_scalar_length split: if_splits) (use len in auto)
  next
    case 2
    then show ?case
      by (auto simp: bind_eq_Some_conv dest!: Suc.IH next_char_length scan_string_length split: if_splits)
  next
    case 3
    then show ?case
      by (auto simp: bind_eq_Some_conv dest!: Suc.IH next_char_length split: if_splits)
  }
qed

lemma parse_fuel_Suc:
  "2 * length s + 1 \<le> n \<Longrightarrow> parse_value (Suc n) d s = parse_value n d s"
  "2 * length s + 2 \<le> n \<Longrightarrow> parse_members (Suc n) d s = parse_members n d s"
  "2 * length s + 2 \<le> n \<Longrightarrow> parse_elements (Suc n) d s = parse_elements n d s"
proof (induction n arbitrary: d s)
  case 0
  { case 1 then show ?case by simp next case 2 then show ?case by simp next case 3 then show ?case by simp }
next
  case (Suc n)
  {
    case 1
    have "parse_members (Suc n) e r = parse_members n e r \<and> parse_elements (Suc n) e r = parse_elements n e r"
      if "next_char s = Some (c, r)" for c r e
      using next_char_length [OF that] 1 Suc.IH(2,3) [of r e] by simp
    then show ?case
      unfolding parse_value.simps(2) [of "Suc n" d s] parse_value.simps(2) [of n d s]
      by (intro bind_option_cong refl) (auto split: prod.split)
  next
    case 2
    have l: "length r2 < length s"
      if "next_char r1 = Some (c1, r2)" "scan_string InString r = Some (k, r1)" "next_char s = Some (c, r)" for c r k r1 c1 r2
      using next_char_length [OF that(1)] scan_string_length [OF that(2)] next_char_length [OF that(3)] by simp
    have v: "parse_value (Suc n) d r2 = parse_value n d r2" if "length r2 < length s" for r2
      using that 2 by (intro Suc.IH(1)) simp
    have m: "parse_members (Suc n) d r4 = parse_members n d r4"
      if "next_char r3 = Some (c, r4)" "parse_value n d r2 = Some (v, r3)" "length r2 < length s" for r2 v r3 c r4
      using parse_length(1) [OF that(2)] next_char_length [OF that(1)] that(3) 2 by (intro Suc.IH(2)) simp
    show ?case
      unfolding parse_members.simps(2) [of "Suc n" d s] parse_members.simps(2) [of n d s]
      by (auto simp: v l m simp del: parse_value.simps parse_members.simps intro!: bind_option_cong split: prod.split)
  next
    case 3
    have v: "parse_value (Suc n) d s = parse_value n d s" using 3 by (intro Suc.IH(1)) simp
    have "parse_elements (Suc n) d r4 = parse_elements n d r4"
      if "parse_value n d s = Some (v, r3)" "next_char r3 = Some (c, r4)" for v r3 c r4
      using parse_length(1) [OF that(1)] next_char_length [OF that(2)] 3 by (intro Suc.IH(3)) simp
    then show ?case
      unfolding parse_elements.simps(2) [of "Suc n" d s] parse_elements.simps(2) [of n d s] v
      by (intro bind_option_cong refl) (auto split: prod.split intro!: bind_option_cong)
  }
qed

lemma parse_value_fuel: "json_fuel s \<le> n \<Longrightarrow> parse_value n d s = parse_value (json_fuel s) d s"
proof (induction n)
  case 0
  then show ?case by (simp add: json_fuel_def)
next
  case (Suc n)
  show ?case
  proof (cases "json_fuel s \<le> n")
    case True
    then have "parse_value (Suc n) d s = parse_value n d s" by (intro parse_fuel_Suc(1)) (simp add: json_fuel_def)
    with Suc True show ?thesis by simp
  next
    case False
    with Suc.prems have "Suc n = json_fuel s" by simp
    then show ?thesis by simp
  qed
qed

section \<open>Unquoting\<close>

definition hex_digit :: "char \<Rightarrow> nat" where
  "hex_digit c = (if is_digit c then digit_value c else if 97 \<le> byte c then byte c - 87 else byte c - 55)"

definition hex4 :: "char \<Rightarrow> char \<Rightarrow> char \<Rightarrow> char \<Rightarrow> nat" where
  "hex4 a b c d = ((hex_digit a * 16 + hex_digit b) * 16 + hex_digit c) * 16 + hex_digit d"

text \<open>The UTF-8 bytes of a rune.\<close>

definition utf8 :: "nat \<Rightarrow> string" where
  "utf8 n =
     (if n < 0x80 then [char_of n]
      else if n < 0x800 then [char_of (0xC0 + n div 64), char_of (0x80 + n mod 64)]
      else if n < 0x10000 then
        [char_of (0xE0 + n div 4096), char_of (0x80 + n div 64 mod 64), char_of (0x80 + n mod 64)]
      else
        [char_of (0xF0 + n div 262144), char_of (0x80 + n div 4096 mod 64),
         char_of (0x80 + n div 64 mod 64), char_of (0x80 + n mod 64)])"

definition replacement :: string where
  "replacement = utf8 0xFFFD"

text \<open>The rune of an escape with value \<open>u\<close> when the raw text \<open>r\<close> follows it, and how many bytes of
  \<open>r\<close> it uses: the second half of a surrogate pair.\<close>

definition surrogate :: "nat \<Rightarrow> string \<Rightarrow> string \<times> nat" where
  "surrogate u r =
     (if 0xD800 \<le> u \<and> u < 0xE000 then
        (case r of
           b # x # g1 # g2 # g3 # g4 # _ \<Rightarrow>
             (let v = hex4 g1 g2 g3 g4 in
              if b = backslash \<and> x = CHR ''u'' \<and> u < 0xDC00 \<and> 0xDC00 \<le> v \<and> v < 0xE000
              then (utf8 (0x10000 + (u - 0xD800) * 1024 + (v - 0xDC00)), 6) else (replacement, 0))
         | _ \<Rightarrow> (replacement, 0))
      else (utf8 u, 0))"

fun unquote :: "string \<Rightarrow> string" where
  "unquote [] = []"
| "unquote (c # cs) =
     (if c = backslash then
        (case cs of
           [] \<Rightarrow> []
         | e # r \<Rightarrow>
             if e = CHR ''u'' then
               (case r of
                  h1 # h2 # h3 # h4 # r' \<Rightarrow>
                    fst (surrogate (hex4 h1 h2 h3 h4) r')
                      @ unquote (drop (snd (surrogate (hex4 h1 h2 h3 h4) r')) r')
                | _ \<Rightarrow> [])
             else unescape_short e # unquote r)
      else if byte c < 0x80 then c # unquote cs
      else if utf8_size (c # cs) = 0 then replacement @ unquote cs
      else take (utf8_size (c # cs)) (c # cs) @ unquote (drop (utf8_size (c # cs) - 1) cs))"

section \<open>What \<open>Marshal\<close> writes is read back\<close>

lemma scan_string_high:
  "list_all (\<lambda>c. 0x80 \<le> byte c) xs \<Longrightarrow> scan_string InString (xs @ t) = prepend xs (scan_string InString t)"
  by (induction xs) (auto dest: byte_high_neq)

lemma hex_char_cases: "n < 16 \<Longrightarrow> is_hex (hex_char n)"
  by (auto simp: is_hex_def is_digit_def hex_char_def byte_def)

lemma is_hex_digits [simp]: "is_hex CHR ''0''" "is_hex CHR ''2''" "is_hex CHR ''8''" "is_hex CHR ''9''"
    "is_hex CHR ''f''" "is_hex CHR ''d''"
  by (simp_all add: is_hex_def is_digit_def byte_def)

lemma scan_escape_ascii:
  assumes "byte c < 0x80"
  shows "scan_string InString (escape_ascii c @ t) = prepend (escape_ascii c) (scan_string InString t)"
proof -
  have "byte c div 16 < 16" using assms by simp
  then show ?thesis
    using hex_char_cases [of "byte c div 16"] hex_char_cases [of "byte c mod 16"]
    by (auto simp: escape_ascii_def short_escapes_def)
qed

lemma scan_line_sep: "line_sep r = Some e \<Longrightarrow> scan_string InString (e @ t) = prepend e (scan_string InString t)"
  by (auto simp: line_sep_def split: if_splits)

lemma scan_json_escape: "scan_string InString (json_escape s @ quote_char # t) = Some (json_escape s, t)"
proof (induction s rule: json_escape.induct)
  case 1
  then show ?case by simp
next
  case (2 c cs)
  show ?case
  proof (cases "byte c < 0x80")
    case True
    with 2 show ?thesis by (simp add: scan_escape_ascii del: scan_string.simps)
  next
    case False
    show ?thesis
    proof (cases "utf8_size (c # cs) = 0")
      case True
      with False 2 show ?thesis by simp
    next
      case nz: False
      have "scan_string InString ((case line_sep (take (utf8_size (c # cs)) (c # cs)) of None \<Rightarrow> take (utf8_size (c # cs)) (c # cs) | Some e \<Rightarrow> e) @ u)
        = prepend (case line_sep (take (utf8_size (c # cs)) (c # cs)) of None \<Rightarrow> take (utf8_size (c # cs)) (c # cs) | Some e \<Rightarrow> e) (scan_string InString u)" for u
        using utf8_size_high [OF nz] by (cases "line_sep (take (utf8_size (c # cs)) (c # cs))")
          (simp_all add: scan_string_high scan_line_sep del: scan_string.simps take_Suc_Cons)
      with False nz 2 show ?thesis by (simp add: Let_def del: scan_string.simps)
    qed
  qed
qed

lemma utf8_size_prefix: "utf8_size s \<noteq> 0 \<Longrightarrow> utf8_size (take (utf8_size s) s @ t) = utf8_size s"
proof -
  assume nz: "utf8_size s \<noteq> 0"
  then obtain a b r where s: "s = a # b # r" by (auto simp: utf8_size_def split: list.splits)
  show ?thesis
  proof (cases "cont 0xC2 0xDF a")
    case True
    with nz utf8_size_two [OF True] show ?thesis by (auto simp: s utf8_size_def split: if_splits)
  next
    case n2: False
    with nz obtain c u where r: "r = c # u" by (auto simp: s utf8_size_def split: list.splits if_splits)
    show ?thesis
    proof (cases "cont 0xE0 0xEF a")
      case True
      with n2 nz utf8_size_three [of a b c u] show ?thesis
        by (simp add: s r) (simp add: utf8_size_def split: if_splits)
    next
      case n3: False
      with n2 nz obtain d v where u: "u = d # v" by (auto simp: s r utf8_size_def split: list.splits if_splits)
      with n2 n3 nz utf8_size_four [of a b c d v] show ?thesis
        by (simp add: s r u) (simp add: utf8_size_def split: if_splits)
    qed
  qed
qed

lemma hex_digit_hex_char: "n < 16 \<Longrightarrow> hex_digit (hex_char n) = n"
  by (auto simp: hex_digit_def hex_char_def is_digit_def digit_value_def byte_def)

lemma unquote_escape_ascii:
  assumes "byte c < 0x80"
  shows "unquote (escape_ascii c @ t) = c # unquote t"
proof -
  have h: "hex_digit (hex_char (byte c div 16)) = byte c div 16" "hex_digit (hex_char (byte c mod 16)) = byte c mod 16"
    using assms by (simp_all add: hex_digit_hex_char)
  have z: "hex_digit CHR ''0'' = 0" by (simp add: hex_digit_def is_digit_def digit_value_def)
  have u: "unquote (backslash # CHR ''u'' # CHR ''0'' # CHR ''0'' # hex_char (byte c div 16) # hex_char (byte c mod 16) # t)
      = c # unquote t"
    using assms by (simp add: hex4_def h z surrogate_def utf8_def)
  have short: "e \<noteq> CHR ''u'' \<Longrightarrow> unquote (backslash # e # t) = unescape_short e # unquote t" for e by simp
  have c: "byte c = k \<Longrightarrow> char_of k = c" for k by auto
  show ?thesis
  proof (cases "c = quote_char \<or> c = backslash \<or> byte c \<in> {8, 12, 10, 13, 9}")
    case True
    then consider "c = quote_char" | "c = backslash" | "byte c = 8" | "byte c = 12" | "byte c = 10" | "byte c = 13" | "byte c = 9"
      by blast
    then show ?thesis
    proof cases
      case 1 then show ?thesis by (simp add: escape_ascii_def short unescape_short_def del: unquote.simps)
    next
      case 2 then show ?thesis by (simp add: escape_ascii_def short unescape_short_def del: unquote.simps)
    qed (auto simp: escape_ascii_def short unescape_short_def c byte_def simp del: unquote.simps)
  next
    case False
    with assms u show ?thesis by (auto simp: escape_ascii_def)
  qed
qed

lemma char_of_eqI: "byte c = n \<Longrightarrow> char_of n = c"
  by auto

lemma utf8_line_sep: "utf8 0x2028 = [CHR 0xE2, CHR 0x80, CHR 0xA8]" "utf8 0x2029 = [CHR 0xE2, CHR 0x80, CHR 0xA9]"
  by (auto simp: utf8_def byte_def intro!: char_of_eqI)

lemma hex4_line_sep: "hex4 CHR ''2'' CHR ''0'' CHR ''2'' CHR ''8'' = 0x2028" "hex4 CHR ''2'' CHR ''0'' CHR ''2'' CHR ''9'' = 0x2029"
  by code_simp+

lemma unquote_line_sep: "line_sep r = Some e \<Longrightarrow> unquote (e @ t) = r @ unquote t"
  by (auto simp: line_sep_def hex4_line_sep surrogate_def utf8_line_sep split: if_splits)

lemma unquote_high:
  assumes nz: "utf8_size s \<noteq> 0"
  shows "unquote (take (utf8_size s) s @ t) = take (utf8_size s) s @ unquote t"
proof -
  let ?n = "utf8_size s"
  have len: "?n \<le> length s"
    using nz by (auto simp: utf8_size_def split: list.splits if_splits)
  from nz len obtain c cs where p: "take ?n s = c # cs" by (cases "take ?n s") auto
  have hi: "0x80 \<le> byte c" using utf8_size_high [OF nz] by (simp add: p)
  then have "c \<noteq> backslash" using byte_high_neq by blast
  have n: "length (c # cs) = ?n" using len by (simp add: p [symmetric])
  have "utf8_size (c # cs @ t) = ?n" using utf8_size_prefix [OF nz, of t] by (simp add: p)
  with hi \<open>c \<noteq> backslash\<close> nz n show ?thesis
    by (simp add: p) (simp add: take_Cons' split: if_splits)
qed

lemma unquote_json_escape: "well_formed s \<Longrightarrow> unquote (json_escape s) = s"
proof (induction s rule: json_escape.induct)
  case 1
  then show ?case by simp
next
  case (2 c cs)
  show ?case
  proof (cases "byte c < 0x80")
    case True
    with 2 show ?thesis by (simp add: unquote_escape_ascii del: unquote.simps)
  next
    case False
    with "2.prems" have nz: "utf8_size (c # cs) \<noteq> 0" by simp
    have "take (utf8_size (c # cs)) (c # cs) @ drop (utf8_size (c # cs) - 1) cs = c # cs"
      using nz by (cases "utf8_size (c # cs)") auto
    moreover have "unquote ((case line_sep (take (utf8_size (c # cs)) (c # cs)) of None \<Rightarrow> take (utf8_size (c # cs)) (c # cs) | Some e \<Rightarrow> e) @ u)
        = take (utf8_size (c # cs)) (c # cs) @ unquote u" for u
      using unquote_high [OF nz] by (cases "line_sep (take (utf8_size (c # cs)) (c # cs))")
        (simp_all add: unquote_line_sep del: unquote.simps take_Suc_Cons)
    ultimately show ?thesis using False nz 2 by (simp add: Let_def del: unquote.simps take_Suc_Cons)
  qed
qed

definition raw_member :: "string \<times> string \<Rightarrow> string \<times> json" where
  "raw_member m = (json_escape (fst m), JString (json_escape (snd m)))"

lemma is_space_simps [simp]: "\<not> is_space quote_char" "\<not> is_space CHR '':''" "\<not> is_space CHR '',''" "\<not> is_space CHR ''}''" "\<not> is_space CHR ''{''"
  by (simp_all add: is_space_def)

lemma next_char_Cons [simp]: "\<not> is_space c \<Longrightarrow> next_char (c # r) = Some (c, r)"
  by (simp add: next_char_def)

lemma parse_string_value: "parse_value (Suc n) d (json_string s @ t) = Some (JString (json_escape s), t)"
  by (simp add: json_string_def scan_scalar_def scan_json_escape)

lemma parse_json_members:
  "ms \<noteq> [] \<Longrightarrow> parse_members (Suc (length ms + n)) d (json_members ms @ CHR ''}'' # t) = Some (map raw_member ms, t)"
proof (induction ms rule: json_members.induct)
  case 1
  then show ?case by simp
next
  case (2 m)
  then show ?case
    using parse_string_value [of n d "snd m"]
    by (simp add: json_member_def json_string_def [of "fst m"] scan_json_escape raw_member_def del: parse_value.simps)
next
  case (3 m m' ms)
  then show ?case
    using parse_string_value [of "Suc (length ms + n)" d "snd m"]
    by (simp add: json_member_def json_string_def [of "fst m"] scan_json_escape raw_member_def
        del: parse_value.simps parse_members.simps(1))
qed

lemma json_members_length: "length ms \<le> length (json_members ms)"
  by (induction ms rule: json_members.induct) (simp_all add: json_member_def json_string_def)

lemma json_members_hd: "ms \<noteq> [] \<Longrightarrow> \<exists>r. json_members ms = quote_char # r"
  by (cases ms rule: json_members.cases) (auto simp: json_member_def json_string_def)

lemma parse_json_object: "parse_text (json_object ms) = Some (JObject (map raw_member ms))"
proof (cases "ms = []")
  case True
  then show ?thesis by (simp add: parse_text_def json_fuel_def json_object_def maxNestingDepth_def eval_nat_numeral)
next
  case False
  then obtain r where r: "json_members ms = quote_char # r" using json_members_hd by blast
  obtain k where k: "json_fuel (json_object ms) = Suc (Suc (length ms + k))"
  proof
    show "json_fuel (json_object ms) = Suc (Suc (length ms + (2 * length (json_members ms) + 4 - length ms)))"
      using json_members_length [of ms] by (simp add: json_fuel_def json_object_def)
  qed
  have "parse_value (json_fuel (json_object ms)) 0 (json_object ms) = Some (JObject (map raw_member ms), [])"
    using parse_json_members [OF False, of k 1 "[]"] r unfolding k
    by (simp add: json_object_def maxNestingDepth_def del: parse_members.simps)
  then show ?thesis by (simp add: parse_text_def)
qed

section \<open>Decoding into structs\<close>

text \<open>A decoder changes a value and says whether it met no error.\<close>

type_synonym 'a decoder = "json \<Rightarrow> 'a \<Rightarrow> bool \<times> 'a"

definition string_field :: "((string \<Rightarrow> string) \<Rightarrow> 'a \<Rightarrow> 'a) \<Rightarrow> 'a decoder" where
  "string_field upd v a =
     (case v of JString raw \<Rightarrow> (True, upd (\<lambda>_. unquote raw) a) | JNull \<Rightarrow> (True, a) | _ \<Rightarrow> (False, a))"

text \<open>A field whose type has an \<^verbatim>\<open>UnmarshalJSON\<close> that reads a string's raw text.\<close>

definition text_field :: "(string \<Rightarrow> 'b option) \<Rightarrow> (('b \<Rightarrow> 'b) \<Rightarrow> 'a \<Rightarrow> 'a) \<Rightarrow> 'a decoder" where
  "text_field parse upd v a =
     (case v of
        JString raw \<Rightarrow> (case parse raw of Some x \<Rightarrow> (True, upd (\<lambda>_. x) a) | None \<Rightarrow> (False, a))
      | JNull \<Rightarrow> (True, a) | _ \<Rightarrow> (False, a))"

text \<open>Go folds the case of ASCII letters, of U+017F to \<^verbatim>\<open>S\<close> and of U+212A to \<^verbatim>\<open>K\<close>; other letters
  never fold to ASCII.\<close>

definition fold_byte :: "char \<Rightarrow> char" where
  "fold_byte c = (if 97 \<le> byte c \<and> byte c \<le> 122 then char_of (byte c - 32) else c)"

fun fold_name :: "string \<Rightarrow> string" where
  "fold_name [] = []"
| "fold_name (a # s) =
     (if a = CHR 0xC5 \<and> s \<noteq> [] \<and> hd s = CHR 0xBF then CHR ''S'' # fold_name (tl s)
      else if a = CHR 0xE2 \<and> take 2 s = [CHR 0x84, CHR 0xAA] then CHR ''K'' # fold_name (drop 2 s)
      else fold_byte a # fold_name s)"

definition find_field :: "(string \<times> 'a decoder) list \<Rightarrow> string \<Rightarrow> 'a decoder option" where
  "find_field fields key =
     (case map_of fields key of
        Some d \<Rightarrow> Some d
      | None \<Rightarrow> map_of (map (\<lambda>(k, d). (fold_name k, d)) fields) (fold_name key))"

fun decode_members :: "bool \<Rightarrow> (string \<times> 'a decoder) list \<Rightarrow> (string \<times> json) list \<Rightarrow> 'a \<Rightarrow> bool \<times> 'a" where
  "decode_members strict fields [] a = (True, a)"
| "decode_members strict fields ((key, v) # ms) a =
     (case (case find_field fields (unquote key) of Some d \<Rightarrow> d v a | None \<Rightarrow> (\<not> strict, a)) of
        (ok, a') \<Rightarrow> (case decode_members strict fields ms a' of (ok', a'') \<Rightarrow> (ok \<and> ok', a'')))"

text \<open>\<open>strict\<close> is \<^verbatim>\<open>DisallowUnknownFields\<close>.\<close>

definition struct :: "bool \<Rightarrow> (string \<times> 'a decoder) list \<Rightarrow> 'a decoder" where
  "struct strict fields v a =
     (case v of JObject ms \<Rightarrow> decode_members strict fields ms a | JNull \<Rightarrow> (True, a) | _ \<Rightarrow> (False, a))"

text \<open>A field that is a struct itself.\<close>

definition struct_field ::
  "('a \<Rightarrow> 'b) \<Rightarrow> (('b \<Rightarrow> 'b) \<Rightarrow> 'a \<Rightarrow> 'a) \<Rightarrow> 'b decoder \<Rightarrow> 'a decoder" where
  "struct_field get upd d v a = (case d v (get a) of (ok, b) \<Rightarrow> (ok, upd (\<lambda>_. b) a))"

definition decoded :: "'a decoder \<Rightarrow> json option \<Rightarrow> 'a \<Rightarrow> 'a option" where
  "decoded d v a = (case v of None \<Rightarrow> None | Some j \<Rightarrow> (case d j a of (ok, a') \<Rightarrow> if ok then Some a' else None))"

text \<open>\<^verbatim>\<open>json.Unmarshal(s, &a)\<close>, and \<^verbatim>\<open>Decode(&a)\<close> of a decoder with \<^verbatim>\<open>DisallowUnknownFields\<close>.\<close>

definition Unmarshal :: "(string \<times> 'a decoder) list \<Rightarrow> string \<Rightarrow> 'a \<Rightarrow> 'a option" where
  "Unmarshal fields s a = decoded (struct False fields) (parse_text s) a"

definition Decode :: "(string \<times> 'a decoder) list \<Rightarrow> string \<Rightarrow> 'a \<Rightarrow> 'a option" where
  "Decode fields s a = decoded (struct True fields) (parse_first s) a"

lemma Unmarshal_members:
  "Unmarshal fields (json_object ms) a =
     (case decode_members False fields (map raw_member ms) a of (ok, a') \<Rightarrow> if ok then Some a' else None)"
  by (simp add: Unmarshal_def decoded_def struct_def parse_json_object)

end
