(* ===== verification/Go_Time.thy ===== *)
theory Go_Time
  imports Go_Strings
begin

text \<open>
  What the code uses of Go's \<^verbatim>\<open>time\<close>: writing a UTC instant in the layout
  \<^verbatim>\<open>time.RFC3339Nano\<close>, and \<^verbatim>\<open>time.Parse(time.RFC3339, s)\<close> with the freedom of Go's parser
  (an hour of one digit, a comma before the fraction, zone offsets up to 24:60). An instant is its
  number of nanoseconds since 1970-01-01T00:00:00Z. The lemmas show that what is written is
  read back.
\<close>

section \<open>The calendar\<close>

definition is_leap :: "nat \<Rightarrow> bool" where
  "is_leap y \<longleftrightarrow> y mod 4 = 0 \<and> (y mod 100 \<noteq> 0 \<or> y mod 400 = 0)"

definition month_lengths :: "nat \<Rightarrow> nat list" where
  "month_lengths y = [31, if is_leap y then 29 else 28, 31, 30, 31, 30, 31, 31, 30, 31, 30, 31]"

text \<open>Days from 0000-01-01 to the first of January of a year.\<close>

definition year_start :: "nat \<Rightarrow> nat" where
  "year_start y = 365 * y + (y + 3) div 4 + (y + 399) div 400 - (y + 99) div 100"

lemma ceil_div: "0 < k \<Longrightarrow> (y + (k - 1)) div k = y div k + (if y mod k = 0 then 0 else 1)" for y k :: nat
proof -
  assume k: "0 < k"
  define q r where "q = y div k" and "r = y mod k"
  then have y: "y = q * k + r" and r: "r < k" using k by simp_all
  show ?thesis
  proof (cases "r = 0")
    case True
    have "((k - 1) + q * k) div k = q" using k by (subst div_mult_self1) simp_all
    with True show ?thesis using k by (simp add: y add.commute)
  next
    case False
    then have "y + (k - 1) = (r - 1) + (q + 1) * k" using k by (simp add: y)
    moreover have "((r - 1) + (q + 1) * k) div k = q + 1" using r by (subst div_mult_self1) (use k in simp_all)
    ultimately show ?thesis using False r by (simp add: y)
  qed
qed

lemma ceil_div_Suc: "0 < k \<Longrightarrow> (Suc y + (k - 1)) div k = y div k + 1" for y k :: nat
proof -
  assume k: "0 < k"
  then have "Suc y + (k - 1) = y + 1 * k" by simp
  then show ?thesis using k by (simp only: div_mult_self1)
qed

lemma leap_divisors: "y mod 100 = 0 \<Longrightarrow> y mod 4 = 0" "y mod 400 = 0 \<Longrightarrow> y mod 100 = 0" for y :: nat
  using mod_mod_cancel [of 4 100 y] mod_mod_cancel [of 100 400 y] by simp_all

lemma year_start_Suc: "year_start (Suc y) = year_start y + (if is_leap y then 366 else 365)"
proof -
  have c4: "(y + 3) div 4 = y div 4 + (if y mod 4 = 0 then 0 else 1)" "(Suc y + 3) div 4 = y div 4 + 1"
    using ceil_div [of 4 y] ceil_div_Suc [of 4 y] by simp_all
  have c100: "(y + 99) div 100 = y div 100 + (if y mod 100 = 0 then 0 else 1)" "(Suc y + 99) div 100 = y div 100 + 1"
    using ceil_div [of 100 y] ceil_div_Suc [of 100 y] by simp_all
  have c400: "(y + 399) div 400 = y div 400 + (if y mod 400 = 0 then 0 else 1)" "(Suc y + 399) div 400 = y div 400 + 1"
    using ceil_div [of 400 y] ceil_div_Suc [of 400 y] by simp_all
  define a b c where "a = y div 4" and "b = y div 100" and "c = y div 400"
  have le: "b \<le> y" by (simp add: b_def)
  have start: "year_start y = 365 * y + (a + (if y mod 4 = 0 then 0 else 1)) + (c + (if y mod 400 = 0 then 0 else 1))
      - (b + (if y mod 100 = 0 then 0 else 1))"
    "year_start (Suc y) = 365 * Suc y + (a + 1) + (c + 1) - (b + 1)"
    by (simp_all only: year_start_def c4 c100 c400 a_def b_def c_def)
  show ?thesis
    using le leap_divisors [of y] unfolding start is_leap_def
    by (cases "y mod 4 = 0"; cases "y mod 100 = 0"; cases "y mod 400 = 0"; cases "y = 0") simp_all
qed

lemma sum_month_lengths: "sum_list (month_lengths y) = (if is_leap y then 366 else 365)"
  by (simp add: month_lengths_def)

lemma year_start_0: "year_start 0 = 0"
  by (simp add: year_start_def)

lemma year_start_mono: "year_start y \<le> year_start (y + k)"
  by (induction k) (auto simp: year_start_Suc)

lemma year_start_strict: "y < z \<Longrightarrow> year_start y + (if is_leap y then 366 else 365) \<le> year_start z"
  using year_start_mono [of "Suc y" "z - Suc y"] by (simp add: year_start_Suc)

lemma year_start_ge: "365 * y \<le> year_start y"
  by (induction y) (auto simp: year_start_Suc year_start_0)

lemma year_start_le: "year_start y \<le> 366 * y"
  by (induction y) (auto simp: year_start_Suc year_start_0)

text \<open>The year that contains a day: the first from \<open>y\<close> on that has not ended before it. No year
  is longer than 366 days, so \<open>n div 366\<close> is a year to start from.\<close>

function year_from :: "nat \<Rightarrow> nat \<Rightarrow> nat" where
  "year_from y n = (if year_start (Suc y) \<le> n then year_from (Suc y) n else y)"
  by pat_completeness auto
termination
proof (relation "measure (\<lambda>(y, n). n - year_start y)")
  fix y n :: nat
  assume "year_start (Suc y) \<le> n"
  then show "((Suc y, n), (y, n)) \<in> measure (\<lambda>(y, n). n - year_start y)"
    by (auto simp: year_start_Suc split: if_splits)
qed simp

declare year_from.simps [simp del]

definition year_of :: "nat \<Rightarrow> nat" where
  "year_of n = year_from (n div 366) n"

text \<open>The month (from 0) of a day of the year, and the day in it (from 0).\<close>

fun month_day :: "nat list \<Rightarrow> nat \<Rightarrow> nat \<times> nat" where
  "month_day [] n = (0, n)"
| "month_day (l # ls) n = (if n < l then (0, n) else case month_day ls (n - l) of (m, d) \<Rightarrow> (Suc m, d))"

record date =
  dYear :: nat
  dMonth :: nat
  dDay :: nat

definition valid_date :: "date \<Rightarrow> bool" where
  "valid_date c \<longleftrightarrow> 1 \<le> dMonth c \<and> dMonth c \<le> 12 \<and> 1 \<le> dDay c \<and> dDay c \<le> month_lengths (dYear c) ! (dMonth c - 1)"

definition day_number :: "date \<Rightarrow> nat" where
  "day_number c = year_start (dYear c) + sum_list (take (dMonth c - 1) (month_lengths (dYear c))) + (dDay c - 1)"

definition date_of :: "nat \<Rightarrow> date" where
  "date_of n = (let y = year_of n; (m, d) = month_day (month_lengths y) (n - year_start y)
     in \<lparr>dYear = y, dMonth = Suc m, dDay = Suc d\<rparr>)"

lemma year_from_spec: "year_start y \<le> n \<Longrightarrow> year_start (year_from y n) \<le> n \<and> n < year_start (Suc (year_from y n))"
proof (induction y n rule: year_from.induct)
  case (1 y n)
  show ?case
  proof (cases "year_start (Suc y) \<le> n")
    case True
    with "1.IH" show ?thesis by (simp add: year_from.simps [of y])
  next
    case False
    with "1.prems" show ?thesis by (simp add: year_from.simps [of y])
  qed
qed

lemma year_of_spec: "year_start (year_of n) \<le> n" "n < year_start (Suc (year_of n))"
proof -
  have "year_start (n div 366) \<le> n"
    using year_start_le [of "n div 366"] by (meson le_trans times_div_less_eq_dividend)
  from year_from_spec [OF this] show "year_start (year_of n) \<le> n" "n < year_start (Suc (year_of n))"
    by (simp_all add: year_of_def)
qed

lemma year_of_unique: "year_start y \<le> n \<Longrightarrow> n < year_start (Suc y) \<Longrightarrow> year_of n = y"
  using year_of_spec [of n] year_start_mono [of "Suc (year_of n)" "y - Suc (year_of n)"]
    year_start_mono [of "Suc y" "year_of n - Suc y"]
  by (cases "year_of n" y rule: linorder_cases) auto

lemma month_day_bounds:
  "n < sum_list ls \<Longrightarrow> month_day ls n = (m, d) \<Longrightarrow>
     m < length ls \<and> d < ls ! m \<and> sum_list (take m ls) + d = n"
proof (induction ls arbitrary: n m)
  case Nil
  then show ?case by simp
next
  case (Cons l ls)
  show ?case
  proof (cases "n < l")
    case True
    with Cons.prems show ?thesis by simp
  next
    case False
    with Cons.prems obtain m' where "month_day ls (n - l) = (m', d)" "m = Suc m'"
      by (auto split: prod.splits)
    moreover from this Cons.prems False Cons.IH [of "n - l" m']
    have "m' < length ls \<and> d < ls ! m' \<and> sum_list (take m' ls) + d = n - l" by auto
    ultimately show ?thesis using False by (simp, linarith)
  qed
qed

lemma month_day_sum: "m < length ls \<Longrightarrow> d < ls ! m \<Longrightarrow> month_day ls (sum_list (take m ls) + d) = (m, d)"
proof (induction ls arbitrary: m)
  case Nil
  then show ?case by simp
next
  case (Cons l ls)
  then show ?case by (cases m) auto
qed

lemma sum_take_lt: "m < length ls \<Longrightarrow> d < (ls ! m :: nat) \<Longrightarrow> sum_list (take m ls) + d < sum_list ls"
proof -
  assume "m < length ls" "d < ls ! m"
  then have "sum_list ls = sum_list (take m ls) + (ls ! m + sum_list (drop (Suc m) ls))"
    by (metis id_take_nth_drop sum_list.Cons sum_list.append)
  with \<open>d < ls ! m\<close> show ?thesis by simp
qed

lemma date_of_day_number:
  assumes "valid_date c"
  shows "date_of (day_number c) = c"
proof -
  let ?y = "dYear c" and ?m = "dMonth c - 1" and ?d = "dDay c - 1"
  have b: "?m < length (month_lengths ?y)" "?d < month_lengths ?y ! ?m"
    using assms by (auto simp: valid_date_def month_lengths_def)
  have "day_number c = year_start ?y + (sum_list (take ?m (month_lengths ?y)) + ?d)"
    by (simp add: day_number_def)
  moreover have "sum_list (take ?m (month_lengths ?y)) + ?d < (if is_leap ?y then 366 else 365)"
    using sum_take_lt [OF b] by (simp add: sum_month_lengths)
  ultimately have "year_of (day_number c) = ?y"
    by (intro year_of_unique) (simp_all add: year_start_Suc)
  with month_day_sum [OF b] show ?thesis
    using assms by (simp add: date_of_def day_number_def valid_date_def)
qed

lemma day_number_date_of: "day_number (date_of n) = n" "valid_date (date_of n)"
proof -
  obtain m d where md: "month_day (month_lengths (year_of n)) (n - year_start (year_of n)) = (m, d)"
    by fastforce
  have "n - year_start (year_of n) < sum_list (month_lengths (year_of n))"
    using year_of_spec [of n] by (simp add: sum_month_lengths year_start_Suc split: if_splits)
  from month_day_bounds [OF this md]
  have b: "m < length (month_lengths (year_of n))" "d < month_lengths (year_of n) ! m"
    "sum_list (take m (month_lengths (year_of n))) + d = n - year_start (year_of n)" by simp_all
  have "date_of n = \<lparr>dYear = year_of n, dMonth = Suc m, dDay = Suc d\<rparr>" by (simp add: date_of_def md)
  with b(2,3) year_of_spec(1) [of n] show "day_number (date_of n) = n" by (simp add: day_number_def)
  have "m < 12" using b(1) by (simp add: month_lengths_def)
  with b(2) \<open>date_of n = _\<close> show "valid_date (date_of n)" by (simp add: valid_date_def)
qed

section \<open>Writing an instant\<close>

definition ns_per_day :: int where "ns_per_day = 86400000000000"

definition epoch_day :: int where "epoch_day = 719528"

text \<open>Numbers padded with zeros to a width.\<close>

definition pad_nat :: "nat \<Rightarrow> nat \<Rightarrow> string" where
  "pad_nat w n = replicate (w - length (show_nat n)) CHR ''0'' @ show_nat n"

definition trim_zeros :: "string \<Rightarrow> string" where
  "trim_zeros s = rev (dropWhile (\<lambda>c. c = CHR ''0'') (rev s))"

definition fraction_text :: "nat \<Rightarrow> string" where
  "fraction_text ns = (if ns = 0 then [] else CHR ''.'' # trim_zeros (pad_nat 9 ns))"

definition clock_text :: "nat \<Rightarrow> string" where
  "clock_text secs = pad_nat 2 (secs div 3600) @ CHR '':'' # pad_nat 2 (secs div 60 mod 60)
     @ CHR '':'' # pad_nat 2 (secs mod 60)"

definition date_text :: "date \<Rightarrow> string" where
  "date_text c = pad_nat 4 (dYear c) @ CHR ''-'' # pad_nat 2 (dMonth c) @ CHR ''-'' # pad_nat 2 (dDay c)"

text \<open>\<^verbatim>\<open>t.UTC().Format(time.RFC3339Nano)\<close> for a year from 0 to 9999; \<^verbatim>\<open>MarshalJSON\<close> fails for
  other years.\<close>

definition rfc3339_nano :: "int \<Rightarrow> string option" where
  "rfc3339_nano t =
     (let day = t div ns_per_day + epoch_day; ns = nat (t mod ns_per_day) in
      if day < 0 then None
      else let c = date_of (nat day) in
        if 9999 < dYear c then None
        else Some (date_text c @ CHR ''T'' # clock_text (ns div 1000000000)
          @ fraction_text (ns mod 1000000000) @ ''Z''))"

section \<open>Reading an instant\<close>

text \<open>\<open>getnum\<close> reads two digits, or one when \<open>fixed\<close> is false and no second digit follows.\<close>

definition getnum :: "bool \<Rightarrow> string \<Rightarrow> (nat \<times> string) option" where
  "getnum fixed s =
     (case s of [] \<Rightarrow> None
      | a # r \<Rightarrow>
          if \<not> is_digit a then None
          else (case r of
              b # r' \<Rightarrow> if is_digit b then Some (10 * digit_value a + digit_value b, r')
                else if fixed then None else Some (digit_value a, r)
            | [] \<Rightarrow> if fixed then None else Some (digit_value a, [])))"

definition getyear :: "string \<Rightarrow> (nat \<times> string) option" where
  "getyear s = (if length s < 4 \<or> \<not> list_all is_digit (take 4 s) then None
     else Some (read_nat (take 4 s), drop 4 s))"

definition skip :: "char \<Rightarrow> string \<Rightarrow> string option" where
  "skip c s = (case s of [] \<Rightarrow> None | x # r \<Rightarrow> if x = c then Some r else None)"

definition getrange :: "bool \<Rightarrow> nat \<Rightarrow> nat \<Rightarrow> string \<Rightarrow> (nat \<times> string) option" where
  "getrange fixed lo hi s = (case getnum fixed s of
     Some (n, r) \<Rightarrow> if lo \<le> n \<and> n \<le> hi then Some (n, r) else None | None \<Rightarrow> None)"

definition get_date :: "string \<Rightarrow> (date \<times> string) option" where
  "get_date s =
     Option.bind (getyear s) (\<lambda>(y, s).
     Option.bind (skip CHR ''-'' s) (\<lambda>s.
     Option.bind (getrange True 1 12 s) (\<lambda>(m, s).
     Option.bind (skip CHR ''-'' s) (\<lambda>s.
     Option.bind (getnum True s) (\<lambda>(d, s).
     let c = \<lparr>dYear = y, dMonth = m, dDay = d\<rparr> in
     if valid_date c then Some (c, s) else None)))))"

definition get_clock :: "string \<Rightarrow> (nat \<times> string) option" where
  "get_clock s =
     Option.bind (getrange False 0 23 s) (\<lambda>(h, s).
     Option.bind (skip CHR '':'' s) (\<lambda>s.
     Option.bind (getrange True 0 59 s) (\<lambda>(m, s).
     Option.bind (skip CHR '':'' s) (\<lambda>s.
     Option.bind (getrange True 0 59 s) (\<lambda>(x, s). Some (3600 * h + 60 * m + x, s))))))"

text \<open>The nanoseconds of the first nine digits after the separator.\<close>

definition fraction_value :: "string \<Rightarrow> nat" where
  "fraction_value ds = (let t = take 9 ds in read_nat t * 10 ^ (9 - length t))"

definition get_fraction :: "string \<Rightarrow> nat \<times> string" where
  "get_fraction s =
     (case s of
        c # d # _ \<Rightarrow>
          if (c = CHR ''.'' \<or> c = CHR '','') \<and> is_digit d
          then (fraction_value (takeWhile is_digit (tl s)), dropWhile is_digit (tl s)) else (0, s)
      | _ \<Rightarrow> (0, s))"

text \<open>The offset east of UTC in seconds.\<close>

definition get_zone :: "string \<Rightarrow> (int \<times> string) option" where
  "get_zone s =
     (case s of [] \<Rightarrow> None
      | c # r \<Rightarrow>
          if c = CHR ''Z'' then Some (0, r)
          else if length s < 6 \<or> s ! 3 \<noteq> CHR '':'' then None
          else
            Option.bind (getrange True 0 24 (take 2 r)) (\<lambda>(h, _).
            Option.bind (getrange True 0 60 (take 2 (drop 3 r))) (\<lambda>(m, _).
            if c = CHR ''+'' then Some (int (3600 * h + 60 * m), drop 6 s)
            else if c = CHR ''-'' then Some (- int (3600 * h + 60 * m), drop 6 s)
            else None)))"

definition time_Parse :: "string \<Rightarrow> int option" where
  "time_Parse s =
     Option.bind (get_date s) (\<lambda>(c, s).
     Option.bind (skip CHR ''T'' s) (\<lambda>s.
     Option.bind (get_clock s) (\<lambda>(secs, s).
     case get_fraction s of (ns, s) \<Rightarrow>
     Option.bind (get_zone s) (\<lambda>(offset, s).
     if s \<noteq> [] then None
     else Some ((int (day_number c) - epoch_day) * ns_per_day + (int secs - offset) * 1000000000 + int ns)))))"

section \<open>What is written is read back\<close>

lemma pad_nat_digits: "list_all is_digit (pad_nat w n)"
proof -
  have "is_digit CHR ''0''" by (simp add: is_digit_def)
  then show ?thesis using show_nat_digits [of n] by (auto simp: pad_nat_def list_all_iff)
qed

lemma read_nat_zeros: "read_nat (replicate k CHR ''0'' @ s) = read_nat s"
proof -
  have "foldl (\<lambda>n c. 10 * n + digit_value c) 0 (replicate k CHR ''0'') = 0"
    by (induction k) (simp_all add: digit_value_def)
  then show ?thesis by (simp add: read_nat_def)
qed

lemma read_pad_nat: "read_nat (pad_nat w n) = n"
  by (simp add: pad_nat_def read_nat_zeros)

lemma length_pad_nat: "n < 10 ^ w \<Longrightarrow> 0 < w \<Longrightarrow> length (pad_nat w n) = w"
  using length_show_nat [of n w] by (simp add: pad_nat_def)

lemma getyear_pad: "y < 10000 \<Longrightarrow> getyear (pad_nat 4 y @ r) = Some (y, r)"
  using length_pad_nat [of y 4] pad_nat_digits [of 4 y] by (simp add: getyear_def read_pad_nat)

lemma getnum_pad: "n < 100 \<Longrightarrow> getnum b (pad_nat 2 n @ r) = Some (n, r)"
proof -
  assume n: "n < 100"
  then have "length (pad_nat 2 n) = 2" using length_pad_nat [of n 2] by simp
  then obtain a c where p: "pad_nat 2 n = [a, c]"
    by (auto simp: length_Suc_conv numeral_2_eq_2)
  moreover have "is_digit a" "is_digit c" using pad_nat_digits [of 2 n] by (simp_all add: p)
  moreover have "10 * digit_value a + digit_value c = n"
    using read_pad_nat [of 2 n] read_nat_snoc [of "[a]" c] read_nat_snoc [of "[]" a] by (simp add: p)
  ultimately show ?thesis by (simp add: getnum_def)
qed

lemma getrange_pad: "n < 100 \<Longrightarrow> lo \<le> n \<Longrightarrow> n \<le> hi \<Longrightarrow> getrange b lo hi (pad_nat 2 n @ r) = Some (n, r)"
  by (simp add: getrange_def getnum_pad)

lemma skip_Cons [simp]: "skip c (c # r) = Some r"
  by (simp add: skip_def)

lemma month_length_bound: "m < 12 \<Longrightarrow> month_lengths y ! m \<le> 31"
proof -
  have "list_all (\<lambda>l. l \<le> 31) (month_lengths y)" by (simp add: month_lengths_def)
  moreover assume "m < 12"
  ultimately show ?thesis by (simp add: list_all_length month_lengths_def)
qed

lemma get_date_text: "valid_date c \<Longrightarrow> dYear c < 10000 \<Longrightarrow> get_date (date_text c @ r) = Some (c, r)"
proof -
  assume v: "valid_date c" and y: "dYear c < 10000"
  have "dMonth c - 1 < 12" using v by (auto simp: valid_date_def)
  from month_length_bound [OF this, of "dYear c"] have "dDay c < 100" using v by (simp add: valid_date_def)
  moreover have "dMonth c < 100" "1 \<le> dMonth c" "dMonth c \<le> 12" using v by (auto simp: valid_date_def)
  moreover have "valid_date \<lparr>dYear = dYear c, dMonth = dMonth c, dDay = dDay c\<rparr>" using v by (simp add: valid_date_def)
  ultimately show ?thesis
    using y by (simp add: get_date_def date_text_def getyear_pad getrange_pad getnum_pad Let_def)
qed

lemma get_clock_text: "secs < 86400 \<Longrightarrow> get_clock (clock_text secs @ r) = Some (secs, r)"
proof -
  assume "secs < 86400"
  then have "secs div 3600 \<le> 23" using less_mult_imp_div_less [of secs 24 3600] by simp
  moreover have "secs div 60 mod 60 \<le> 59" "secs mod 60 \<le> 59" by (simp_all add: Suc_le_eq less_Suc_eq_le [symmetric])
  moreover have "3600 * (secs div 3600) + 60 * (secs div 60 mod 60) + secs mod 60 = secs"
  proof -
    have "secs div 3600 = secs div 60 div 60" using div_mult2_eq [of secs 60 60] by simp
    moreover have "60 * (secs div 60) + secs mod 60 = secs" by (rule mult_div_mod_eq)
    moreover have "60 * (secs div 60 div 60) + secs div 60 mod 60 = secs div 60" by (rule mult_div_mod_eq)
    ultimately show ?thesis by linarith
  qed
  ultimately show ?thesis
    by (simp add: get_clock_def clock_text_def getrange_pad)
qed

lemma read_nat_trailing: "read_nat (p @ replicate k CHR ''0'') = read_nat p * 10 ^ k"
proof (induction k)
  case 0
  then show ?case by simp
next
  case (Suc k)
  have "read_nat ((p @ replicate k CHR ''0'') @ [CHR ''0'']) = 10 * read_nat (p @ replicate k CHR ''0'')"
    by (simp only: read_nat_snoc) (simp add: digit_value_def)
  with Suc show ?case by (simp add: replicate_append_same [symmetric])
qed

lemma trim_zeros_split: "\<exists>k. s = trim_zeros s @ replicate k CHR ''0''"
proof -
  let ?z = "takeWhile (\<lambda>c. c = CHR ''0'') (rev s)"
  have "?z = replicate (length ?z) CHR ''0''"
    by (rule replicate_eqI) (auto dest: set_takeWhileD)
  then have "rev ?z = replicate (length ?z) CHR ''0''" by (metis rev_replicate)
  moreover have "s = trim_zeros s @ rev ?z"
    unfolding trim_zeros_def by (metis rev_append rev_rev_ident takeWhile_dropWhile_id)
  ultimately show ?thesis by metis
qed

lemma trim_zeros_pad:
  assumes "n < 10 ^ w" "0 < n"
  obtains p where "trim_zeros (pad_nat w n) = p" "p \<noteq> []" "list_all is_digit p" "length p \<le> w"
    "read_nat p * 10 ^ (w - length p) = n"
proof -
  let ?p = "trim_zeros (pad_nat w n)"
  obtain k where k: "pad_nat w n = ?p @ replicate k CHR ''0''" using trim_zeros_split by blast
  have w: "0 < w" using assms by (cases w) auto
  have len: "length ?p + k = w" using length_pad_nat [OF assms(1) w] arg_cong [OF k, of length] by simp
  have val: "read_nat ?p * 10 ^ k = n"
    using read_pad_nat [of w n] read_nat_trailing [of ?p k] arg_cong [OF k, of read_nat] by simp
  have "list_all is_digit ?p"
    using pad_nat_digits [of w n] by (subst (asm) k) simp
  moreover have "?p \<noteq> []" using val assms(2) by auto
  moreover have "k = w - length ?p" using len by simp
  ultimately show ?thesis using that val len by simp
qed

lemma get_fraction_text: "ns < 1000000000 \<Longrightarrow> get_fraction (fraction_text ns @ CHR ''Z'' # r) = (ns, CHR ''Z'' # r)"
proof (cases "ns = 0")
  case True
  then show ?thesis by (simp add: fraction_text_def get_fraction_def split: list.splits)
next
  case False
  assume "ns < 1000000000"
  then have "ns < 10 ^ 9" "0 < ns" using False by simp_all
  then obtain p where p: "trim_zeros (pad_nat 9 ns) = p" "p \<noteq> []" "list_all is_digit p" "length p \<le> 9"
    "read_nat p * 10 ^ (9 - length p) = ns" by (rule trim_zeros_pad)
  have z: "\<not> is_digit CHR ''Z''" by (simp add: is_digit_def)
  have "takeWhile is_digit (p @ CHR ''Z'' # r) = p" "dropWhile is_digit (p @ CHR ''Z'' # r) = CHR ''Z'' # r"
    using p(3) z by (simp_all add: takeWhile_append2 dropWhile_append2 list_all_iff takeWhile_append dropWhile_append)
  with p False show ?thesis
    by (cases p) (simp_all add: fraction_text_def get_fraction_def fraction_value_def)
qed

lemma time_Parse_rfc3339: "rfc3339_nano t = Some s \<Longrightarrow> time_Parse s = Some t"
proof -
  assume r: "rfc3339_nano t = Some s"
  define day ns c where "day = t div ns_per_day + epoch_day" and "ns = nat (t mod ns_per_day)" and "c = date_of (nat day)"
  have pos: "0 < ns_per_day" by (simp add: ns_per_day_def)
  from r have day: "0 \<le> day" and y: "dYear c < 10000"
    and s: "s = date_text c @ CHR ''T'' # clock_text (ns div 1000000000) @ fraction_text (ns mod 1000000000) @ ''Z''"
    unfolding rfc3339_nano_def Let_def day_def [symmetric] ns_def [symmetric] c_def [symmetric]
    by (auto split: if_splits)
  have ns: "int ns = t mod ns_per_day" using pos by (simp add: ns_def)
  have "t mod ns_per_day < ns_per_day" using pos by simp
  then have "ns < 86400 * 1000000000" unfolding ns_def ns_per_day_def by simp
  then have secs: "ns div 1000000000 < 86400" by (rule less_mult_imp_div_less)
  have date: "get_date (date_text c @ x) = Some (c, x)" for x
    using y day_number_date_of by (intro get_date_text) (simp_all add: c_def)
  have num: "int (day_number c) - epoch_day = t div ns_per_day"
    using day by (simp add: c_def day_number_date_of) (simp add: day_def)
  have split: "int (ns div 1000000000) * 1000000000 + int (ns mod 1000000000) = t mod ns_per_day"
    unfolding ns [symmetric] by (metis div_mult_mod_eq of_nat_add of_nat_mult of_nat_numeral)
  have "time_Parse s = Some ((int (day_number c) - epoch_day) * ns_per_day
      + int (ns div 1000000000) * 1000000000 + int (ns mod 1000000000))"
    unfolding time_Parse_def s by (simp add: date get_clock_text [OF secs] get_fraction_text get_zone_def)
  also have "\<dots> = Some (t div ns_per_day * ns_per_day + t mod ns_per_day)"
    unfolding num using split by (simp add: add.assoc)
  finally show ?thesis by simp
qed

end
