(* ===== verification/Sqs_Consumer.thy ===== *)
theory Sqs_Consumer
  imports Inbox Backoff Go_Json_Decode Go_Time
begin

text \<open>
  \<^verbatim>\<open>internal/infrastructure/messaging/sqs/consumer.go\<close>: receiving, decoding, processing and
  acknowledging one batch of commands. The queue is third-party: what \<^verbatim>\<open>ReceiveMessage\<close>
  delivers and whether \<^verbatim>\<open>DeleteMessage\<close> fails are parameters, the calls that change the queue
  are returned as a list of actions. The two contexts are parameters as well: the error each reports at
  the moments the code asks. The processor is an argument, as in the code's interface
  \<^verbatim>\<open>MessageProcessor\<close>; its state stands for the database. Logging is not modelled.
\<close>

section \<open>Messages\<close>

record sqs_message =
  msgMessageId :: "string option"
  msgReceiptHandle :: "string option"
  msgBody :: "string option"
  msgAttributes :: "string \<Rightarrow> string"

record MoneyDTO =
  dtoAmount :: string
  dtoCurrency :: string

record WagerCommandData =
  wdIdempotencyKey :: string
  wdProviderID :: string
  wdExternalTransactionID :: string
  wdPlayerID :: string
  wdWalletID :: string
  wdRoundID :: string
  wdGameID :: string
  wdKind :: string
  wdMoney :: MoneyDTO
  wdReferenceExternalTransactionID :: string

record CommandMessage =
  cmMessageID :: string
  cmType :: string
  cmOccurredAt :: string
  cmData :: WagerCommandData

record decodedCommand =
  dcMessage :: CommandMessage
  dcMoney :: Money

definition zero_MoneyDTO :: MoneyDTO where
  "zero_MoneyDTO = \<lparr>dtoAmount = [], dtoCurrency = []\<rparr>"

definition zero_WagerCommandData :: WagerCommandData where
  "zero_WagerCommandData =
     \<lparr>wdIdempotencyKey = [], wdProviderID = [], wdExternalTransactionID = [], wdPlayerID = [], wdWalletID = [],
      wdRoundID = [], wdGameID = [], wdKind = [], wdMoney = zero_MoneyDTO, wdReferenceExternalTransactionID = []\<rparr>"

definition zero_CommandMessage :: CommandMessage where
  "zero_CommandMessage = \<lparr>cmMessageID = [], cmType = [], cmOccurredAt = [], cmData = zero_WagerCommandData\<rparr>"

definition money_fields :: "(string \<times> MoneyDTO decoder) list" where
  "money_fields = [(''amount'', string_field dtoAmount_update), (''currency'', string_field dtoCurrency_update)]"

definition data_fields :: "(string \<times> WagerCommandData decoder) list" where
  "data_fields =
     [(''idempotencyKey'', string_field wdIdempotencyKey_update),
      (''providerId'', string_field wdProviderID_update),
      (''externalTransactionId'', string_field wdExternalTransactionID_update),
      (''playerId'', string_field wdPlayerID_update),
      (''walletId'', string_field wdWalletID_update),
      (''roundId'', string_field wdRoundID_update),
      (''gameId'', string_field wdGameID_update),
      (''kind'', string_field wdKind_update),
      (''money'', struct_field wdMoney wdMoney_update (struct False money_fields)),
      (''referenceExternalTransactionId'', string_field wdReferenceExternalTransactionID_update)]"

definition message_fields :: "(string \<times> CommandMessage decoder) list" where
  "message_fields =
     [(''messageId'', string_field cmMessageID_update),
      (''type'', string_field cmType_update),
      (''occurredAt'', string_field cmOccurredAt_update),
      (''data'', struct_field cmData cmData_update (struct False data_fields))]"

section \<open>Decoding\<close>

definition wagerTransactionRequestedType :: string where
  "wagerTransactionRequestedType = ''WagerTransactionRequested''"

text \<open>The checks of \<open>decodeCommand\<close> in their order: the condition of an error and its text.\<close>

definition command_checks :: "CommandMessage \<Rightarrow> (bool \<times> string) list" where
  "command_checks message =
     (let data = cmData message; money = wdMoney data in
      [(cmMessageID message = [], ''messageId is required''),
       (cmType message = [], ''type is required''),
       (cmType message \<noteq> wagerTransactionRequestedType, ''unsupported message type: '' @ cmType message),
       (cmOccurredAt message = [], ''occurredAt is required''),
       (time_Parse (cmOccurredAt message) = None, ''occurredAt must be RFC3339''),
       (wdProviderID data = [], ''providerId is required''),
       (wdExternalTransactionID data = [], ''externalTransactionId is required''),
       (wdIdempotencyKey data = [], ''idempotencyKey is required''),
       (wdPlayerID data = [], ''playerId is required''),
       (wdWalletID data = [], ''walletId is required''),
       (wdRoundID data = [], ''roundId is required''),
       (wdGameID data = [], ''gameId is required''),
       (wdKind data = [], ''kind is required''),
       (dtoAmount money = [], ''money.amount is required''),
       (dtoCurrency money = [], ''money.currency is required''),
       (dtoCurrency money \<noteq> BRL, ''unsupported currency: '' @ dtoCurrency money)])"

definition decodeCommand :: "string \<Rightarrow> decodedCommand result" where
  "decodeCommand payload =
     (case Unmarshal message_fields payload zero_CommandMessage of
        None \<Rightarrow> Inl (Wrapped ''unmarshal command'' (PlainError ''invalid JSON''))
      | Some message \<Rightarrow>
          (case List.find fst (command_checks message) of
             Some (_, text) \<Rightarrow> Inl (PlainError text)
           | None \<Rightarrow>
               (case ParseMoney (dtoAmount (wdMoney (cmData message))) (dtoCurrency (wdMoney (cmData message))) of
                  Inl err \<Rightarrow> Inl (Wrapped ''parse amount'' err)
                | Inr money \<Rightarrow> Inr \<lparr>dcMessage = message, dcMoney = money\<rparr>)))"

text \<open>\<^verbatim>\<open>strconv.Atoi\<close> of the attribute \<^verbatim>\<open>ApproximateReceiveCount\<close>.\<close>

definition approximateReceiveCount :: "sqs_message \<Rightarrow> int" where
  "approximateReceiveCount message =
     (case ParseInt (msgAttributes message ''ApproximateReceiveCount'') of
        Inl _ \<Rightarrow> 1
      | Inr receiveCount \<Rightarrow> if sint receiveCount < 1 then 1 else sint receiveCount)"

text \<open>The name a message has in the log.\<close>

definition messageIdentifier :: "sqs_message \<Rightarrow> string" where
  "messageIdentifier message =
     (let fallback = (case msgMessageId message of Some i \<Rightarrow> i | None \<Rightarrow> ''unknown'') in
      case msgBody message of
        None \<Rightarrow> fallback
      | Some body \<Rightarrow>
          (case Unmarshal [(''messageId'', string_field id)] body [] of
             Some i \<Rightarrow> if i \<noteq> [] then i else fallback | None \<Rightarrow> fallback))"

section \<open>Processing one message\<close>

datatype sqs_action = DeleteMessage string | ChangeMessageVisibility string int32

type_synonym ('e, 's) processor =
  "'e \<Rightarrow> MessageProcessCommand \<Rightarrow> 's \<Rightarrow> Metrics \<Rightarrow> MessageProcessResult result \<times> 's \<times> Metrics"

definition defaultConsumerName :: string where
  "defaultConsumerName = ''wager-transactions''"

definition consumer_command :: "string \<Rightarrow> decodedCommand \<Rightarrow> MessageProcessCommand" where
  "consumer_command rawPayload command =
     (let message = dcMessage command; data = cmData message in
      \<lparr>mpConsumerName = defaultConsumerName, mpMessageID = cmMessageID message, mpRawPayload = rawPayload,
       mpCommand =
         \<lparr>cmdIdempotencyKey = wdIdempotencyKey data, cmdCorrelationID = cmMessageID message,
          cmdCausationID = cmMessageID message,
          cmdRequest =
            \<lparr>reqProviderID = wdProviderID data, reqExternalTransactionID = wdExternalTransactionID data,
             reqPlayerID = wdPlayerID data, reqWalletID = wdWalletID data, reqRoundID = wdRoundID data,
             reqGameID = wdGameID data, reqKind = wdKind data, reqAmount = dcMoney command,
             reqReferenceExternalTransactionID = wdReferenceExternalTransactionID data\<rparr>\<rparr>\<rparr>)"

text \<open>\<open>delete\<close> is the error \<^verbatim>\<open>DeleteMessage\<close> returns for a receipt handle, if any. The first
  component of the result says whether the processor succeeded.\<close>

definition processMessage ::
  "('e, 's) processor \<Rightarrow> (string \<Rightarrow> error option) \<Rightarrow> 'e \<Rightarrow> sqs_message \<Rightarrow> 's \<Rightarrow> Metrics
   \<Rightarrow> (bool \<times> error option) \<times> sqs_action list \<times> 's \<times> Metrics" where
  "processMessage process delete e message s m =
     (case (msgBody message, msgReceiptHandle message) of
        (None, _) \<Rightarrow> ((False, Some (PlainError ''SQS message body is required'')), [], s, m)
      | (Some _, None) \<Rightarrow> ((False, Some (PlainError ''SQS receipt handle is required'')), [], s, m)
      | (Some rawPayload, Some handle) \<Rightarrow>
          (case decodeCommand rawPayload of
             Inl err \<Rightarrow> ((False, Some (Wrapped ''decode SQS command'' err)), [], s, m)
           | Inr command \<Rightarrow>
               (case process e (consumer_command rawPayload command) s m of
                  (Inl err, s', m') \<Rightarrow>
                    ((False, Some (Wrapped (''process SQS command '' @ cmMessageID (dcMessage command)) err)), [], s', m')
                | (Inr _, s', m') \<Rightarrow>
                    (case delete handle of
                       Some err \<Rightarrow>
                         ((True, Some (Wrapped (''delete SQS command '' @ cmMessageID (dcMessage command)) err)),
                          [DeleteMessage handle], s', m')
                     | None \<Rightarrow> ((True, None), [DeleteMessage handle], s', m')))))"

section \<open>Consuming a batch\<close>

definition releaseForShutdown :: "sqs_message \<Rightarrow> sqs_action list" where
  "releaseForShutdown message =
     (case msgReceiptHandle message of None \<Rightarrow> [] | Some handle \<Rightarrow> [ChangeMessageVisibility handle 0])"

definition consumer_scheduleRetry :: "sqs_message \<Rightarrow> sqs_action list" where
  "consumer_scheduleRetry message =
     (case msgReceiptHandle message of
        None \<Rightarrow> []
      | Some handle \<Rightarrow> [ChangeMessageVisibility handle (retryVisibility (approximateReceiveCount message))])"

definition recordRetry :: "sqs_message \<Rightarrow> Metrics \<Rightarrow> Metrics" where
  "recordRetry message m = (if 1 < approximateReceiveCount message then IncSQSRetries m else m)"

text \<open>When the code asks a context for its error: after receiving, before and after the message
  at a position of the batch.\<close>

datatype moment = AfterReceive | BeforeMessage nat | AfterMessage nat

record contexts =
  receiveErr :: "moment \<Rightarrow> error option"
  processingErr :: "moment \<Rightarrow> error option"

text \<open>What follows a failed message: no retry is scheduled for a committed one while stopping; an
  uncommitted one is released at once while stopping.\<close>

definition after_failure :: "contexts \<Rightarrow> nat \<Rightarrow> bool \<Rightarrow> sqs_message \<Rightarrow> sqs_action list" where
  "after_failure ctx i processorSucceeded message =
     (if processorSucceeded then
        (if receiveErr ctx (AfterMessage i) = None \<and> processingErr ctx (AfterMessage i) = None
         then consumer_scheduleRetry message else [])
      else if receiveErr ctx (AfterMessage i) \<noteq> None then releaseForShutdown message
      else if processingErr ctx (AfterMessage i) = None then consumer_scheduleRetry message
      else [])"

type_synonym 's consumed = "(nat \<times> error option) \<times> sqs_action list \<times> 's \<times> Metrics"

fun consume_messages ::
  "('e, 's) processor \<Rightarrow> (string \<Rightarrow> error option) \<Rightarrow> contexts \<Rightarrow> (nat \<Rightarrow> 'e) \<Rightarrow> nat \<Rightarrow> sqs_message list
   \<Rightarrow> 's \<Rightarrow> Metrics \<Rightarrow> 's consumed" where
  "consume_messages process delete ctx es i [] s m = ((i, None), [], s, m)"
| "consume_messages process delete ctx es i (message # messages) s m =
     (let m1 = recordRetry message m in
      case receiveErr ctx (BeforeMessage i) of
        Some err \<Rightarrow> ((i, Some err), releaseForShutdown message, s, m1)
      | None \<Rightarrow>
          (case processMessage process delete (es i) message s m1 of
             ((processorSucceeded, Some err), acts, s', m') \<Rightarrow>
               ((i, Some err), acts @ after_failure ctx i processorSucceeded message, s', m')
           | ((_, None), acts, s', m') \<Rightarrow>
               (case consume_messages process delete ctx es (Suc i) messages s' m' of
                  (r, acts', s'', m'') \<Rightarrow> (r, acts @ acts', s'', m''))))"

text \<open>The count and error of \<^verbatim>\<open>ConsumeOnceWithContexts\<close>, the actions, and the state afterwards.
  The position in the batch is the number of messages processed.\<close>

definition ConsumeOnceWithContexts ::
  "('e, 's) processor \<Rightarrow> error + sqs_message list \<Rightarrow> (string \<Rightarrow> error option) \<Rightarrow> contexts \<Rightarrow> (nat \<Rightarrow> 'e)
   \<Rightarrow> 's \<Rightarrow> Metrics \<Rightarrow> 's consumed" where
  "ConsumeOnceWithContexts process received delete ctx es s m =
     (case received of
        Inl err \<Rightarrow> ((0, Some (Wrapped ''receive SQS messages'' err)), [], s, m)
      | Inr messages \<Rightarrow>
          (case receiveErr ctx AfterReceive of
             Some err \<Rightarrow> ((0, Some err), concat (map releaseForShutdown messages), s, m)
           | None \<Rightarrow> consume_messages process delete ctx es 0 messages s m))"

text \<open>\<open>err\<close> is what the one context says at each moment.\<close>

definition ConsumeOnce ::
  "('e, 's) processor \<Rightarrow> error + sqs_message list \<Rightarrow> (string \<Rightarrow> error option) \<Rightarrow> (moment \<Rightarrow> error option)
   \<Rightarrow> (nat \<Rightarrow> 'e) \<Rightarrow> 's \<Rightarrow> Metrics \<Rightarrow> 's consumed" where
  "ConsumeOnce process received delete err =
     ConsumeOnceWithContexts process received delete \<lparr>receiveErr = err, processingErr = err\<rparr>"

end
