(* ===== verification/Outbox.thy ===== *)
theory Outbox
  imports Backoff
begin

text \<open>
  \<^verbatim>\<open>internal/infrastructure/messaging/outbox\<close>: one batch of the outbox publisher. Pending
  events that are due are handed to the \<^verbatim>\<open>MessagePublisher\<close>, here the argument \<open>publish\<close>
  (the error it returns for an event, if any); each is then marked published or given a
  later attempt, and the batch commits.
\<close>

record Event =
  evID :: uuid
  evAggregateID :: uuid
  evEventType :: string
  evPayload :: eventEnvelope
  evOccurredAt :: time
  evAttempts :: int

definition defaultBatchSize :: nat where "defaultBatchSize = 10"

definition outbox_pending :: "env \<Rightarrow> outbox_row \<Rightarrow> bool" where
  "outbox_pending E r \<longleftrightarrow> o_published_at r = None \<and> o_next_attempt_at r \<le> db_now E"

definition scan_event :: "outbox_row \<Rightarrow> Event" where
  "scan_event r =
     \<lparr>evID = o_id r, evAggregateID = o_aggregate_id r, evEventType = o_event_type r,
      evPayload = o_payload r, evOccurredAt = o_occurred_at r, evAttempts = o_attempts r\<rparr>"

text \<open>ORDER BY occurred_at LIMIT n FOR UPDATE SKIP LOCKED: locked rows are passed over before
  the limit applies.\<close>

definition pending_rows :: "env \<Rightarrow> nat \<Rightarrow> database \<Rightarrow> outbox_row list" where
  "pending_rows E limit d =
     take limit (sort_key o_occurred_at
       (filter (\<lambda>r. outbox_pending E r \<and> \<not> row_locked E (o_id r)) (outbox_events d)))"

definition findPending :: "nat \<Rightarrow> Event list tx" where
  "findPending limit =
     tx_map_err (Wrapped ''query pending outbox events'')
       (sql_read (\<lambda>E d. Inr (map scan_event (pending_rows E limit d))))"

definition unpublished :: "uuid \<Rightarrow> outbox_row \<Rightarrow> bool" where
  "unpublished i r \<longleftrightarrow> o_id r = i \<and> o_published_at r = None"

definition exec_update_outbox ::
  "string \<Rightarrow> string \<Rightarrow> uuid \<Rightarrow> (env \<Rightarrow> outbox_row \<Rightarrow> outbox_row) \<Rightarrow> unit tx" where
  "exec_update_outbox context not_one i f =
     tx_bind (tx_map_err (Wrapped context)
        (sql (\<lambda>E d. Inr (update_outbox (unpublished i) (f E) d)))) (\<lambda>rowsAffected.
     if rowsAffected \<noteq> 1 then tx_fail (PlainError not_one) else tx_return ())"

definition mark_row :: "env \<Rightarrow> outbox_row \<Rightarrow> outbox_row" where
  "mark_row E r = r\<lparr>o_published_at := Some (db_now E)\<rparr>"

definition markPublished :: "uuid \<Rightarrow> unit tx" where
  "markPublished eventID =
     exec_update_outbox ''mark outbox event published'' ''expected to mark one outbox event published''
       eventID mark_row"

definition retry_row :: "duration \<Rightarrow> env \<Rightarrow> outbox_row \<Rightarrow> outbox_row" where
  "retry_row delay E r =
     r\<lparr>o_attempts := o_attempts r + 1, o_next_attempt_at := db_now E + (delay div Second) * Second\<rparr>"

definition scheduleRetry :: "Event \<Rightarrow> unit tx" where
  "scheduleRetry event =
     (let delay = retryDelay (evAttempts event + 1) in
      exec_update_outbox ''schedule outbox retry'' ''expected to schedule one outbox event retry''
        (evID event) (retry_row delay))"

text \<open>The loop of \<^verbatim>\<open>PublishBatch\<close>: the published events and the number of retries so far.\<close>

fun publish_loop ::
  "(Event \<Rightarrow> error option) \<Rightarrow> Event list \<Rightarrow> Event list \<Rightarrow> nat \<Rightarrow> (Event list \<times> nat) tx" where
  "publish_loop publish [] publishedEvents retried = tx_return (publishedEvents, retried)"
| "publish_loop publish (event # events) publishedEvents retried =
     (case publish event of
        Some _ \<Rightarrow>
          tx_bind (scheduleRetry event) (\<lambda>_. publish_loop publish events publishedEvents (Suc retried))
      | None \<Rightarrow>
          tx_bind (markPublished (evID event)) (\<lambda>_.
          publish_loop publish events (publishedEvents @ [event]) retried))"

definition batch_tx :: "(Event \<Rightarrow> error option) \<Rightarrow> (Event list \<times> nat) tx" where
  "batch_tx publish = tx_bind (findPending defaultBatchSize) (\<lambda>events. publish_loop publish events [] 0)"

definition batch_metrics :: "time \<Rightarrow> Event list \<times> nat \<Rightarrow> Metrics \<Rightarrow> Metrics" where
  "batch_metrics now r m =
     fold (\<lambda>event. ObserveOutboxPublishedDelay (now - evOccurredAt event)) (fst r)
       ((IncOutboxRetries ^^ snd r) m)"

text \<open>The count returned beside an error is not used by the caller.\<close>

definition PublishBatch ::
  "env \<Rightarrow> (Event \<Rightarrow> error option) \<Rightarrow> database \<Rightarrow> Metrics \<Rightarrow> nat result \<times> database \<times> Metrics" where
  "PublishBatch E publish d m =
     (case run_tx E ''begin outbox transaction'' (\<lambda>_. Some ''commit outbox transaction'')
             (batch_tx publish) (start_world d) of
        (Inl e, d') \<Rightarrow> (Inl e, d', m)
      | (Inr r, d') \<Rightarrow> (Inr (length (fst r)), d', batch_metrics (time_now E 0) r m))"

end
