(* ===== verification/Wagering_Resolver.thy ===== *)
theory Wagering_Resolver
  imports Backoff
begin

text \<open>
  \<^verbatim>\<open>internal/application/wagering/pending_reference_resolver.go\<close>: one pass of the resolver
  over the oldest due PENDING_REFERENCE transaction, which it expires, reschedules, rejects
  or processes. \<open>resolve_tx\<close> is the transaction of \<^verbatim>\<open>ResolveOne\<close>, its result the branch taken
  with the text of the commit that ends it.
\<close>

record pendingReferenceTransaction =
  pnID :: uuid
  pnRequest :: WagerRequest
  pnReferenceAttempts :: int
  pnReferenceExpiresAt :: "time option"
  pnCorrelationID :: string
  pnCausationID :: string

section \<open>Queries and updates\<close>

definition is_due :: "env \<Rightarrow> wager_row \<Rightarrow> bool" where
  "is_due E r \<longleftrightarrow>
     t_state r = WagerStatePendingReference
     \<and> (case t_reference_next_attempt_at r of None \<Rightarrow> True | Some t \<Rightarrow> t \<le> db_now E)"

definition scan_null :: error where
  "scan_null = PlainError ''cannot scan NULL''"

definition scan_pending :: "env \<Rightarrow> wager_row \<Rightarrow> pendingReferenceTransaction result" where
  "scan_pending E r =
     (case (t_provider_id r, t_external_transaction_id r, t_reference_external_transaction_id r) of
        (Some provider, Some external, Some reference) \<Rightarrow>
          Inr \<lparr>pnID = t_id r,
               pnRequest =
                 \<lparr>reqProviderID = provider, reqExternalTransactionID = external,
                  reqPlayerID = t_player_id r, reqWalletID = uuid_String E (t_wallet_id r),
                  reqRoundID = coalesce (t_round_id r), reqGameID = coalesce (t_game_id r),
                  reqKind = t_kind r, reqAmount = NewMoney (t_amount r) (t_currency r),
                  reqReferenceExternalTransactionID = reference\<rparr>,
               pnReferenceAttempts = t_reference_attempts r,
               pnReferenceExpiresAt = t_reference_expires_at r,
               pnCorrelationID = coalesce (t_correlation_id r),
               pnCausationID = coalesce (t_causation_id r)\<rparr>
      | _ \<Rightarrow> Inl scan_null)"

text \<open>ORDER BY created_at, the rows other transactions hold skipped, LIMIT 1.\<close>

definition due_row :: "env \<Rightarrow> database \<Rightarrow> wager_row option" where
  "due_row E d =
     (case sort_key t_created_at
        (filter (\<lambda>r. is_due E r \<and> \<not> row_locked E (t_id r)) (wager_transactions d)) of
        [] \<Rightarrow> None
      | r # _ \<Rightarrow> Some r)"

definition findDuePendingReference :: "pendingReferenceTransaction option tx" where
  "findDuePendingReference =
     tx_map_err (Wrapped ''find due pending reference'')
       (sql_read (\<lambda>E d. case due_row E d of
          None \<Rightarrow> Inr None
        | Some r \<Rightarrow> res_bind (scan_pending E r) (\<lambda>p. Inr (Some p))))"

text \<open>An UPDATE of the pending row that must affect exactly one row.\<close>

definition exec_update_pending :: "string \<Rightarrow> string \<Rightarrow> uuid \<Rightarrow> (wager_row \<Rightarrow> wager_row) \<Rightarrow> unit tx" where
  "exec_update_pending context not_one i f =
     tx_bind (tx_map_err (Wrapped context) (sql (\<lambda>_ d. update_pending i f d))) (\<lambda>rowsAffected.
     if rowsAffected \<noteq> 1 then tx_fail (PlainError not_one) else tx_return ())"

definition reschedule_row :: "int \<Rightarrow> time \<Rightarrow> time \<Rightarrow> wager_row \<Rightarrow> wager_row" where
  "reschedule_row attempts next now r =
     r\<lparr>t_reference_attempts := attempts, t_reference_next_attempt_at := Some next, t_updated_at := now\<rparr>"

definition schedulePendingReferenceRetry :: "pendingReferenceTransaction \<Rightarrow> time \<Rightarrow> unit tx" where
  "schedulePendingReferenceRetry pending now =
     (let nextAttempts = pnReferenceAttempts pending + 1;
          nextAttemptAt0 = now + referenceRetryBackoff nextAttempts;
          nextAttemptAt = (case pnReferenceExpiresAt pending of
             None \<Rightarrow> nextAttemptAt0
           | Some expiresAt \<Rightarrow> if expiresAt < nextAttemptAt0 then expiresAt else nextAttemptAt0)
      in exec_update_pending ''schedule pending reference retry''
           ''pending reference was not scheduled for retry'' (pnID pending)
           (reschedule_row nextAttempts nextAttemptAt now))"

definition reject_row :: "string \<Rightarrow> int64 \<Rightarrow> uuid option \<Rightarrow> time \<Rightarrow> wager_row \<Rightarrow> wager_row" where
  "reject_row failureCode balance referenced now r =
     r\<lparr>t_state := WagerStateRejected, t_failure_code := Some failureCode,
       t_result_balance := Some balance, t_referenced_transaction_id := referenced,
       t_reference_next_attempt_at := None, t_updated_at := now\<rparr>"

definition rejectPendingReference ::
  "pendingReferenceTransaction \<Rightarrow> Wallet \<Rightarrow> string \<Rightarrow> time \<Rightarrow> uuid option \<Rightarrow> unit tx" where
  "rejectPendingReference pending wallet failureCode now referencedTransactionID =
     tx_bind (exec_update_pending ''reject pending reference'' ''pending reference was not rejected''
        (pnID pending) (reject_row failureCode (amount (Balance wallet)) referencedTransactionID now)) (\<lambda>_.
     insertRejectedEvent (pnID pending) (ID wallet) (reqProviderID (pnRequest pending))
       (reqKind (pnRequest pending)) failureCode (pnCorrelationID pending) (pnCausationID pending) now)"

definition processed_row :: "uuid \<Rightarrow> int64 \<Rightarrow> time \<Rightarrow> wager_row \<Rightarrow> wager_row" where
  "processed_row referenced balance now r =
     r\<lparr>t_state := WagerStateProcessed, t_referenced_transaction_id := Some referenced,
       t_result_balance := Some balance, t_failure_code := None,
       t_reference_next_attempt_at := None, t_updated_at := now\<rparr>"

section \<open>ResolveOne\<close>

datatype resolve_outcome =
    NothingDue
  | RetryScheduled string
  | PendingRejected string
  | PendingProcessed string

definition reject_and_commit ::
  "string \<Rightarrow> pendingReferenceTransaction \<Rightarrow> Wallet \<Rightarrow> string \<Rightarrow> time \<Rightarrow> uuid option \<Rightarrow> resolve_outcome tx" where
  "reject_and_commit commit_text pending wallet failureCode now referenced =
     tx_bind (rejectPendingReference pending wallet failureCode now referenced)
       (\<lambda>_. tx_return (PendingRejected commit_text))"

text \<open>Wallet, transaction row, ledger entry and events of a resolved movement.\<close>

definition resolve_persist ::
  "pendingReferenceTransaction \<Rightarrow> Wallet \<Rightarrow> Money \<Rightarrow> uuid \<Rightarrow> movementDirection \<Rightarrow> time \<Rightarrow> resolve_outcome tx" where
  "resolve_persist pending wallet balanceBefore referenceID direction now =
     (let ledgerDirection = (if direction = movementDebit then DirectionDebit else DirectionCredit);
          amt = reqAmount (pnRequest pending) in
      tx_bind (exec_update_wallet ''update wallet resolving pending reference'' wallet now) (\<lambda>_.
      tx_bind (exec_update_pending ''mark pending reference processed''
         ''pending reference was not marked processed'' (pnID pending)
         (processed_row referenceID (amount (Balance wallet)) now)) (\<lambda>_.
      tx_bind (exec_insert_ledger ''insert ledger resolving pending reference'' wallet (pnID pending)
         ledgerDirection amt balanceBefore now) (\<lambda>_.
      tx_bind (insertProcessedEvents (pnID pending) (reqKind (pnRequest pending)) wallet amt balanceBefore
         ledgerDirection (pnCorrelationID pending) (pnCausationID pending) now) (\<lambda>_.
      tx_return (PendingProcessed ''commit resolved pending reference''))))))"

definition resolve_move ::
  "pendingReferenceTransaction \<Rightarrow> Wallet \<Rightarrow> time \<Rightarrow> uuid \<Rightarrow> movementDirection \<Rightarrow> resolve_outcome tx" where
  "resolve_move pending wallet now referenceID direction =
     (let amt = reqAmount (pnRequest pending) in
      if direction = movementCredit then
        tx_bind (tx_lift (Wallet_Credit wallet amt now)) (\<lambda>wallet'.
        resolve_persist pending wallet' (Balance wallet) referenceID direction now)
      else if direction = movementDebit then
        (case Wallet_Debit wallet amt now of
           Inr wallet' \<Rightarrow> resolve_persist pending wallet' (Balance wallet) referenceID direction now
         | Inl err \<Rightarrow>
             if errors_is err ErrInsufficientFunds then
               reject_and_commit ''commit rejected pending reference'' pending wallet
                 ''REVERSAL_INSUFFICIENT_FUNDS'' now (Some referenceID)
             else tx_fail err)
      else tx_fail (Sentinel ErrInvalidReferenceKind))"

definition resolve_processed ::
  "pendingReferenceTransaction \<Rightarrow> Wallet \<Rightarrow> time \<Rightarrow> referencedTransaction \<Rightarrow> resolve_outcome tx" where
  "resolve_processed pending wallet now reference =
     tx_bind (tx_asks (\<lambda>E. validateReference E (pnRequest pending) reference)) (\<lambda>invalid.
     case invalid of
       Some err \<Rightarrow>
         reject_and_commit ''commit invalid pending reference'' pending wallet
           (referenceFailureCode (Sentinel err)) now (Some (refID reference))
     | None \<Rightarrow>
         if reqKind (pnRequest pending) = WagerKindWin then
           resolve_move pending wallet now (refID reference) movementCredit
         else
           tx_bind (referenceAlreadyReversed (refID reference)) (\<lambda>alreadyReversed.
           if alreadyReversed then
             reject_and_commit ''commit already reversed pending reference'' pending wallet
               failureCodeAlreadyReversed now (Some (refID reference))
           else
             tx_bind (tx_lift (reversalDirection (reqKind (pnRequest pending)) reference)) (\<lambda>direction.
             resolve_move pending wallet now (refID reference) direction)))"

definition resolve_reference ::
  "pendingReferenceTransaction \<Rightarrow> Wallet \<Rightarrow> time \<Rightarrow> resolve_outcome tx" where
  "resolve_reference pending wallet now =
     tx_bind (findReferencedTransaction (pnRequest pending)) (\<lambda>found.
     case found of
       None \<Rightarrow>
         tx_bind (schedulePendingReferenceRetry pending now)
           (\<lambda>_. tx_return (RetryScheduled ''commit pending reference retry''))
     | Some reference \<Rightarrow>
         if refState reference = WagerStatePending \<or> refState reference = WagerStatePendingReference then
           tx_bind (schedulePendingReferenceRetry pending now)
             (\<lambda>_. tx_return (RetryScheduled ''commit pending reference dependency retry''))
         else if refState reference = WagerStateRejected \<or> refState reference = WagerStateFailed then
           reject_and_commit ''commit terminal unsuccessful reference'' pending wallet
             failureCodeReferenceTerminalUnsuccessful now (Some (refID reference))
         else if refState reference = WagerStateProcessed then
           resolve_processed pending wallet now reference
         else tx_fail (PlainError ''unsupported referenced transaction state''))"

definition is_expired :: "pendingReferenceTransaction \<Rightarrow> time \<Rightarrow> bool" where
  "is_expired pending now \<longleftrightarrow>
     (case pnReferenceExpiresAt pending of None \<Rightarrow> False | Some expiresAt \<Rightarrow> \<not> now < expiresAt)"

text \<open>What happens to the pending transaction that was found.\<close>

definition resolve_pending :: "pendingReferenceTransaction \<Rightarrow> resolve_outcome tx" where
  "resolve_pending pending =
     tx_bind (lockWallet (reqWalletID (pnRequest pending))) (\<lambda>wallet.
     tx_bind time_Now (\<lambda>now.
     if is_expired pending now then
       reject_and_commit ''commit expired pending reference'' pending wallet ''REFERENCE_EXPIRED'' now None
     else resolve_reference pending wallet now))"

definition resolve_tx :: "resolve_outcome tx" where
  "resolve_tx =
     tx_bind findDuePendingReference (\<lambda>found.
     case found of
       None \<Rightarrow> tx_return NothingDue
     | Some pending \<Rightarrow> resolve_pending pending)"

fun resolve_commit :: "resolve_outcome \<Rightarrow> string option" where
  "resolve_commit NothingDue = None"
| "resolve_commit (RetryScheduled t) = Some t"
| "resolve_commit (PendingRejected t) = Some t"
| "resolve_commit (PendingProcessed t) = Some t"

fun resolve_metrics :: "resolve_outcome \<Rightarrow> Metrics \<Rightarrow> Metrics" where
  "resolve_metrics NothingDue m = m"
| "resolve_metrics (RetryScheduled _) m = m"
| "resolve_metrics (PendingRejected _) m = IncWagersRejected m"
| "resolve_metrics (PendingProcessed _) m = IncWagersProcessed m"

definition ResolveOne :: "env \<Rightarrow> world \<Rightarrow> Metrics \<Rightarrow> bool result \<times> database \<times> Metrics" where
  "ResolveOne E w m =
     (case run_tx E ''begin pending reference transaction'' resolve_commit resolve_tx w of
        (Inl e, d) \<Rightarrow> (Inl e, d, m)
      | (Inr outcome, d) \<Rightarrow> (Inr (outcome \<noteq> NothingDue), d, resolve_metrics outcome m))"

end
