(* ===== verification/Workers.thy ===== *)
theory Workers
  imports Sqs_Consumer Outbox Wagering_Resolver Metrics
begin

text \<open>
  \<^verbatim>\<open>internal/worker\<close>, \<^verbatim>\<open>internal/infrastructure/messaging/sqs/dlq_monitor.go\<close> and
  \<^verbatim>\<open>publisher.go\<close>: the polling loops around the consumer, the outbox publisher and the resolver, the
  gauge of the dead-letter queue, and the message publisher of the outbox.

  A loop runs over a list of turns, one per iteration it gets to: what the operation meets in it, and
  what the code learns from its context in it, namely whether it is cancelled at the head of the loop
  and after an error, and whether \<open>wait\<close> ran to its end. The list bounds the run; a loop that has used
  it up is still \<open>Running\<close>.
\<close>

section \<open>Loops\<close>

datatype worker_state = Running | Stopped

record 'i turn =
  stopped :: bool
  meets :: 'i
  stopped_after :: bool
  waited :: bool

record 'e delivery =
  dlReceived :: "error + sqs_message list"
  dlDelete :: "string \<Rightarrow> error option"
  dlContexts :: contexts
  dlEnvs :: "nat \<Rightarrow> 'e"

fun ConsumerWorker_Run ::
  "('e, 's) processor \<Rightarrow> 'e delivery turn list \<Rightarrow> 's \<Rightarrow> Metrics \<Rightarrow> worker_state \<times> sqs_action list \<times> 's \<times> Metrics" where
  "ConsumerWorker_Run process [] s m = (Running, [], s, m)"
| "ConsumerWorker_Run process (t # ts) s m =
     (if stopped t then (Stopped, [], s, m)
      else
        (case ConsumeOnceWithContexts process (dlReceived (meets t)) (dlDelete (meets t)) (dlContexts (meets t))
                (dlEnvs (meets t)) s m of
           ((processed, Some err), acts, s', m') \<Rightarrow>
             if stopped_after t then (Stopped, acts, s', m')
             else if \<not> waited t then (Stopped, acts, s', IncSQSErrors m')
             else (case ConsumerWorker_Run process ts s' (IncSQSErrors m') of
                     (st, acts', s'', m'') \<Rightarrow> (st, acts @ acts', s'', m''))
         | ((processed, None), acts, s', m') \<Rightarrow>
             (case ConsumerWorker_Run process ts s'
                     (if 0 < processed then IncSQSMessagesProcessed (word_of_nat processed) m' else m') of
                (st, acts', s'', m'') \<Rightarrow> (st, acts @ acts', s'', m''))))"

fun OutboxWorker_Run ::
  "(env \<times> (Event \<Rightarrow> error option)) turn list \<Rightarrow> database \<Rightarrow> Metrics \<Rightarrow> worker_state \<times> database \<times> Metrics" where
  "OutboxWorker_Run [] d m = (Running, d, m)"
| "OutboxWorker_Run (t # ts) d m =
     (if stopped t then (Stopped, d, m)
      else
        (case PublishBatch (fst (meets t)) (snd (meets t)) d m of
           (Inl err, d', m') \<Rightarrow>
             if stopped_after t then (Stopped, d', m')
             else if \<not> waited t then (Stopped, d', IncOutboxErrors m')
             else OutboxWorker_Run ts d' (IncOutboxErrors m')
         | (Inr published, d', m') \<Rightarrow>
             if 0 < published then OutboxWorker_Run ts d' (IncOutboxEventsPublished (word_of_nat published) m')
             else if \<not> waited t then (Stopped, d', m')
             else OutboxWorker_Run ts d' m'))"

fun PendingReferenceWorker_Run :: "env turn list \<Rightarrow> database \<Rightarrow> Metrics \<Rightarrow> worker_state \<times> database \<times> Metrics" where
  "PendingReferenceWorker_Run [] d m = (Running, d, m)"
| "PendingReferenceWorker_Run (t # ts) d m =
     (if stopped t then (Stopped, d, m)
      else
        (case ResolveOne (meets t) (start_world d) m of
           (Inl err, d', m') \<Rightarrow>
             if stopped_after t then (Stopped, d', m')
             else if \<not> waited t then (Stopped, d', m')
             else PendingReferenceWorker_Run ts d' m'
         | (Inr handled, d', m') \<Rightarrow>
             if handled then PendingReferenceWorker_Run ts d' m'
             else if \<not> waited t then (Stopped, d', m')
             else PendingReferenceWorker_Run ts d' m'))"

section \<open>Shutdown of the consumer\<close>

text \<open>\<open>watchForShutdown\<close> runs beside one consumption. Times are microseconds; \<open>received_done\<close> is when
  the receive context ends, \<open>shutdown_done\<close> when the shutdown context does, if ever, \<open>deadline\<close> the
  deadline of the latter. The result is when the processing context is cancelled, if the
  consumption has not ended by then.\<close>

definition consumerDrainTimeout :: duration where "consumerDrainTimeout = 10 * Second"

text \<open>The buffered channel of one shutdown context: a second one is dropped; no context queued is the
  background context, which has no deadline and never ends.\<close>

definition ConsumerWorker_PrepareShutdown :: "'c \<Rightarrow> 'c option \<Rightarrow> 'c option" where
  "ConsumerWorker_PrepareShutdown ctx shutdownContexts =
     (case shutdownContexts of None \<Rightarrow> Some ctx | Some queued \<Rightarrow> Some queued)"

definition shutdownContext :: "'c option \<Rightarrow> 'c option \<times> 'c option" where
  "shutdownContext shutdownContexts = (shutdownContexts, None)"

lemma first_shutdown_context:
  "shutdownContext (ConsumerWorker_PrepareShutdown b (ConsumerWorker_PrepareShutdown a None)) = (Some a, None)"
  by (simp add: shutdownContext_def ConsumerWorker_PrepareShutdown_def)

definition drain_duration :: "duration \<Rightarrow> time option \<Rightarrow> time \<Rightarrow> duration" where
  "drain_duration drainTimeout deadline now =
     max 0 (case deadline of None \<Rightarrow> drainTimeout
        | Some t \<Rightarrow> if t - now < drainTimeout then t - now else drainTimeout)"

definition watchForShutdown ::
  "duration \<Rightarrow> time option \<Rightarrow> time option \<Rightarrow> time option \<Rightarrow> time \<Rightarrow> time option" where
  "watchForShutdown drainTimeout received_done deadline shutdown_done operation_done =
     (case received_done of
        None \<Rightarrow> None
      | Some now \<Rightarrow>
          if operation_done \<le> now then None
          else
            let timer = now + drain_duration drainTimeout deadline now;
                cancel = (case shutdown_done of None \<Rightarrow> timer | Some t \<Rightarrow> min timer (max now t))
            in if operation_done \<le> cancel then None else Some cancel)"

section \<open>dlq_monitor.go\<close>

text \<open>\<^verbatim>\<open>strconv.ParseUint(s, 10, 64)\<close>.\<close>

definition ParseUint :: "string \<Rightarrow> parse_error + uint64" where
  "ParseUint s =
     (if s = [] \<or> \<not> list_all is_digit s then Inl ErrSyntax
      else if 2 ^ 64 \<le> read_nat s then Inl ErrRange else Inr (word_of_nat (read_nat s)))"

text \<open>\<open>output\<close> is what \<^verbatim>\<open>GetQueueAttributes\<close> returns: an error or the attributes.\<close>

definition DLQMonitor_refresh :: "error + (string \<rightharpoonup> string) \<Rightarrow> Metrics \<Rightarrow> Metrics" where
  "DLQMonitor_refresh output m =
     (case output of
        Inl _ \<Rightarrow> m
      | Inr attributes \<Rightarrow>
          (case attributes ''ApproximateNumberOfMessages'' of
             None \<Rightarrow> m
           | Some rawCount \<Rightarrow> (case ParseUint rawCount of Inl _ \<Rightarrow> m | Inr count \<Rightarrow> SetSQSDLQMessages count m)))"

text \<open>The outputs of the first refresh and of one at each tick, until the context ends.\<close>

fun DLQMonitor_Run :: "(error + (string \<rightharpoonup> string)) list \<Rightarrow> Metrics \<Rightarrow> Metrics" where
  "DLQMonitor_Run [] m = m"
| "DLQMonitor_Run (output # outputs) m = DLQMonitor_Run outputs (DLQMonitor_refresh output m)"

section \<open>publisher.go\<close>

record SendMessageInput =
  smMessageBody :: eventEnvelope
  smMessageGroupId :: string
  smMessageDeduplicationId :: string

definition Publisher_Publish :: "env \<Rightarrow> (SendMessageInput \<Rightarrow> error option) \<Rightarrow> Event \<Rightarrow> error option" where
  "Publisher_Publish E send event =
     (case send \<lparr>smMessageBody = evPayload event, smMessageGroupId = uuid_String E (evAggregateID event),
                 smMessageDeduplicationId = uuid_String E (evID event)\<rparr> of
        None \<Rightarrow> None
      | Some err \<Rightarrow> Some (Wrapped (''send outbox event '' @ uuid_String E (evID event) @ '' to SQS'') err))"

end
