(* ===== verification/Go_Base64.thy ===== *)
theory Go_Base64
  imports Go_Strings
begin

text \<open>
  Go's \<^verbatim>\<open>base64.RawURLEncoding\<close>: the URL alphabet without padding. The decoder passes over
  line feeds and carriage returns and ignores the unused low bits of a last partial group, as
  Go's does when it is not strict.
\<close>

section \<open>The alphabet\<close>

definition b64_alphabet :: string where
  "b64_alphabet = ''ABCDEFGHIJKLMNOPQRSTUVWXYZabcdefghijklmnopqrstuvwxyz0123456789-_''"

definition b64_char :: "nat \<Rightarrow> char" where
  "b64_char n = b64_alphabet ! n"

definition b64_value :: "char \<Rightarrow> nat option" where
  "b64_value = map_of (zip b64_alphabet [0..<64])"

lemma b64_alphabet: "distinct b64_alphabet" "length b64_alphabet = 64" "CHR 0x0A \<notin> set b64_alphabet" "CHR 0x0D \<notin> set b64_alphabet"
  by (simp_all add: b64_alphabet_def)

lemma b64_value_char [simp]: "n < 64 \<Longrightarrow> b64_value (b64_char n) = Some n"
  using map_of_zip_nth [of b64_alphabet "[0..<64]" n] by (simp add: b64_value_def b64_char_def b64_alphabet)

lemma b64_char_newline [simp]: "n < 64 \<Longrightarrow> b64_char n \<noteq> CHR 0x0A" "n < 64 \<Longrightarrow> b64_char n \<noteq> CHR 0x0D"
  using b64_alphabet by (metis b64_char_def nth_mem)+

section \<open>Encoding and decoding\<close>

abbreviation octet :: "char \<Rightarrow> nat" where "octet \<equiv> of_char"

fun b64_encode :: "string \<Rightarrow> string" where
  "b64_encode [] = []"
| "b64_encode [a] = [b64_char (octet a div 4), b64_char (octet a mod 4 * 16)]"
| "b64_encode [a, b] =
     [b64_char (octet a div 4), b64_char (octet a mod 4 * 16 + octet b div 16), b64_char (octet b mod 16 * 4)]"
| "b64_encode (a # b # c # s) =
     [b64_char (octet a div 4), b64_char (octet a mod 4 * 16 + octet b div 16),
      b64_char (octet b mod 16 * 4 + octet c div 64), b64_char (octet c mod 64)] @ b64_encode s"

definition b64_byte :: "nat \<Rightarrow> char" where
  "b64_byte n = char_of (n mod 256)"

fun b64_groups :: "nat list \<Rightarrow> string option" where
  "b64_groups [] = Some []"
| "b64_groups [a] = None"
| "b64_groups [a, b] = Some [b64_byte (a * 4 + b div 16)]"
| "b64_groups [a, b, c] = Some [b64_byte (a * 4 + b div 16), b64_byte (b mod 16 * 16 + c div 4)]"
| "b64_groups (a # b # c # d # s) =
     map_option (\<lambda>r. b64_byte (a * 4 + b div 16) # b64_byte (b mod 16 * 16 + c div 4) # b64_byte (c mod 4 * 64 + d) # r)
       (b64_groups s)"

definition b64_decode :: "string \<Rightarrow> string option" where
  "b64_decode s =
     (let cs = filter (\<lambda>c. c \<noteq> CHR 0x0A \<and> c \<noteq> CHR 0x0D) s in
      if list_all (\<lambda>c. b64_value c \<noteq> None) cs then b64_groups (map (\<lambda>c. the (b64_value c)) cs) else None)"

section \<open>Round trip\<close>

lemma b64_byte_code [simp]: "b64_byte (octet c) = c"
  by (simp add: b64_byte_def)

text \<open>The sextets of a text of whole groups.\<close>

fun sextets :: "nat list \<Rightarrow> nat list" where
  "sextets [] = []"
| "sextets [a] = [a div 4, a mod 4 * 16]"
| "sextets [a, b] = [a div 4, a mod 4 * 16 + b div 16, b mod 16 * 4]"
| "sextets (a # b # c # s) = [a div 4, a mod 4 * 16 + b div 16, b mod 16 * 4 + c div 64, c mod 64] @ sextets s"

lemma b64_encode_sextets: "b64_encode s = map b64_char (sextets (map octet s))"
  by (induction s rule: b64_encode.induct) simp_all

lemma sextet_bounds:
  fixes a b c :: nat
  shows "a < 256 \<Longrightarrow> a div 4 < 64" "b < 256 \<Longrightarrow> a mod 4 * 16 + b div 16 < 64"
    "c < 256 \<Longrightarrow> b mod 16 * 4 + c div 64 < 64" "c mod 64 < 64" "a mod 4 * 16 < 64" "b mod 16 * 4 < 64"
proof -
  have m: "a mod 4 < 4" "b mod 16 < 16" "c mod 64 < 64" by simp_all
  show "a < 256 \<Longrightarrow> a div 4 < 64" by (simp add: less_mult_imp_div_less)
  show "b < 256 \<Longrightarrow> a mod 4 * 16 + b div 16 < 64"
    using m less_mult_imp_div_less [of b 16 16] by simp
  show "c < 256 \<Longrightarrow> b mod 16 * 4 + c div 64 < 64"
    using m less_mult_imp_div_less [of c 4 64] by simp
  show "c mod 64 < 64" "a mod 4 * 16 < 64" "b mod 16 * 4 < 64" using m by simp_all
qed

lemma sextets_bound: "list_all (\<lambda>n. n < 256) s \<Longrightarrow> list_all (\<lambda>n. n < 64) (sextets s)"
  by (induction s rule: sextets.induct) (simp_all add: sextet_bounds)

lemma join: "n < k \<Longrightarrow> (x * k + n) div k = x \<and> (x * k + n) mod k = n" for n k x :: nat
  by simp

lemma byte_of_sextets:
  fixes a b c :: nat
  shows "b < 256 \<Longrightarrow> a div 4 * 4 + (a mod 4 * 16 + b div 16) div 16 = a"
    "b < 256 \<Longrightarrow> c < 256 \<Longrightarrow> (a mod 4 * 16 + b div 16) mod 16 * 16 + (b mod 16 * 4 + c div 64) div 4 = b"
    "c < 256 \<Longrightarrow> (b mod 16 * 4 + c div 64) mod 4 * 64 + c mod 64 = c"
  using join [of "b div 16" 16 "a mod 4"] join [of "c div 64" 4 "b mod 16"]
    less_mult_imp_div_less [of b 16 16] less_mult_imp_div_less [of c 4 64]
  by simp_all

lemma b64_groups_sextets:
  "list_all (\<lambda>n. n < 256) s \<Longrightarrow> b64_groups (sextets s) = Some (map b64_byte s)"
proof (induction s rule: sextets.induct)
  case (2 a)
  then show ?case using byte_of_sextets(1) [of 0 a] by simp
next
  case (3 a b)
  then show ?case using byte_of_sextets(1) [of b a] byte_of_sextets(2) [of b 0 a] by simp
next
  case (4 a b c s)
  then show ?case using byte_of_sextets(1) [of b a] byte_of_sextets(2) [of b c a] byte_of_sextets(3) [of c b] by simp
qed simp

lemma b64_decode_encode: "b64_decode (b64_encode s) = Some s"
proof -
  let ?n = "sextets (map octet s)"
  have n: "list_all (\<lambda>n. n < 64) ?n" by (rule sextets_bound) (simp add: list_all_iff)
  then have "filter (\<lambda>c. c \<noteq> CHR 0x0A \<and> c \<noteq> CHR 0x0D) (map b64_char ?n) = map b64_char ?n"
    by (auto simp: filter_id_conv list_all_iff)
  moreover have "list_all (\<lambda>c. b64_value c \<noteq> None) (map b64_char ?n)" using n by (auto simp: list_all_iff)
  moreover have "map (\<lambda>c. the (b64_value c)) (map b64_char ?n) = ?n"
    using n by (auto simp: list_all_iff intro: map_idI)
  moreover have "b64_groups ?n = Some s"
    by (subst b64_groups_sextets) (simp_all add: list_all_iff comp_def)
  ultimately show ?thesis by (simp add: b64_decode_def b64_encode_sextets Let_def del: map_map)
qed

end
