(* ===== verification/Wallet_Service.thy ===== *)
theory Wallet_Service
  imports Wagering_Process Go_Time Go_Base64 Go_Json_Decode "HOL-Library.Product_Lexorder"
begin

text \<open>
  \<^verbatim>\<open>internal/application/wallet\<close>: creating a wallet with its opening transaction
  (\<^verbatim>\<open>create.go\<close>), reading wallets and ledger pages (\<^verbatim>\<open>query.go\<close>) and reconciling a stored
  balance with the ledger (\<^verbatim>\<open>reconciliation.go\<close>). The texts of page cursors are modelled down to
  their base64, JSON and RFC 3339 form.
\<close>

section \<open>create.go\<close>

record CreateWalletCommand =
  cwPlayerID :: string
  cwInitialBalance :: Money

record CreateWalletResult =
  cwrWalletID :: string
  cwrBalance :: Money
  cwrVersion :: int64

definition wallet_insertOutboxEvent :: "eventEnvelope \<Rightarrow> unit tx" where
  "wallet_insertOutboxEvent event =
     tx_map_err (Wrapped ''insert outbox event'') (sql_exec (insert_outbox (outbox_row_of event)))"

definition opening_row :: "uuid \<Rightarrow> uuid \<Rightarrow> string \<Rightarrow> Money \<Rightarrow> time \<Rightarrow> wager_row" where
  "opening_row transactionID walletID playerID initialBalance now =
     \<lparr>t_id = transactionID, t_provider_id = None, t_external_transaction_id = None,
      t_idempotency_key = None, t_payload_hash = None, t_wallet_id = walletID,
      t_player_id = playerID, t_round_id = None, t_game_id = None, t_kind = KindOpening,
      t_state = WagerStateProcessed, t_amount = amount initialBalance,
      t_currency = currency initialBalance, t_reference_external_transaction_id = None,
      t_referenced_transaction_id = None, t_failure_code = None,
      t_result_balance = Some (amount initialBalance), t_created_at = now, t_updated_at = now,
      t_reference_attempts = 0, t_reference_next_attempt_at = None,
      t_reference_expires_at = None, t_correlation_id = None, t_causation_id = None\<rparr>"

definition createOpeningTransaction :: "uuid \<Rightarrow> string \<Rightarrow> Money \<Rightarrow> string \<Rightarrow> time \<Rightarrow> unit tx" where
  "createOpeningTransaction walletID playerID initialBalance correlationID now =
     tx_bind uuid_New (\<lambda>transactionID.
     tx_bind (tx_map_err (Wrapped ''insert opening transaction'')
        (sql_exec (insert_wager (opening_row transactionID walletID playerID initialBalance now)))) (\<lambda>_.
     tx_bind uuid_New (\<lambda>entryID.
     tx_bind (tx_map_err (Wrapped ''insert opening ledger entry'')
        (sql_exec (insert_ledger
          \<lparr>l_id = entryID, l_wallet_id = walletID, l_transaction_id = transactionID,
           l_direction = DirectionCredit, l_amount = amount initialBalance, l_balance_before = 0,
           l_balance_after = amount initialBalance, l_created_at = now\<rparr>))) (\<lambda>_.
     tx_bind (tx_asks (\<lambda>E. (uuid_String E transactionID, uuid_String E walletID))) (\<lambda>(tid, wid).
     tx_bind uuid_New (\<lambda>eventID.
     tx_bind (wallet_insertOutboxEvent (NewWagerTransactionProcessedEvent eventID walletID correlationID [] now
        \<lparr>pdTransactionID = tid, pdWalletID = wid, pdKind = KindOpening\<rparr>)) (\<lambda>_.
     tx_bind uuid_New (\<lambda>eventID'.
     wallet_insertOutboxEvent (NewWalletBalanceChangedEvent eventID' walletID correlationID [] now
        \<lparr>bdWalletID = wid, bdTransactionID = tid, bdDirection = DirectionCredit,
         bdMoney = eventpayload_NewMoney initialBalance,
         bdBalanceBefore = eventpayload_NewMoney (Zero (currency initialBalance)),
         bdBalanceAfter = eventpayload_NewMoney initialBalance, bdWalletVersion = 1\<rparr>)))))))))"

definition map_wallet_violation :: "error \<Rightarrow> error" where
  "map_wallet_violation err =
     (if errors_as_pg err = Some (''23505'', ''wallets_player_currency_unique'')
      then Sentinel ErrWalletAlreadyExists else Wrapped ''insert wallet'' err)"

text \<open>The transaction of \<open>Create\<close>, once the aggregate is valid.\<close>

definition create_tx :: "uuid \<Rightarrow> Wallet \<Rightarrow> time \<Rightarrow> CreateWalletResult tx" where
  "create_tx walletID domainWallet now =
     tx_bind uuid_NewString (\<lambda>correlationID.
     tx_bind (tx_map_err map_wallet_violation (sql_exec (insert_wallet
        \<lparr>w_id = walletID, w_player_id = PlayerID domainWallet,
         w_currency = currency (Balance domainWallet), w_balance = amount (Balance domainWallet),
         w_version = 1, w_created_at = now, w_updated_at = now\<rparr>))) (\<lambda>_.
     tx_bind (if \<not> IsZero (Balance domainWallet)
        then createOpeningTransaction walletID (PlayerID domainWallet) (Balance domainWallet) correlationID now
        else tx_return ()) (\<lambda>_.
     tx_bind (tx_asks (\<lambda>E. uuid_String E walletID)) (\<lambda>wid.
     tx_return \<lparr>cwrWalletID = wid, cwrBalance = Balance domainWallet, cwrVersion = Version domainWallet\<rparr>))))"

definition Wallet_Create :: "env \<Rightarrow> CreateWalletCommand \<Rightarrow> database \<Rightarrow> CreateWalletResult result \<times> database" where
  "Wallet_Create E cmd d =
     (let now = time_now E 0; walletID = new_uuid E 0;
          w = (start_world d)\<lparr>now_count := 1, uuid_count := 1\<rparr> in
      case NewWallet (uuid_String E walletID) (cwPlayerID cmd) (cwInitialBalance cmd) now of
        Inl e \<Rightarrow> (Inl e, d)
      | Inr domainWallet \<Rightarrow>
          run_tx E ''begin transaction'' (\<lambda>_. Some ''commit transaction'')
            (create_tx walletID domainWallet now) w)"

section \<open>query.go\<close>

record WalletResult =
  wrWalletID :: string
  wrPlayerID :: string
  wrCurrency :: string
  wrBalance :: int64
  wrVersion :: int64

record LedgerEntryResult =
  leID :: string
  leTransactionID :: string
  leDirection :: string
  leAmount :: int64
  leBalanceBefore :: int64
  leBalanceAfter :: int64
  leCreatedAt :: time

text \<open>The time of a cursor is kept in nanoseconds, as Go reads and writes it; the database's
  times are microseconds.\<close>

record ledgerCursor =
  lcCreatedAt :: int
  lcID :: string

record LedgerPage =
  lpEntries :: "LedgerEntryResult list"
  lpNextCursor :: string

definition DefaultLedgerPageSize :: int where "DefaultLedgerPageSize = 50"
definition MaxLedgerPageSize :: int where "MaxLedgerPageSize = 100"

definition scan_wallet_result :: "env \<Rightarrow> wallet_row \<Rightarrow> WalletResult" where
  "scan_wallet_result E r =
     \<lparr>wrWalletID = uuid_String E (w_id r), wrPlayerID = w_player_id r, wrCurrency = w_currency r,
      wrBalance = w_balance r, wrVersion = w_version r\<rparr>"

definition scan_ledger_entry :: "env \<Rightarrow> ledger_row \<Rightarrow> LedgerEntryResult" where
  "scan_ledger_entry E l =
     \<lparr>leID = uuid_String E (l_id l), leTransactionID = uuid_String E (l_transaction_id l),
      leDirection = l_direction l, leAmount = l_amount l, leBalanceBefore = l_balance_before l,
      leBalanceAfter = l_balance_after l, leCreatedAt = l_created_at l\<rparr>"

text \<open>\<^verbatim>\<open>WHERE wallet_id = $1 ORDER BY created_at, id\<close>.\<close>

definition ordered_ledger :: "uuid \<Rightarrow> database \<Rightarrow> ledger_row list" where
  "ordered_ledger i d =
     sort_key (\<lambda>l. (l_created_at l, l_id l)) (filter (\<lambda>l. l_wallet_id l = i) (ledger_entries d))"

definition parse_or_not_found :: "string \<Rightarrow> uuid tx" where
  "parse_or_not_found walletID =
     tx_bind (tx_asks (\<lambda>E. uuid_Parse E walletID)) (\<lambda>wid.
     case wid of None \<Rightarrow> tx_fail (Sentinel ErrWalletNotFound) | Some u \<Rightarrow> tx_return u)"

definition Wallet_Get :: "string \<Rightarrow> WalletResult tx" where
  "Wallet_Get walletID =
     tx_bind (parse_or_not_found walletID) (\<lambda>wid.
     tx_bind (tx_map_err (Wrapped ''query wallet'')
        (sql_read (\<lambda>E d. Inr (map_option (scan_wallet_result E)
           (List.find (\<lambda>r. w_id r = wid) (wallets d)))))) (\<lambda>row.
     case row of None \<Rightarrow> tx_fail (Sentinel ErrWalletNotFound) | Some r \<Rightarrow> tx_return r))"

definition parseExistingWallet :: "string \<Rightarrow> uuid tx" where
  "parseExistingWallet walletID =
     tx_bind (parse_or_not_found walletID) (\<lambda>wid.
     tx_bind (tx_map_err (Wrapped ''check wallet existence'')
        (sql_read (\<lambda>_ d. Inr (list_ex (\<lambda>r. w_id r = wid) (wallets d))))) (\<lambda>exists.
     if \<not> exists then tx_fail (Sentinel ErrWalletNotFound) else tx_return wid))"

definition Wallet_Ledger :: "string \<Rightarrow> LedgerEntryResult list tx" where
  "Wallet_Ledger walletID =
     tx_bind (parseExistingWallet walletID) (\<lambda>wid.
     tx_map_err (Wrapped ''query wallet ledger'')
       (sql_read (\<lambda>E d. Inr (map (scan_ledger_entry E) (ordered_ledger wid d)))))"

definition page_size :: "int \<Rightarrow> nat" where
  "page_size limit0 =
     (let limit = (if limit0 \<le> 0 then DefaultLedgerPageSize else limit0)
      in nat (if limit > MaxLedgerPageSize then MaxLedgerPageSize else limit))"

definition after_cursor :: "time \<Rightarrow> uuid \<Rightarrow> ledger_row \<Rightarrow> bool" where
  "after_cursor t i l \<longleftrightarrow> t < l_created_at l \<or> (l_created_at l = t \<and> i < l_id l)"

definition nanos :: "time \<Rightarrow> int" where
  "nanos t = 1000 * t"

definition micros :: "int \<Rightarrow> time" where
  "micros n = n div 1000"

definition cursor_fields :: "(string \<times> ledgerCursor decoder) list" where
  "cursor_fields = [(''createdAt'', text_field time_Parse lcCreatedAt_update), (''id'', string_field lcID_update)]"

definition encodeLedgerCursor :: "ledgerCursor \<Rightarrow> string result" where
  "encodeLedgerCursor c =
     (case rfc3339_nano (lcCreatedAt c) of
        None \<Rightarrow> Inl (PlainError ''Time.MarshalJSON: year outside of range [0,9999]'')
      | Some t \<Rightarrow> Inr (b64_encode (json_object [(''createdAt'', t), (''id'', lcID c)])))"

definition decodeLedgerCursor :: "env \<Rightarrow> string \<Rightarrow> ledgerCursor result" where
  "decodeLedgerCursor E value =
     (case Option.bind (b64_decode value)
             (\<lambda>payload. Unmarshal cursor_fields payload \<lparr>lcCreatedAt = nanos zero_time, lcID = []\<rparr>) of
        None \<Rightarrow> Inl (Sentinel ErrInvalidLedgerCursor)
      | Some c \<Rightarrow>
          if lcCreatedAt c = nanos zero_time then Inl (Sentinel ErrInvalidLedgerCursor)
          else if uuid_Parse E (lcID c) = None then Inl (Sentinel ErrInvalidLedgerCursor)
          else Inr c)"

definition page_query :: "uuid \<Rightarrow> nat \<Rightarrow> ledgerCursor option \<Rightarrow> env \<Rightarrow> database \<Rightarrow> ledger_row list result" where
  "page_query wid limit cursorValue E d =
     (case cursorValue of
        None \<Rightarrow> Inr (take (limit + 1) (ordered_ledger wid d))
      | Some c \<Rightarrow> res_bind (uuid_param E (lcID c)) (\<lambda>i.
          Inr (take (limit + 1) (filter (after_cursor (micros (lcCreatedAt c)) i) (ordered_ledger wid d)))))"

definition page_of :: "nat \<Rightarrow> LedgerEntryResult list \<Rightarrow> LedgerPage result" where
  "page_of limit entries =
     (if limit < length entries then
        let shown = take limit entries; lst = last shown in
        (case encodeLedgerCursor \<lparr>lcCreatedAt = nanos (leCreatedAt lst), lcID = leID lst\<rparr> of
           Inl e \<Rightarrow> Inl (Wrapped ''encode ledger cursor'' e)
         | Inr nextCursor \<Rightarrow> Inr \<lparr>lpEntries = shown, lpNextCursor = nextCursor\<rparr>)
      else Inr \<lparr>lpEntries = entries, lpNextCursor = []\<rparr>)"

definition Wallet_LedgerPage :: "string \<Rightarrow> int \<Rightarrow> string \<Rightarrow> LedgerPage tx" where
  "Wallet_LedgerPage walletID limit0 cursor =
     tx_bind (parseExistingWallet walletID) (\<lambda>wid.
     let limit = page_size limit0 in
     tx_bind (if cursor = [] then tx_return None
        else tx_bind (tx_asks (\<lambda>E. decodeLedgerCursor E cursor)) (\<lambda>r. tx_lift (map_sum id Some r))) (\<lambda>cursorValue.
     tx_bind (tx_map_err (Wrapped ''query wallet ledger page'')
        (sql_read (\<lambda>E d. res_bind (page_query wid limit cursorValue E d)
           (\<lambda>ls. Inr (map (scan_ledger_entry E) ls))))) (\<lambda>entries.
     tx_lift (page_of limit entries))))"

section \<open>reconciliation.go\<close>

record ReconciliationResult =
  rrWalletID :: string
  rrCurrency :: string
  rrStoredBalance :: int64
  rrCalculatedBalance :: int64
  rrDifference :: int64
  rrCheckedEntries :: nat
  rrConsistent :: bool

text \<open>The loop of \<open>calculateLedgerBalance\<close>: the running balance and whether the ledger is valid so far.\<close>

fun calculate_loop ::
  "Currency \<Rightarrow> LedgerEntryResult list \<Rightarrow> Money \<Rightarrow> bool \<Rightarrow> (int64 \<times> bool) result" where
  "calculate_loop cur [] calculated valid = Inr (amount calculated, valid)"
| "calculate_loop cur (entry # entries) calculated valid =
     (let valid1 = (if leBalanceBefore entry \<noteq> amount calculated then False else valid);
          amt = NewMoney (leAmount entry) cur;
          before = NewMoney (leBalanceBefore entry) cur;
          expected =
            (if leDirection entry = DirectionCredit then
               (case Money_Add before amt of
                  Inl e \<Rightarrow> Inl (Wrapped ''calculate ledger entry'' e) | Inr x \<Rightarrow> Inr x)
             else if leDirection entry = DirectionDebit then
               (case Money_Subtract before amt of
                  Inl e \<Rightarrow> Inl (Wrapped ''calculate ledger entry'' e) | Inr x \<Rightarrow> Inr x)
             else Inl (PlainError ''unknown ledger direction''))
      in res_bind expected (\<lambda>x.
           calculate_loop cur entries (NewMoney (leBalanceAfter entry) cur)
             (if amount x \<noteq> leBalanceAfter entry then False else valid1)))"

definition calculateLedgerBalance :: "LedgerEntryResult list \<Rightarrow> Currency \<Rightarrow> (int64 \<times> bool) result" where
  "calculateLedgerBalance entries cur =
     (case entries of
        [] \<Rightarrow> Inr (0, True)
      | e # _ \<Rightarrow> calculate_loop cur entries (NewMoney (leBalanceBefore e) cur) True)"

definition loadReconciliationWallet :: "uuid \<Rightarrow> WalletResult tx" where
  "loadReconciliationWallet walletID =
     tx_bind (tx_map_err (Wrapped ''query reconciliation wallet'')
        (sql_read (\<lambda>E d. Inr (map_option (scan_wallet_result E)
           (List.find (\<lambda>r. w_id r = walletID) (wallets d)))))) (\<lambda>row.
     case row of None \<Rightarrow> tx_fail (Sentinel ErrWalletNotFound) | Some r \<Rightarrow> tx_return r)"

definition loadReconciliationLedger :: "uuid \<Rightarrow> LedgerEntryResult list tx" where
  "loadReconciliationLedger walletID =
     tx_map_err (Wrapped ''query reconciliation ledger'')
       (sql_read (\<lambda>E d. Inr (map (scan_ledger_entry E) (ordered_ledger walletID d))))"

text \<open>What \<open>Reconcile\<close> makes of the wallet and its entries.\<close>

definition reconcile_result :: "WalletResult \<Rightarrow> LedgerEntryResult list \<Rightarrow> ReconciliationResult result" where
  "reconcile_result wallet entries =
     res_bind (calculateLedgerBalance entries (wrCurrency wallet)) (\<lambda>(calculatedBalance, ledgerValid).
     let storedMoney = NewMoney (wrBalance wallet) (wrCurrency wallet);
         calculatedMoney = NewMoney calculatedBalance (wrCurrency wallet) in
     case Money_Subtract storedMoney calculatedMoney of
       Inl e \<Rightarrow> Inl (Wrapped ''calculate reconciliation difference'' e)
     | Inr difference \<Rightarrow>
         Inr \<lparr>rrWalletID = wrWalletID wallet, rrCurrency = wrCurrency wallet,
              rrStoredBalance = wrBalance wallet, rrCalculatedBalance = calculatedBalance,
              rrDifference = amount difference, rrCheckedEntries = length entries,
              rrConsistent = (ledgerValid \<and> IsZero difference)\<rparr>)"

definition reconcile_tx :: "uuid \<Rightarrow> ReconciliationResult tx" where
  "reconcile_tx wid =
     tx_bind (loadReconciliationWallet wid) (\<lambda>wallet.
     tx_bind (loadReconciliationLedger wid) (\<lambda>entries.
     tx_lift (reconcile_result wallet entries)))"

definition Wallet_Reconcile ::
  "env \<Rightarrow> string \<Rightarrow> database \<Rightarrow> Metrics \<Rightarrow> ReconciliationResult result \<times> database \<times> Metrics" where
  "Wallet_Reconcile E walletID d m =
     (case uuid_Parse E walletID of
        None \<Rightarrow> (Inl (Sentinel ErrWalletNotFound), d, m)
      | Some wid \<Rightarrow>
          (case run_tx E ''begin reconciliation transaction'' (\<lambda>_. Some ''commit reconciliation transaction'')
                  (reconcile_tx wid) (start_world d) of
             (Inl e, d') \<Rightarrow> (Inl e, d', m)
           | (Inr r, d') \<Rightarrow>
               (Inr r, d', if rrConsistent r then m else IncReconciliationDivergences m)))"

end
