(* ===== verification/Db_Contract.thy ===== *)
theory Db_Contract
  imports Wagering_Resolver Wallet_Service Inbox Outbox
begin

text \<open>
  What the transaction programs may do to the database. The locales \<open>wager_contract\<close> and, with the inbox,
  \<open>db_contract\<close> are the interface between the programs and a relation on databases: a
  reflexive and transitive relation every write statement respects is respected by every
  program, whatever the branch it takes. The statements are the ones the code sends.
\<close>

text \<open>What the code stores as pending: a transaction of one of the three kinds that may refer to another,
  with the external id it refers to.\<close>

definition names_reference :: "wager_row \<Rightarrow> bool" where
  "names_reference r \<longleftrightarrow>
     t_kind r \<in> {WagerKindWin, WagerKindRefund, WagerKindRollback}
     \<and> some_nonempty (t_reference_external_transaction_id r)"

definition written :: "wager_row \<Rightarrow> bool" where
  "written r \<longleftrightarrow> (t_state r = WagerStatePendingReference \<longrightarrow> names_reference r)"

lemma written_command_row:
  "written ((command_row i cmd h WagerStateRejected now u)
     \<lparr>t_referenced_transaction_id := ref, t_failure_code := f, t_result_balance := b\<rparr>)"
  "written ((command_row i cmd h WagerStateProcessed now u)\<lparr>t_referenced_transaction_id := ref, t_result_balance := b\<rparr>)"
  "written (opening_row i u player initial now)"
  by (simp_all add: written_def command_row_def Let_def opening_row_def)

locale wager_contract = tx_relation +
  assumes R_insert_wallet: "insert_wallet wr d = Inr d' \<Longrightarrow> R d d'"
    and R_insert_wager: "insert_wager tr d = Inr d' \<Longrightarrow> written tr \<Longrightarrow> R d d'"
    and R_insert_ledger: "insert_ledger lr d = Inr d' \<Longrightarrow> R d d'"
    and R_insert_outbox: "insert_outbox row d = Inr d' \<Longrightarrow> R d d'"
    and R_update_wallet: "update_wallet i b v now d = Inr d' \<Longrightarrow> R d d'"
    and R_reschedule: "update_pending i (reschedule_row a t now) d = Inr (n, d') \<Longrightarrow> R d d'"
    and R_reject: "update_pending i (reject_row c bal ref now) d = Inr (n, d') \<Longrightarrow> R d d'"
    and R_processed: "update_pending i (processed_row u bal now) d = Inr (n, d') \<Longrightarrow> R d d'"
    and R_mark: "update_outbox (unpublished i) (mark_row E) d = (n, d') \<Longrightarrow> R d d'"
    and R_retry: "update_outbox (unpublished i) (retry_row delay E) d = (n, d') \<Longrightarrow> R d d'"
begin

lemma keeps_insertOutboxEvent: "keeps R (insertOutboxEvent e)"
  unfolding insertOutboxEvent_def by (intro keeps_map_err keeps_exec R_insert_outbox)

lemma keeps_wallet_insertOutboxEvent: "keeps R (wallet_insertOutboxEvent e)"
  unfolding wallet_insertOutboxEvent_def by (intro keeps_map_err keeps_exec R_insert_outbox)

lemma keeps_insert_command_row: "(\<And>u. written (row u)) \<Longrightarrow> keeps R (insert_command_row c i row)"
  unfolding insert_command_row_def
  by (intro keeps_map_err keeps_sql) (auto simp: res_bind_eq_Inr intro: R_insert_wager)

lemma keeps_exec_update_wallet: "keeps R (exec_update_wallet c wallet now)"
  unfolding exec_update_wallet_def
  by (intro keeps_map_err keeps_sql) (auto simp: res_bind_eq_Inr intro: R_update_wallet)

lemma keeps_exec_insert_ledger: "keeps R (exec_insert_ledger c wallet t dir amt before now)"
  unfolding exec_insert_ledger_def
  by (intro keeps_bind keeps_uuid_New keeps_map_err keeps_sql)
    (auto simp: res_bind_eq_Inr intro: R_insert_ledger)

lemma keeps_insertProcessedEvents: "keeps R (insertProcessedEvents t k wallet amt before dir c ca now)"
  unfolding insertProcessedEvents_def by (intro keeps_intros keeps_insertOutboxEvent)

lemma keeps_insertRejectedEvent: "keeps R (insertRejectedEvent t i p k f c ca now)"
  unfolding insertRejectedEvent_def by (intro keeps_intros keeps_insertOutboxEvent)

lemma keeps_persistRejected: "keeps R (persistRejectedTransaction cmd h wallet f ref)"
  unfolding persistRejectedTransaction_def
  by (intro keeps_intros keeps_insert_command_row keeps_insertRejectedEvent written_command_row)

lemma keeps_persistPending:
  "requiresReferenceResolution (cmdRequest cmd) \<Longrightarrow> reqReferenceExternalTransactionID (cmdRequest cmd) \<noteq> [] \<Longrightarrow>
     keeps R (persistPendingReference cmd h bal now)"
  unfolding persistPendingReference_def insertPendingReferenceEvent_def
  by (intro keeps_intros keeps_insert_command_row keeps_insertOutboxEvent)
    (auto simp: written_def names_reference_def command_row_def Let_def requiresReferenceResolution_def some_nonempty_def)

lemma keeps_findReferenced: "keeps R (findReferencedTransaction q)"
  unfolding findReferencedTransaction_def by (intro keeps_intros)

lemma keeps_alreadyReversed: "keeps R (referenceAlreadyReversed i)"
  unfolding referenceAlreadyReversed_def by (intro keeps_intros)

lemma keeps_findReplay: "keeps R (findIdempotentReplay p k h)"
  unfolding findIdempotentReplay_def by (intro keeps_intros)

lemma keeps_lockWallet: "keeps R (lockWallet i)"
  unfolding lockWallet_def by (intro keeps_intros)

lemma keeps_phase:
  "(\<And>r. keeps R (f r)) \<Longrightarrow> (\<And>a. keeps R (k a)) \<Longrightarrow> keeps R (case p of Done r \<Rightarrow> f r | Continue a \<Rightarrow> k a)"
  by (cases p) simp_all

lemma keeps_process_reversal: "keeps R (process_reversal cmd h wallet found)"
  unfolding process_reversal_def by (intro keeps_intros keeps_persistRejected keeps_alreadyReversed)

lemma keeps_process_reference: "keeps R (process_reference cmd h wallet)"
proof (cases "reqReferenceExternalTransactionID (cmdRequest cmd) = []")
  case True
  then show ?thesis
    by (auto simp: process_reference_def findReferencedTransaction_def keeps_def tx_bind_def tx_fail_def R_refl tx_return_def)
next
  case False
  then show ?thesis
    unfolding process_reference_def
    by (intro keeps_intros keeps_findReferenced keeps_persistPending keeps_persistRejected keeps_process_reversal) simp_all
qed

lemma keeps_process_move: "keeps R (process_move cmd h wallet ref mv now)"
  unfolding process_move_def credit_step_def debit_step_def Let_def
  by (intro keeps_intros keeps_persistRejected)

lemma keeps_process_persist: "keeps R (process_persist cmd h wallet before ref mv now)"
  unfolding process_persist_def Let_def
  by (intro keeps_intros keeps_insert_command_row keeps_exec_update_wallet keeps_exec_insert_ledger
      keeps_insertProcessedEvents written_command_row)

lemma keeps_process_locked: "keeps R (process_locked cmd h)"
  unfolding process_locked_def process_new_def process_decide_def externalTransactionExists_def Let_def
  by (intro keeps_intros keeps_phase keeps_lockWallet keeps_findReplay keeps_process_reference
      keeps_process_move keeps_process_persist)

lemma keeps_process_begin: "keeps R (process_begin cmd)"
  unfolding process_begin_def Let_def by (intro keeps_intros keeps_findReplay)

lemma keeps_ProcessTx: "keeps R (ProcessTx cmd)"
  unfolding ProcessTx_def
  by (intro keeps_intros keeps_phase keeps_process_begin keeps_process_locked)

lemma keeps_exec_update_pending:
  "(\<And>d n d'. update_pending i f d = Inr (n, d') \<Longrightarrow> R d d') \<Longrightarrow> keeps R (exec_update_pending c no i f)"
  unfolding exec_update_pending_def by (intro keeps_intros keeps_sql) auto

lemma keeps_schedule: "keeps R (schedulePendingReferenceRetry p now)"
  unfolding schedulePendingReferenceRetry_def Let_def
  by (intro keeps_exec_update_pending) (rule R_reschedule)

lemma keeps_rejectPending: "keeps R (rejectPendingReference p wallet f now ref)"
  unfolding rejectPendingReference_def
  by (intro keeps_intros keeps_exec_update_pending keeps_insertRejectedEvent) (rule R_reject)

lemma keeps_reject_and_commit: "keeps R (reject_and_commit c p wallet f now ref)"
  unfolding reject_and_commit_def by (intro keeps_intros keeps_rejectPending)

lemma keeps_resolve_persist: "keeps R (resolve_persist p wallet before u dir now)"
  unfolding resolve_persist_def Let_def
  by (intro keeps_intros keeps_exec_update_wallet keeps_exec_insert_ledger keeps_exec_update_pending
      keeps_insertProcessedEvents) (rule R_processed)

lemma keeps_resolve_move: "keeps R (resolve_move p wallet now u dir)"
  unfolding resolve_move_def Let_def
  by (intro keeps_intros keeps_resolve_persist keeps_reject_and_commit)

lemma keeps_resolve_pending: "keeps R (resolve_pending p)"
  unfolding resolve_pending_def resolve_reference_def resolve_processed_def
  by (intro keeps_intros keeps_lockWallet keeps_reject_and_commit keeps_findReferenced
      keeps_schedule keeps_alreadyReversed keeps_resolve_move)

lemma keeps_resolve_tx: "keeps R resolve_tx"
  unfolding resolve_tx_def findDuePendingReference_def by (intro keeps_intros keeps_resolve_pending)

lemma keeps_create_tx: "keeps R (create_tx i wallet now)"
  unfolding create_tx_def createOpeningTransaction_def
  by (intro keeps_intros keeps_exec keeps_wallet_insertOutboxEvent)
    (auto intro: R_insert_wallet R_insert_wager R_insert_ledger written_command_row)

lemma keeps_markPublished: "keeps R (markPublished i)"
  unfolding markPublished_def exec_update_outbox_def
  by (intro keeps_intros keeps_sql) (auto intro: R_mark)

lemma keeps_scheduleRetry: "keeps R (scheduleRetry e)"
  unfolding scheduleRetry_def exec_update_outbox_def Let_def
  by (intro keeps_intros keeps_sql) (auto intro: R_retry)

lemma keeps_publish_loop: "keeps R (publish_loop publish es done n)"
  by (induction es arbitrary: "done" n)
    (simp_all, intro keeps_intros, auto intro!: keeps_intros keeps_markPublished keeps_scheduleRetry)

lemma keeps_batch_tx: "keeps R (batch_tx publish)"
  unfolding batch_tx_def findPending_def by (intro keeps_intros keeps_publish_loop)

lemma keeps_reconcile_tx: "keeps R (reconcile_tx i)"
  unfolding reconcile_tx_def loadReconciliationWallet_def loadReconciliationLedger_def
  by (intro keeps_intros)

lemmas keeps_programs = keeps_ProcessTx keeps_resolve_tx keeps_create_tx keeps_batch_tx
  keeps_reconcile_tx

lemma Service_Process_R: "R (db w) (fst (snd (Service_Process E cmd w m)))"
  by (simp add: Service_Process_def Let_def case_prod_unfold run_tx_R keeps_programs)

lemma ResolveOne_R: "R (db w) (fst (snd (ResolveOne E w m)))"
  by (auto simp: ResolveOne_def split: prod.splits sum.splits dest: run_tx_RD [OF _ keeps_resolve_tx])

lemma Wallet_Create_R: "R d (snd (Wallet_Create E cmd d))"
  using run_tx_R [OF keeps_create_tx, of "(start_world d)\<lparr>now_count := 1, uuid_count := 1\<rparr>"]
  by (auto simp: Wallet_Create_def Let_def R_refl split: sum.splits)

lemma PublishBatch_R: "R d (fst (snd (PublishBatch E publish d m)))"
  by (auto simp: PublishBatch_def split: prod.splits sum.splits dest: run_tx_RD [OF _ keeps_batch_tx])

lemma Wallet_Reconcile_R: "R d (fst (snd (Wallet_Reconcile E i d m)))"
  by (auto simp: Wallet_Reconcile_def R_refl split: option.splits prod.splits sum.splits
      dest: run_tx_RD [OF _ keeps_reconcile_tx])

end

text \<open>With the inbox, every program.\<close>

locale db_contract = wager_contract +
  assumes R_insert_inbox: "insert_inbox ir d = Inr (n, d') \<Longrightarrow> R d d'"
    and R_complete: "update_inbox (\<lambda>r. inbox_key c m r \<and> i_completed_at r = None)
          (\<lambda>r. r\<lparr>i_completed_at := Some now\<rparr>) d = (n, d') \<Longrightarrow> R d d'"
begin

lemma keeps_Register: "keeps R (Register c m p)"
  unfolding Register_def Let_def
  by (intro keeps_intros keeps_sql) (auto intro: R_insert_inbox)

lemma keeps_Complete: "keeps R (Complete c m)"
  unfolding Complete_def by (intro keeps_intros keeps_sql) (auto intro: R_complete)

lemma keeps_message_tx: "keeps R (message_tx cmd)"
  unfolding message_tx_def by (intro keeps_intros keeps_Register keeps_ProcessTx keeps_Complete)

lemma MessageProcessor_Process_R: "R (db w) (fst (snd (MessageProcessor_Process E cmd w m)))"
  by (simp add: MessageProcessor_Process_def Let_def case_prod_unfold run_tx_R keeps_message_tx R_refl)

end

end
