(* ===== verification/Schema_Invariant.thy ===== *)
theory Schema_Invariant
  imports Db_Contract
begin

text \<open>
  The first relation of \<open>db_contract\<close>: no program leaves the database in violation of a
  declared constraint.
\<close>

section \<open>Constraints\<close>

definition schema_ok :: "database \<Rightarrow> bool" where
  "schema_ok d \<longleftrightarrow>
     table_ok wallet_checks wallet_uniques (wallets d)
     \<and> table_ok wager_checks wager_uniques (wager_transactions d)
     \<and> list_all wager_enums (wager_transactions d)
     \<and> table_ok ledger_checks ledger_uniques (ledger_entries d)
     \<and> list_all (\<lambda>l. l_direction l = DirectionCredit \<or> l_direction l = DirectionDebit) (ledger_entries d)
     \<and> unique_violation inbox_uniques (inbox_messages d) = None
     \<and> list_all inbox_widths (inbox_messages d)
     \<and> table_ok outbox_checks outbox_uniques (outbox_events d)
     \<and> list_all (\<lambda>r. wager_foreign_keys d r = None) (wager_transactions d)
     \<and> list_all (\<lambda>l. ledger_foreign_keys d l = None) (ledger_entries d)"

definition empty_database :: database where
  "empty_database =
     \<lparr>wallets = [], wager_transactions = [], ledger_entries = [], inbox_messages = [], outbox_events = []\<rparr>"

lemma table_ok_Nil [simp]: "table_ok cs us []"
proof -
  have "unique_violation us [] = None"
    by (induction us) (auto simp: conflict_free_def)
  then show ?thesis by (simp add: table_ok_def)
qed

lemma schema_ok_empty: "schema_ok empty_database"
  by (simp add: schema_ok_def empty_database_def inbox_uniques_def conflict_free_def)

lemma table_ok_update_rows:
  "table_ok cs us rs \<Longrightarrow> store cs us (map f (filter p rs)) (update_rows p f rs) = None \<Longrightarrow>
   table_ok cs us (update_rows p f rs)"
  unfolding update_rows_def by (rule table_ok_update)

text \<open>An update that touches no unique column and keeps the checks keeps the table.\<close>

lemma conflict_free_map:
  "(\<And>a b. conf (g a) (g b) \<longleftrightarrow> conf a b) \<Longrightarrow> conflict_free conf (map g rs) \<longleftrightarrow> conflict_free conf rs"
  by (simp add: conflict_free_def sorted_wrt_map)

lemma wager_foreign_keys_mono:
  "wager_foreign_keys d r = None \<Longrightarrow> w_id ` set (wallets d) \<subseteq> w_id ` set (wallets d') \<Longrightarrow>
   t_id ` set (wager_transactions d) \<subseteq> t_id ` set (wager_transactions d') \<Longrightarrow>
   wager_foreign_keys d' r = None"
  by (auto simp: wager_foreign_keys_def split: option.splits if_splits)

lemma ledger_foreign_keys_mono:
  "ledger_foreign_keys d l = None \<Longrightarrow> w_id ` set (wallets d) \<subseteq> w_id ` set (wallets d') \<Longrightarrow>
   t_id ` set (wager_transactions d) \<subseteq> t_id ` set (wager_transactions d') \<Longrightarrow>
   ledger_foreign_keys d' l = None"
  by (auto simp: ledger_foreign_keys_def split: if_splits)

lemma foreign_keys_mono:
  assumes "w_id ` set (wallets d) \<subseteq> w_id ` set (wallets d')"
    and "t_id ` set (wager_transactions d) \<subseteq> t_id ` set (wager_transactions d')"
  shows "list_all (\<lambda>r. wager_foreign_keys d r = None) rs \<Longrightarrow> list_all (\<lambda>r. wager_foreign_keys d' r = None) rs"
    and "list_all (\<lambda>l. ledger_foreign_keys d l = None) ls \<Longrightarrow> list_all (\<lambda>l. ledger_foreign_keys d' l = None) ls"
  using assms by (auto simp: list_all_iff intro: wager_foreign_keys_mono ledger_foreign_keys_mono)

lemma foreign_keys_frame [simp]:
  "wager_foreign_keys (d\<lparr>ledger_entries := ls\<rparr>) r = wager_foreign_keys d r"
  "wager_foreign_keys (d\<lparr>inbox_messages := ib\<rparr>) r = wager_foreign_keys d r"
  "wager_foreign_keys (d\<lparr>outbox_events := ob\<rparr>) r = wager_foreign_keys d r"
  "ledger_foreign_keys (d\<lparr>ledger_entries := ls\<rparr>) l = ledger_foreign_keys d l"
  "ledger_foreign_keys (d\<lparr>inbox_messages := ib\<rparr>) l = ledger_foreign_keys d l"
  "ledger_foreign_keys (d\<lparr>outbox_events := ob\<rparr>) l = ledger_foreign_keys d l"
  by (simp_all add: wager_foreign_keys_def ledger_foreign_keys_def split: option.splits)

definition keeps_schema :: "database \<Rightarrow> database \<Rightarrow> bool" where
  "keeps_schema d d' \<longleftrightarrow> (schema_ok d \<longrightarrow> schema_ok d')"

lemma schema_update_pending:
  assumes ok: "schema_ok d" and up: "update_pending i f d = Inr (n, d')"
    and enums: "\<And>r. wager_enums r \<Longrightarrow> is_pending i r \<Longrightarrow> wager_enums (f r)"
    and ids: "\<And>r. t_id (f r) = t_id r"
  shows "schema_ok d'"
proof -
  let ?rs = "update_rows (is_pending i) f (wager_transactions d)"
  have d': "d' = d\<lparr>wager_transactions := ?rs\<rparr>"
    and st: "store wager_checks wager_uniques (map f (filter (is_pending i) (wager_transactions d))) ?rs = None"
    and fk: "\<forall>r \<in> set (wager_transactions d). is_pending i r \<longrightarrow> wager_foreign_keys d' (f r) = None"
    using update_pending_Inr [OF up] by auto
  have same: "t_id ` set ?rs = t_id ` set (wager_transactions d)"
    using arg_cong [OF map_update_rows [of t_id f "is_pending i" "wager_transactions d", OF ids], of set]
    by simp
  have "list_all (\<lambda>r. wager_foreign_keys d' r = None) ?rs"
    using fk foreign_keys_mono(1) [of d d' "wager_transactions d"] ok same
    by (auto simp: list_all_iff set_update_rows schema_ok_def d')
  moreover have "list_all (\<lambda>l. ledger_foreign_keys d' l = None) (ledger_entries d)"
    using foreign_keys_mono(2) [of d d' "ledger_entries d"] ok same by (simp add: schema_ok_def d')
  moreover have "list_all wager_enums ?rs"
    using ok enums by (auto simp: schema_ok_def list_all_iff set_update_rows)
  ultimately show ?thesis
    using ok st table_ok_update_rows by (auto simp: schema_ok_def d')
qed

lemma wager_enums_updates:
  "wager_enums r \<Longrightarrow> wager_enums (reschedule_row a t now r)"
  "wager_enums r \<Longrightarrow> wager_enums (reject_row c b ref now r)"
  "wager_enums r \<Longrightarrow> wager_enums (processed_row u b now r)"
  by (simp_all add: wager_enums_def reschedule_row_def reject_row_def processed_row_def)

lemma t_id_updates [simp]:
  "t_id (reschedule_row a t now r) = t_id r"
  "t_id (reject_row c b ref now r) = t_id r"
  "t_id (processed_row u b now r) = t_id r"
  by (simp_all add: reschedule_row_def reject_row_def processed_row_def)

lemma schema_update_wallet:
  assumes ok: "schema_ok d" and up: "update_wallet i b v now d = Inr d'"
  shows "schema_ok d'"
proof -
  let ?f = "\<lambda>r. r\<lparr>w_balance := b, w_version := v, w_updated_at := now\<rparr>"
  let ?rs = "update_rows (\<lambda>r. w_id r = i) ?f (wallets d)"
  have d': "d' = d\<lparr>wallets := ?rs\<rparr>"
    and st: "store wallet_checks wallet_uniques (map ?f (filter (\<lambda>r. w_id r = i) (wallets d))) ?rs = None"
    using up by (auto simp: update_wallet_Inr Let_def)
  have same: "w_id ` set ?rs = w_id ` set (wallets d)"
    using arg_cong [OF map_update_rows [of w_id ?f "\<lambda>r. w_id r = i" "wallets d"], of set] by simp
  show ?thesis
    using ok st same table_ok_update_rows foreign_keys_mono [of d d']
    by (auto simp: schema_ok_def d')
qed

lemma schema_inserts:
  assumes "schema_ok d"
  shows "insert_wallet wr d = Inr d' \<Longrightarrow> schema_ok d'"
    and "insert_wager tr d = Inr d' \<Longrightarrow> schema_ok d'"
    and "insert_ledger lr d = Inr d' \<Longrightarrow> schema_ok d'"
    and "insert_outbox evr d = Inr d' \<Longrightarrow> schema_ok d'"
  using assms foreign_keys_mono [of d d']
  by (auto simp: schema_ok_def insert_wallet_Inr insert_wager_Inr insert_ledger_Inr insert_outbox_Inr
      table_ok_insert list_all_iff)

lemma schema_insert_inbox: "schema_ok d \<Longrightarrow> insert_inbox ir d = Inr (n, d') \<Longrightarrow> schema_ok d'"
  by (auto simp: schema_ok_def insert_inbox_def inbox_uniques_def conflict_free_append
      split: if_splits)

lemma schema_update_inbox:
  assumes "schema_ok d" "update_inbox p f d = (n, d')"
    and "\<And>r. i_consumer_name (f r) = i_consumer_name r" "\<And>r. i_message_id (f r) = i_message_id r"
      "\<And>r. i_payload_hash (f r) = i_payload_hash r"
  shows "schema_ok d'"
  using assms
  by (auto simp: schema_ok_def update_inbox_def inbox_uniques_def inbox_widths_def list_all_iff update_rows_def
      conflict_free_map split: if_splits)

lemma schema_update_outbox:
  assumes "schema_ok d" "update_outbox p f d = (n, d')"
    and "\<And>r. o_id (f r) = o_id r" "\<And>r. 0 \<le> o_attempts r \<Longrightarrow> 0 \<le> o_attempts (f r)"
  shows "schema_ok d'"
  using assms
  by (auto simp: schema_ok_def update_outbox_def outbox_uniques_def outbox_checks_def table_ok_def
      update_rows_def conflict_free_map split: if_splits)

interpretation schema: db_contract keeps_schema
proof (unfold_locales, goal_cases)
  case (7 i b v now d d')
  then show ?case by (auto simp: keeps_schema_def intro: schema_update_wallet)
next
  case (8 i a t now d n d')
  then show ?case
    by (auto simp: keeps_schema_def intro: schema_update_pending wager_enums_updates)
next
  case (9 i c bal ref now d n d')
  then show ?case
    by (auto simp: keeps_schema_def intro: schema_update_pending wager_enums_updates)
next
  case (10 i u bal now d n d')
  then show ?case
    by (auto simp: keeps_schema_def intro: schema_update_pending wager_enums_updates)
next
  case (14 c m now d n d')
  then show ?case by (auto simp: keeps_schema_def intro: schema_update_inbox)
next
  case (11 i E d n d')
  then show ?case by (auto simp: keeps_schema_def mark_row_def intro: schema_update_outbox)
next
  case (12 i delay E d n d')
  then show ?case by (auto simp: keeps_schema_def retry_row_def intro: schema_update_outbox)
qed (auto simp: keeps_schema_def intro: schema_inserts schema_insert_inbox)

lemma schema_tables:
  assumes "schema_ok d"
  shows "table_ok wallet_checks wallet_uniques (wallets d)"
    "table_ok wager_checks wager_uniques (wager_transactions d)"
    "table_ok ledger_checks ledger_uniques (ledger_entries d)"
    "table_ok outbox_checks outbox_uniques (outbox_events d)"
  using assms by (simp_all add: schema_ok_def)

lemma wager_row_checks:
  assumes "schema_ok d" "r \<in> set (wager_transactions d)"
  shows "origin_metadata r" "amount_by_kind r" "reference_applicability r"
  using schema_tables(2) [OF assms(1)] assms(2)
  by (auto simp: table_ok_def wager_checks_def split: if_splits)

lemma wallet_row_checks:
  assumes "schema_ok d" "r \<in> set (wallets d)"
  shows "0 \<le> sint (w_balance r)" "1 \<le> sint (w_version r)"
  using schema_tables(1) [OF assms(1)] assms(2)
  by (auto simp: table_ok_def wallet_checks_def word_sle_eq split: if_splits)

lemma ledger_row_checks:
  assumes "schema_ok d" "r \<in> set (ledger_entries d)"
  shows "ledger_arithmetic r" "0 < sint (l_amount r)"
  using schema_tables(3) [OF assms(1)] assms(2)
  by (auto simp: table_ok_def ledger_checks_def word_sless_alt split: if_splits)

end
