(* ===== verification/History.thy ===== *)
theory History
  imports Schema_Invariant
begin

text \<open>
  The second relation of \<open>db_contract\<close>: programs only extend history. Rows are never
  removed and keep their identity; ledger entries never change; a wager transaction
  changes only while it is PENDING_REFERENCE, a completed inbox message and a published
  event never again.
\<close>

section \<open>Tables that only grow\<close>

definition grows :: "('r \<Rightarrow> 'r \<Rightarrow> bool) \<Rightarrow> 'r list \<Rightarrow> 'r list \<Rightarrow> bool" where
  "grows P xs ys \<longleftrightarrow> length xs \<le> length ys \<and> (\<forall>i < length xs. P (xs ! i) (ys ! i))"

lemma grows_refl: "(\<And>x. P x x) \<Longrightarrow> grows P xs xs"
  by (simp add: grows_def)

lemma grows_trans:
  "(\<And>x y z. P x y \<Longrightarrow> P y z \<Longrightarrow> P x z) \<Longrightarrow> grows P xs ys \<Longrightarrow> grows P ys zs \<Longrightarrow> grows P xs zs"
  unfolding grows_def by (meson le_trans less_le_trans)

lemma grows_append: "(\<And>x. P x x) \<Longrightarrow> grows P xs (xs @ ys)"
  by (simp add: grows_def nth_append)

lemma grows_update_rows:
  "(\<And>x. P x x) \<Longrightarrow> (\<And>x. p x \<Longrightarrow> P x (f x)) \<Longrightarrow> grows P xs (update_rows p f xs)"
  by (simp add: grows_def update_rows_def)

lemma growsD: "grows P xs ys \<Longrightarrow> x \<in> set xs \<Longrightarrow> \<exists>y \<in> set ys. P x y"
  unfolding grows_def by (metis in_set_conv_nth less_le_trans)

section \<open>How a row may change\<close>

definition wallet_evolves :: "wallet_row \<Rightarrow> wallet_row \<Rightarrow> bool" where
  "wallet_evolves a b \<longleftrightarrow>
     w_id b = w_id a \<and> w_player_id b = w_player_id a \<and> w_currency b = w_currency a
     \<and> w_created_at b = w_created_at a"

text \<open>The columns that say what was asked for.\<close>

definition same_request :: "wager_row \<Rightarrow> wager_row \<Rightarrow> bool" where
  "same_request a b \<longleftrightarrow>
     t_id b = t_id a \<and> t_provider_id b = t_provider_id a
     \<and> t_external_transaction_id b = t_external_transaction_id a
     \<and> t_idempotency_key b = t_idempotency_key a \<and> t_payload_hash b = t_payload_hash a
     \<and> t_wallet_id b = t_wallet_id a \<and> t_player_id b = t_player_id a
     \<and> t_round_id b = t_round_id a \<and> t_game_id b = t_game_id a \<and> t_kind b = t_kind a
     \<and> t_amount b = t_amount a \<and> t_currency b = t_currency a
     \<and> t_reference_external_transaction_id b = t_reference_external_transaction_id a
     \<and> t_created_at b = t_created_at a \<and> t_reference_expires_at b = t_reference_expires_at a"

definition wager_evolves :: "wager_row \<Rightarrow> wager_row \<Rightarrow> bool" where
  "wager_evolves a b \<longleftrightarrow>
     b = a
     \<or> (t_state a = WagerStatePendingReference \<and> same_request a b
        \<and> t_state b \<in> {WagerStatePendingReference, WagerStateProcessed, WagerStateRejected})"

definition inbox_evolves :: "inbox_row \<Rightarrow> inbox_row \<Rightarrow> bool" where
  "inbox_evolves a b \<longleftrightarrow>
     b = a \<or> (i_completed_at a = None \<and> i_consumer_name b = i_consumer_name a
              \<and> i_message_id b = i_message_id a \<and> i_payload_hash b = i_payload_hash a
              \<and> i_received_at b = i_received_at a)"

definition outbox_evolves :: "outbox_row \<Rightarrow> outbox_row \<Rightarrow> bool" where
  "outbox_evolves a b \<longleftrightarrow>
     b = a \<or> (o_published_at a = None \<and> o_id b = o_id a \<and> o_aggregate_id b = o_aggregate_id a
              \<and> o_event_type b = o_event_type a \<and> o_payload b = o_payload a
              \<and> o_occurred_at b = o_occurred_at a)"

definition extends_history :: "database \<Rightarrow> database \<Rightarrow> bool" where
  "extends_history d d' \<longleftrightarrow>
     grows wallet_evolves (wallets d) (wallets d')
     \<and> grows wager_evolves (wager_transactions d) (wager_transactions d')
     \<and> grows (\<lambda>a b. b = a) (ledger_entries d) (ledger_entries d')
     \<and> grows inbox_evolves (inbox_messages d) (inbox_messages d')
     \<and> grows outbox_evolves (outbox_events d) (outbox_events d')"

lemma evolves_refl [simp]:
  "wallet_evolves a a" "wager_evolves t t" "inbox_evolves i i" "outbox_evolves e e"
  by (simp_all add: wallet_evolves_def wager_evolves_def inbox_evolves_def outbox_evolves_def)

lemma same_request_trans: "same_request a b \<Longrightarrow> same_request b c \<Longrightarrow> same_request a c"
  by (simp add: same_request_def)

lemma evolves_trans:
  "wallet_evolves a b \<Longrightarrow> wallet_evolves b c \<Longrightarrow> wallet_evolves a c"
  "wager_evolves t u \<Longrightarrow> wager_evolves u v \<Longrightarrow> wager_evolves t v"
  "inbox_evolves i j \<Longrightarrow> inbox_evolves j k \<Longrightarrow> inbox_evolves i k"
  "outbox_evolves e f \<Longrightarrow> outbox_evolves f g \<Longrightarrow> outbox_evolves e g"
  by (auto simp: wallet_evolves_def wager_evolves_def inbox_evolves_def outbox_evolves_def
      intro: same_request_trans)

lemma extends_history_refl: "extends_history d d"
  by (simp add: extends_history_def grows_refl)

lemma extends_history_trans:
  assumes "extends_history a b" "extends_history b c"
  shows "extends_history a c"
proof -
  note ab = assms(1) [unfolded extends_history_def] and bc = assms(2) [unfolded extends_history_def]
  have "grows wallet_evolves (wallets a) (wallets c)"
    by (rule grows_trans [OF evolves_trans(1)], assumption+) (use ab bc in blast)+
  moreover have "grows wager_evolves (wager_transactions a) (wager_transactions c)"
    by (rule grows_trans [OF evolves_trans(2)], assumption+) (use ab bc in blast)+
  moreover have "grows inbox_evolves (inbox_messages a) (inbox_messages c)"
    by (rule grows_trans [OF evolves_trans(3)], assumption+) (use ab bc in blast)+
  moreover have "grows outbox_evolves (outbox_events a) (outbox_events c)"
    by (rule grows_trans [OF evolves_trans(4)], assumption+) (use ab bc in blast)+
  moreover have "grows (\<lambda>x y. y = x) (ledger_entries a) (ledger_entries c)"
    by (rule grows_trans [of "\<lambda>x y. y = x" _ "ledger_entries b"]) (use ab bc in auto)
  ultimately show ?thesis unfolding extends_history_def by blast
qed

lemma wager_evolves_updates:
  "is_pending i r \<Longrightarrow> wager_evolves r (reschedule_row a t now r)"
  "is_pending i r \<Longrightarrow> wager_evolves r (reject_row c b ref now r)"
  "is_pending i r \<Longrightarrow> wager_evolves r (processed_row u b now r)"
  by (simp_all add: wager_evolves_def is_pending_def reschedule_row_def reject_row_def
      processed_row_def same_request_def)

lemma history_update_pending:
  "update_pending i f d = Inr (n, d') \<Longrightarrow> (\<And>r. is_pending i r \<Longrightarrow> wager_evolves r (f r)) \<Longrightarrow>
     extends_history d d'"
  by (drule update_pending_Inr) (auto simp: extends_history_def grows_refl intro: grows_update_rows)

interpretation history: db_contract extends_history
proof (unfold_locales, goal_cases)
  case (1 d) show ?case by (rule extends_history_refl)
next
  case (2 a b c) then show ?case by (rule extends_history_trans)
next
  case (7 i b v now d d')
  then show ?case
    by (auto simp: update_wallet_Inr Let_def extends_history_def grows_refl wallet_evolves_def
        intro!: grows_update_rows)
next
  case (8 i a t now d n d')
  then show ?case by (rule history_update_pending) (rule wager_evolves_updates)
next
  case (9 i c bal ref now d n d')
  then show ?case by (rule history_update_pending) (rule wager_evolves_updates)
next
  case (10 i u bal now d n d')
  then show ?case by (rule history_update_pending) (rule wager_evolves_updates)
next
  case (14 c m now d n d')
  then show ?case
    by (auto simp: update_inbox_def extends_history_def grows_refl inbox_evolves_def intro!: grows_update_rows)
next
  case (11 i E d n d')
  then show ?case
    by (auto simp: update_outbox_def extends_history_def grows_refl outbox_evolves_def mark_row_def
        unpublished_def intro!: grows_update_rows)
next
  case (12 i delay E d n d')
  then show ?case
    by (auto simp: update_outbox_def extends_history_def grows_refl outbox_evolves_def retry_row_def
        unpublished_def intro!: grows_update_rows)
qed (auto simp: insert_wallet_Inr insert_wager_Inr insert_ledger_Inr insert_outbox_Inr insert_inbox_def
    extends_history_def grows_refl intro: grows_append
    split: if_splits)

lemma extends_history_ledger:
  "extends_history d d' \<Longrightarrow> \<exists>new. ledger_entries d' = ledger_entries d @ new"
proof -
  assume "extends_history d d'"
  then have "take (length (ledger_entries d)) (ledger_entries d') = ledger_entries d"
    by (intro nth_equalityI) (simp_all add: extends_history_def grows_def)
  then show ?thesis by (metis append_take_drop_id)
qed

lemma extends_history_terminal:
  assumes "extends_history d d'" "r \<in> set (wager_transactions d)" "t_state r \<noteq> WagerStatePendingReference"
  shows "r \<in> set (wager_transactions d')"
  using assms growsD [of wager_evolves "wager_transactions d" "wager_transactions d'" r]
  by (auto simp: extends_history_def wager_evolves_def)

end
