(* ===== verification/Books.thy ===== *)
theory Books
  imports History
begin

text \<open>
  The financial invariant. \<open>books d\<close>: each wallet's ledger is a chain from zero to the
  stored balance, its version counts its external movements, every processed
  money-moving transaction has a ledger entry of its amount, wallet and sign and every
  entry such a transaction, and every processed reference is one the code allows.
  \<open>financial_step\<close> is the abstract specification of what one committed transaction may do
  to money; it preserves \<open>books\<close>.
\<close>

section \<open>Movements\<close>

definition moves :: "wager_row \<Rightarrow> bool" where
  "moves r \<longleftrightarrow> t_state r = WagerStateProcessed \<and> t_kind r \<noteq> WagerKindLoss"

definition moving :: "database \<Rightarrow> wager_row set" where
  "moving d = {r \<in> set (wager_transactions d). moves r}"

definition wallet_ledger :: "uuid \<Rightarrow> database \<Rightarrow> ledger_row list" where
  "wallet_ledger i d = filter (\<lambda>l. l_wallet_id l = i) (ledger_entries d)"

fun chain :: "int64 \<Rightarrow> ledger_row list \<Rightarrow> int64 option" where
  "chain b [] = Some b"
| "chain b (l # ls) = (if l_balance_before l = b then chain (l_balance_after l) ls else None)"

definition entry_sign :: "ledger_row \<Rightarrow> int" where
  "entry_sign l = (if l_direction l = DirectionCredit then 1 else - 1)"

definition refers_to :: "wager_row \<Rightarrow> wager_row \<Rightarrow> bool" where
  "refers_to r r0 \<longleftrightarrow>
     t_referenced_transaction_id r = Some (t_id r0)
     \<and> t_provider_id r0 = t_provider_id r \<and> t_player_id r0 = t_player_id r
     \<and> t_wallet_id r0 = t_wallet_id r \<and> t_round_id r0 = t_round_id r
     \<and> t_currency r0 = t_currency r \<and> t_kind r0 \<in> referable (t_kind r)
     \<and> (t_kind r = WagerKindWin \<or> t_amount r0 = t_amount r)"

definition reference_ok :: "wager_row set \<Rightarrow> wager_row \<Rightarrow> bool" where
  "reference_ok M r \<longleftrightarrow>
     (if t_kind r = WagerKindRefund \<or> t_kind r = WagerKindRollback \<or> t_referenced_transaction_id r \<noteq> None
      then \<exists>r0 \<in> M. refers_to r r0 else True)"

text \<open>The sign of a movement: that of its kind, and for a ROLLBACK the opposite of what it reverses.\<close>

definition sign_ok :: "wager_row set \<Rightarrow> wager_row \<Rightarrow> int \<Rightarrow> bool" where
  "sign_ok M r s \<longleftrightarrow>
     (if t_kind r = WagerKindRollback
      then \<exists>r0 \<in> M. t_referenced_transaction_id r = Some (t_id r0)
             \<and> s = effect_sign WagerKindRollback (Some (t_kind r0))
      else s = effect_sign (t_kind r) None)"

definition entry_ok :: "wager_row set \<Rightarrow> wager_row \<Rightarrow> ledger_row \<Rightarrow> bool" where
  "entry_ok M r l \<longleftrightarrow>
     l_transaction_id l = t_id r \<and> l_wallet_id l = t_wallet_id r \<and> l_amount l = t_amount r
     \<and> t_result_balance r = Some (l_balance_after l) \<and> sign_ok M r (entry_sign l)"

definition external_movements :: "wager_row set \<Rightarrow> uuid \<Rightarrow> wager_row set" where
  "external_movements M i = {r \<in> M. t_kind r \<noteq> KindOpening \<and> t_wallet_id r = i}"

definition wallet_books :: "database \<Rightarrow> wallet_row \<Rightarrow> bool" where
  "wallet_books d w \<longleftrightarrow>
     chain 0 (wallet_ledger (w_id w) d) = Some (w_balance w)
     \<and> sint (w_version w) = 1 + int (card (external_movements (moving d) (w_id w)))"

definition books :: "database \<Rightarrow> bool" where
  "books d \<longleftrightarrow>
     (\<forall>w \<in> set (wallets d). wallet_books d w)
     \<and> (\<forall>r \<in> moving d. reference_ok (moving d) r \<and> (\<exists>l \<in> set (ledger_entries d). entry_ok (moving d) r l))
     \<and> (\<forall>l \<in> set (ledger_entries d). \<exists>r \<in> moving d. entry_ok (moving d) r l)"

section \<open>The abstract step\<close>

inductive financial_step :: "database \<Rightarrow> database \<Rightarrow> bool" where
  quiet: "wallets d' = wallets d \<Longrightarrow> ledger_entries d' = ledger_entries d \<Longrightarrow> moving d' = moving d \<Longrightarrow>
    financial_step d d'"
| moved: "w \<in> set (wallets d) \<Longrightarrow> r \<notin> moving d \<Longrightarrow> moving d' = insert r (moving d) \<Longrightarrow>
    ledger_entries d' = ledger_entries d @ [l] \<Longrightarrow>
    wallets d' = update_rows (\<lambda>x. w_id x = w_id w)
      (\<lambda>x. x\<lparr>w_balance := l_balance_after l, w_version := v, w_updated_at := now\<rparr>) (wallets d) \<Longrightarrow>
    sint v = sint (w_version w) + 1 \<Longrightarrow> l_balance_before l = w_balance w \<Longrightarrow> t_wallet_id r = w_id w \<Longrightarrow>
    t_kind r \<noteq> KindOpening \<Longrightarrow> reference_ok (moving d) r \<Longrightarrow> entry_ok (moving d) r l \<Longrightarrow>
    financial_step d d'"
| opened_empty: "wallets d' = wallets d @ [w] \<Longrightarrow> w_balance w = 0 \<Longrightarrow> w_version w = 1 \<Longrightarrow>
    ledger_entries d' = ledger_entries d \<Longrightarrow> moving d' = moving d \<Longrightarrow> financial_step d d'"
| opened: "wallets d' = wallets d @ [w] \<Longrightarrow> w_version w = 1 \<Longrightarrow> r \<notin> moving d \<Longrightarrow>
    moving d' = insert r (moving d) \<Longrightarrow> ledger_entries d' = ledger_entries d @ [l] \<Longrightarrow>
    l_balance_before l = 0 \<Longrightarrow> l_balance_after l = w_balance w \<Longrightarrow> t_kind r = KindOpening \<Longrightarrow>
    t_wallet_id r = w_id w \<Longrightarrow> reference_ok (moving d) r \<Longrightarrow> entry_ok (moving d) r l \<Longrightarrow>
    financial_step d d'"

section \<open>Preservation\<close>

lemma finite_moving [simp]: "finite (moving d)"
  by (simp add: moving_def)

lemma finite_external_movements [simp]: "finite M \<Longrightarrow> finite (external_movements M i)"
  by (simp add: external_movements_def)

lemma chain_append: "chain b (xs @ ys) = (case chain b xs of None \<Rightarrow> None | Some c \<Rightarrow> chain c ys)"
  by (induction xs arbitrary: b) auto

lemma reference_ok_mono: "reference_ok M r \<Longrightarrow> M \<subseteq> N \<Longrightarrow> reference_ok N r"
  by (auto simp: reference_ok_def split: if_splits)

lemma entry_ok_mono: "entry_ok M r l \<Longrightarrow> M \<subseteq> N \<Longrightarrow> entry_ok N r l"
  by (auto simp: entry_ok_def sign_ok_def split: if_splits)

lemma wallet_id_unique:
  "schema_ok d \<Longrightarrow> a \<in> set (wallets d) \<Longrightarrow> b \<in> set (wallets d) \<Longrightarrow> w_id a = w_id b \<Longrightarrow> a = b"
  unfolding schema_ok_def
  by (elim conjE table_ok_unique [where n = "''wallets_pkey''" and conf = "\<lambda>a b. w_id a = w_id b"])
    (simp_all add: wallet_uniques_def)

lemma find_wallet:
  assumes "schema_ok d" "w \<in> set (wallets d)"
  shows "List.find (\<lambda>r. w_id r = w_id w) (wallets d) = Some w"
  using assms(2) wallet_id_unique [OF assms(1)]
  by (cases "List.find (\<lambda>r. w_id r = w_id w) (wallets d)") (auto dest: find_SomeD find_NoneD)

lemma transaction_id_unique:
  "schema_ok d \<Longrightarrow> a \<in> set (wager_transactions d) \<Longrightarrow> b \<in> set (wager_transactions d) \<Longrightarrow> t_id a = t_id b \<Longrightarrow> a = b"
  unfolding schema_ok_def
  by (elim conjE table_ok_unique [where n = "''wager_transactions_pkey''" and conf = "\<lambda>a b. t_id a = t_id b"])
    (simp_all add: wager_uniques_def)

lemma ledger_wallet_known: "schema_ok d \<Longrightarrow> l \<in> set (ledger_entries d) \<Longrightarrow> l_wallet_id l \<in> w_id ` set (wallets d)"
  by (auto simp: schema_ok_def list_all_iff ledger_foreign_keys_def split: if_splits)

lemma wager_wallet_known:
  "schema_ok d \<Longrightarrow> r \<in> set (wager_transactions d) \<Longrightarrow> t_wallet_id r \<in> w_id ` set (wallets d)"
  by (auto simp: schema_ok_def list_all_iff wager_foreign_keys_def split: if_splits)

text \<open>A new movement with its entry keeps the correspondence of movements and entries.\<close>

lemma correspondence_insert:
  assumes "\<forall>r \<in> M. reference_ok M r \<and> (\<exists>l \<in> set ls. entry_ok M r l)"
    and "\<forall>l \<in> set ls. \<exists>r \<in> M. entry_ok M r l"
    and "reference_ok M r" "entry_ok M r l"
  shows "(\<forall>x \<in> insert r M. reference_ok (insert r M) x \<and> (\<exists>y \<in> set (ls @ [l]). entry_ok (insert r M) x y))
    \<and> (\<forall>y \<in> set (ls @ [l]). \<exists>x \<in> insert r M. entry_ok (insert r M) x y)"
proof -
  have sub: "M \<subseteq> insert r M" by blast
  show ?thesis
    using assms reference_ok_mono [OF _ sub] entry_ok_mono [OF _ sub] by (simp; blast)
qed

lemma wallet_ledger_snoc:
  "ledger_entries d' = ledger_entries d @ [l] \<Longrightarrow>
     wallet_ledger i d' = wallet_ledger i d @ (if l_wallet_id l = i then [l] else [])"
  by (simp add: wallet_ledger_def)

lemma external_movements_insert:
  "external_movements (insert r M) i =
     (if t_kind r \<noteq> KindOpening \<and> t_wallet_id r = i then insert r (external_movements M i)
      else external_movements M i)"
  by (auto simp: external_movements_def)

lemma wallet_books_moved:
  assumes ok: "schema_ok d" and old: "\<forall>x \<in> set (wallets d). wallet_books d x"
    and w: "w \<in> set (wallets d)" and r: "r \<notin> moving d" "moving d' = insert r (moving d)"
    and ld: "ledger_entries d' = ledger_entries d @ [l]"
    and ws: "wallets d' = update_rows (\<lambda>x. w_id x = w_id w)
      (\<lambda>x. x\<lparr>w_balance := l_balance_after l, w_version := v, w_updated_at := now\<rparr>) (wallets d)"
    and v: "sint v = sint (w_version w) + 1" and b: "l_balance_before l = w_balance w"
    and rw: "t_wallet_id r = w_id w" "t_kind r \<noteq> KindOpening" and e: "l_wallet_id l = t_wallet_id r"
    and x: "x \<in> set (wallets d')"
  shows "wallet_books d' x"
proof -
  from x ws consider (same) "x \<in> set (wallets d)" "w_id x \<noteq> w_id w"
    | (upd) y where "y \<in> set (wallets d)" "w_id y = w_id w"
        "x = y\<lparr>w_balance := l_balance_after l, w_version := v, w_updated_at := now\<rparr>"
    by (auto simp: set_update_rows)
  then show ?thesis
  proof cases
    case same
    with old e rw show ?thesis
      by (auto simp: wallet_books_def wallet_ledger_snoc [OF ld] r(2) external_movements_insert)
  next
    case (upd y)
    then have "y = w" using wallet_id_unique [OF ok] w by blast
    moreover have "r \<notin> external_movements (moving d) (w_id w)"
      using r(1) by (simp add: external_movements_def)
    ultimately show ?thesis
      using old w upd e rw v b
      by (simp add: wallet_books_def wallet_ledger_snoc [OF ld] r(2) external_movements_insert chain_append)
  qed
qed

lemma new_wallet_unknown:
  assumes ok: "schema_ok d" "schema_ok d'" and ws: "wallets d' = wallets d @ [w]"
  shows "wallet_ledger (w_id w) d = []" "external_movements (moving d) (w_id w) = {}"
    "\<And>x. x \<in> set (wallets d) \<Longrightarrow> w_id x \<noteq> w_id w"
proof -
  have cf: "conflict_free (\<lambda>a b. w_id a = w_id b) (wallets d @ [w])"
    using ok(2) ws by (auto simp: schema_ok_def table_ok_def unique_violation_None wallet_uniques_def split: if_splits)
  then show neq: "x \<in> set (wallets d) \<Longrightarrow> w_id x \<noteq> w_id w" for x
    by (auto simp: conflict_free_append)
  show "wallet_ledger (w_id w) d = []"
    using ledger_wallet_known [OF ok(1)] neq by (force simp: wallet_ledger_def filter_empty_conv)
  show "external_movements (moving d) (w_id w) = {}"
    using wager_wallet_known [OF ok(1)] neq by (force simp: external_movements_def moving_def)
qed

lemma wallet_books_frame:
  "wallet_ledger (w_id x) d' = wallet_ledger (w_id x) d \<Longrightarrow>
   external_movements (moving d') (w_id x) = external_movements (moving d) (w_id x) \<Longrightarrow>
   wallet_books d' x \<longleftrightarrow> wallet_books d x"
  by (simp add: wallet_books_def)

lemma financial_step_books:
  assumes "financial_step d d'" "schema_ok d" "schema_ok d'" "books d"
  shows "books d'"
  using assms
proof cases
  case quiet
  then have "wallet_books d' x = wallet_books d x" for x
    by (simp add: wallet_books_def wallet_ledger_def)
  with quiet assms(4) show ?thesis by (simp add: books_def)
next
  case (moved w r l v now)
  have old: "\<forall>x \<in> set (wallets d). wallet_books d x"
    and corr: "\<forall>r \<in> moving d. reference_ok (moving d) r \<and> (\<exists>l \<in> set (ledger_entries d). entry_ok (moving d) r l)"
      "\<forall>l \<in> set (ledger_entries d). \<exists>r \<in> moving d. entry_ok (moving d) r l"
    using assms(4) unfolding books_def by blast+
  have e: "l_wallet_id l = t_wallet_id r" using moved(11) by (simp add: entry_ok_def)
  have "wallet_books d' x" if "x \<in> set (wallets d')" for x
    by (rule wallet_books_moved [OF assms(2) old moved(1-9) e that])
  then show ?thesis
    using correspondence_insert [OF corr moved(10,11)] unfolding books_def moved(3,4) by blast
next
  case (opened_empty w)
  note new = new_wallet_unknown [OF assms(2,3) opened_empty(1)]
  have led: "wallet_ledger i d' = wallet_ledger i d" for i
    using opened_empty by (simp add: wallet_ledger_def)
  have "wallet_books d' w"
    using opened_empty new by (simp add: wallet_books_def led)
  moreover have "wallet_books d' x = wallet_books d x" for x
    using opened_empty by (simp add: wallet_books_def led)
  ultimately show ?thesis
    using assms(4) opened_empty by (auto simp: books_def)
next
  case (opened w r l)
  note new = new_wallet_unknown [OF assms(2,3) opened(1)]
  have corr: "\<forall>r \<in> moving d. reference_ok (moving d) r \<and> (\<exists>l \<in> set (ledger_entries d). entry_ok (moving d) r l)"
      "\<forall>l \<in> set (ledger_entries d). \<exists>r \<in> moving d. entry_ok (moving d) r l"
    using assms(4) unfolding books_def by blast+
  have e: "l_wallet_id l = w_id w" using opened(9,11) by (simp add: entry_ok_def)
  have em: "external_movements (moving d') i = external_movements (moving d) i" for i
    using opened by (simp add: external_movements_insert)
  have "wallet_books d' w"
    using opened(1-3,5-9) new(1,2) e by (simp add: wallet_books_def em wallet_ledger_snoc [OF opened(5)])
  moreover have "wallet_books d' x" if "x \<in> set (wallets d)" for x
    using that assms(4) new(3) [OF that] e
    by (simp add: wallet_books_def em wallet_ledger_snoc [OF opened(5)] books_def)
  ultimately have "\<forall>x \<in> set (wallets d'). wallet_books d' x"
    using opened(1) by auto
  then show ?thesis
    using correspondence_insert [OF corr opened(10,11)] unfolding books_def opened(4,5) by blast
qed

lemma books_empty: "books empty_database"
  by (simp add: books_def moving_def empty_database_def)

end
