(* ===== verification/Wagering_Refinement.thy ===== *)
theory Wagering_Refinement
  imports Books
begin

text \<open>
  The wager command, the resolver and wallet creation refine \<open>financial_step\<close>: whatever
  branch a successful transaction takes, its effect on money is one abstract step.
\<close>

section \<open>Steps that move no money\<close>

definition quiet_rel :: "database \<Rightarrow> database \<Rightarrow> bool" where
  "quiet_rel d d' \<longleftrightarrow>
     wallets d' = wallets d \<and> ledger_entries d' = ledger_entries d \<and> moving d' = moving d"

interpretation quiet: tx_relation quiet_rel
  by unfold_locales (simp_all add: quiet_rel_def)

lemma moving_frame [simp]:
  "moving (d\<lparr>wallets := ws\<rparr>) = moving d"
  "moving (d\<lparr>ledger_entries := ls\<rparr>) = moving d"
  "moving (d\<lparr>inbox_messages := ib\<rparr>) = moving d"
  "moving (d\<lparr>outbox_events := ob\<rparr>) = moving d"
  by (simp_all add: moving_def)

lemma moving_snoc:
  "moving (d\<lparr>wager_transactions := wager_transactions d @ [r]\<rparr>) =
     (if moves r then insert r (moving d) else moving d)"
  by (auto simp: moving_def)

lemma moving_update:
  "moving (d\<lparr>wager_transactions := update_rows (is_pending i) f (wager_transactions d)\<rparr>) =
     {x \<in> f ` {r \<in> set (wager_transactions d). is_pending i r}. moves x} \<union> moving d"
  by (auto simp: moving_def set_update_rows moves_def is_pending_def)

lemma financial_step_quiet_rel: "quiet_rel d d' \<Longrightarrow> financial_step d d'"
  by (simp add: quiet_rel_def financial_step.quiet)

lemma financial_step_then_quiet:
  assumes "financial_step d d1" "quiet_rel d1 d2"
  shows "financial_step d d2"
  using assms(1)
proof cases
  case quiet
  then show ?thesis
    using assms(2) by (auto simp: quiet_rel_def intro: financial_step.quiet)
next
  case (moved w r l v now)
  then show ?thesis
    using assms(2) by (intro financial_step.moved [of w d r d2 l v now]) (auto simp: quiet_rel_def)
next
  case (opened_empty w)
  then show ?thesis
    using assms(2) by (intro financial_step.opened_empty [of d2 d w]) (auto simp: quiet_rel_def)
next
  case (opened w r l)
  then show ?thesis
    using assms(2) by (intro financial_step.opened [of d2 d w r l]) (auto simp: quiet_rel_def)
qed

lemma quiet_insertOutboxEvent: "keeps quiet_rel (insertOutboxEvent e)"
  unfolding insertOutboxEvent_def
  by (intro quiet.keeps_map_err quiet.keeps_exec) (auto simp: insert_outbox_Inr quiet_rel_def)

lemma quiet_wallet_insertOutboxEvent: "keeps quiet_rel (wallet_insertOutboxEvent e)"
  unfolding wallet_insertOutboxEvent_def
  by (intro quiet.keeps_map_err quiet.keeps_exec) (auto simp: insert_outbox_Inr quiet_rel_def)

lemma quiet_insertProcessedEvents: "keeps quiet_rel (insertProcessedEvents t k wallet amt before dir c ca now)"
  unfolding insertProcessedEvents_def by (intro quiet.keeps_intros quiet_insertOutboxEvent)

lemma quiet_insertRejectedEvent: "keeps quiet_rel (insertRejectedEvent t i p k f c ca now)"
  unfolding insertRejectedEvent_def by (intro quiet.keeps_intros quiet_insertOutboxEvent)

lemma quiet_insert_command_row:
  "(\<And>u. \<not> moves (row u)) \<Longrightarrow> keeps quiet_rel (insert_command_row c i row)"
  unfolding insert_command_row_def
  by (intro quiet.keeps_map_err quiet.keeps_sql)
    (auto simp: res_bind_eq_Inr insert_wager_Inr quiet_rel_def moving_snoc)

lemma quiet_persistRejected: "keeps quiet_rel (persistRejectedTransaction cmd h wallet f ref)"
  unfolding persistRejectedTransaction_def
  by (intro quiet.keeps_intros quiet_insert_command_row quiet_insertRejectedEvent)
    (simp add: moves_def command_row_def Let_def)

lemma quiet_persistPending: "keeps quiet_rel (persistPendingReference cmd h bal now)"
  unfolding persistPendingReference_def insertPendingReferenceEvent_def
  by (intro quiet.keeps_intros quiet_insert_command_row quiet_insertOutboxEvent)
    (simp add: moves_def command_row_def Let_def)

lemma quiet_process_reference: "keeps quiet_rel (process_reference cmd h wallet)"
  unfolding process_reference_def process_reversal_def findReferencedTransaction_def referenceAlreadyReversed_def
  by (intro quiet.keeps_intros quiet_persistPending quiet_persistRejected)

lemma quiet_process_move: "keeps quiet_rel (process_move cmd h wallet ref mv now)"
  unfolding process_move_def credit_step_def debit_step_def Let_def
  by (intro quiet.keeps_intros quiet_persistRejected)

lemma quiet_update_pending:
  assumes "\<And>r. is_pending i r \<Longrightarrow> \<not> moves (f r)"
  shows "keeps quiet_rel (exec_update_pending c no i f)"
  unfolding exec_update_pending_def
  by (intro quiet.keeps_intros quiet.keeps_sql)
    (auto dest!: update_pending_Inr simp: quiet_rel_def moving_update assms)

section \<open>Building blocks inverted\<close>

lemma insert_command_rowE [tx_elims]:
  assumes "insert_command_row c i row E w = Inr (x, w')"
  obtains u d where "fault E (stmt_count w) = None" "pg_uuid_in E i = Some u"
    "insert_wager (row u) (db w) = Inr d" "w' = w\<lparr>db := d, stmt_count := Suc (stmt_count w)\<rparr>"
  using assms unfolding insert_command_row_def
  by (auto elim!: tx_elims simp: res_bind_eq_Inr uuid_param_def split: option.splits)

lemma exec_update_walletE [tx_elims]:
  assumes "exec_update_wallet c wallet now E w = Inr (x, w')"
  obtains u d where "fault E (stmt_count w) = None" "pg_uuid_in E (ID wallet) = Some u"
    "update_wallet u (amount (Balance wallet)) (Version wallet) now (db w) = Inr d"
    "w' = w\<lparr>db := d, stmt_count := Suc (stmt_count w)\<rparr>"
  using assms unfolding exec_update_wallet_def
  by (auto elim!: tx_elims simp: res_bind_eq_Inr uuid_param_def split: option.splits)

lemma exec_insert_ledgerE [tx_elims]:
  assumes "exec_insert_ledger c wallet t dir amt before now E w = Inr (x, w')"
  obtains u d where "fault E (stmt_count w) = None" "pg_uuid_in E (ID wallet) = Some u"
    "insert_ledger \<lparr>l_id = new_uuid E (uuid_count w), l_wallet_id = u, l_transaction_id = t,
       l_direction = dir, l_amount = amount amt, l_balance_before = amount before,
       l_balance_after = amount (Balance wallet), l_created_at = now\<rparr> (db w) = Inr d"
    "db w' = d"
  using assms unfolding exec_insert_ledger_def
  by (auto elim!: tx_elims simp: res_bind_eq_Inr uuid_param_def split: option.splits)

lemma exec_update_pendingE [tx_elims]:
  assumes "exec_update_pending c no i f E w = Inr (x, w')"
  obtains d where "fault E (stmt_count w) = None" "update_pending i f (db w) = Inr (1, d)"
    "w' = w\<lparr>db := d, stmt_count := Suc (stmt_count w)\<rparr>"
  using assms unfolding exec_update_pending_def by (auto elim!: tx_elims split: if_splits)

lemma lockWalletE [tx_elims]:
  assumes "lockWallet i E w = Inr (wallet, w')"
  obtains u r where "fault E (stmt_count w) = None" "pg_uuid_in E i = Some u"
    "r \<in> set (wallets (db w))" "w_id r = u" "scan_wallet E r = Inr wallet"
    "w' = w\<lparr>stmt_count := Suc (stmt_count w)\<rparr>"
  using assms unfolding lockWallet_def
  by (auto elim!: tx_elims simp: res_bind_eq_Inr uuid_param_def dest!: find_SomeD split: option.splits)

lemma scan_wallet_Inr:
  "scan_wallet E r = Inr wallet \<Longrightarrow>
     ID wallet = uuid_String E (w_id r) \<and> PlayerID wallet = w_player_id r
     \<and> Balance wallet = NewMoney (w_balance r) (w_currency r) \<and> Version wallet = w_version r
     \<and> CreatedAt wallet = w_created_at r \<and> UpdatedAt wallet = w_updated_at r \<and> valid_wallet wallet"
  by (auto simp: scan_wallet_def ReconstituteWallet_Inr)

section \<open>The reference of a command\<close>

text \<open>What is known of a referenced row once it was found processed and valid.\<close>

definition good_reference :: "env \<Rightarrow> WagerRequest \<Rightarrow> database \<Rightarrow> wager_row \<Rightarrow> bool" where
  "good_reference E q d r0 \<longleftrightarrow>
     r0 \<in> set (wager_transactions d) \<and> t_state r0 = WagerStateProcessed
     \<and> t_provider_id r0 = Some (reqProviderID q)
     \<and> validateReference E q (scan_reference r0) = None"

definition reference_choice ::
  "env \<Rightarrow> WagerRequest \<Rightarrow> database \<Rightarrow> referencedTransaction option \<Rightarrow> movementDirection \<Rightarrow> bool" where
  "reference_choice E q d ref mv \<longleftrightarrow>
     (\<not> requiresReferenceResolution q \<and> ref = None \<and> mv = [])
     \<or> (\<exists>r0. good_reference E q d r0 \<and> ref = Some (scan_reference r0)
          \<and> (reqKind q = WagerKindWin \<and> mv = []
             \<or> reversalDirection (reqKind q) (scan_reference r0) = Inr mv
               \<and> \<not> list_ex (reverses (t_id r0)) (wager_transactions d)))"

lemma scan_reference_simps [simp]:
  "refID (scan_reference r) = t_id r" "refState (scan_reference r) = t_state r"
  "refKind (scan_reference r) = t_kind r" "refWalletID (scan_reference r) = t_wallet_id r"
  "refPlayerID (scan_reference r) = t_player_id r" "refProviderID (scan_reference r) = coalesce (t_provider_id r)"
  "refRoundID (scan_reference r) = coalesce (t_round_id r)"
  "currency (refAmount (scan_reference r)) = t_currency r" "amount (refAmount (scan_reference r)) = t_amount r"
  by (simp_all add: scan_reference_def)

lemma good_referenceI:
  assumes "List.find (external_identity (reqProviderID q) x) (wager_transactions d) = Some r0"
    and "t_state r0 = WagerStateProcessed" "validateReference E q (scan_reference r0) = None"
  shows "good_reference E q d r0"
  using assms by (auto simp: good_reference_def external_identity_def dest: find_SomeD)

lemma process_reversal_Continue:
  assumes "process_reversal cmd h wallet f E w = Inr (Continue (ref, mv), w')"
  shows "db w' = db w \<and> ref = Some f \<and> validateReference E (cmdRequest cmd) f = None
    \<and> (reqKind (cmdRequest cmd) = WagerKindWin \<and> mv = []
       \<or> reversalDirection (reqKind (cmdRequest cmd)) f = Inr mv
         \<and> \<not> list_ex (reverses (refID f)) (wager_transactions (db w)))"
  using assms unfolding process_reversal_def
  by (auto elim!: tx_elims split: option.splits if_splits)

lemma process_reference_Continue:
  assumes "process_reference cmd h wallet E w = Inr (Continue (ref, mv), w')"
  shows "db w' = db w \<and> reference_choice E (cmdRequest cmd) (db w) ref mv"
  using assms unfolding process_reference_def
  by (auto elim!: tx_elims split: option.splits if_splits dest!: process_reversal_Continue
      simp: reference_choice_def) (blast intro: good_referenceI)+

text \<open>The movement of the wallet.\<close>

lemma process_move_Continue:
  assumes "process_move cmd h wallet ref mv now E w = Inr (Continue wallet', w')"
    and "request_contract (cmdRequest cmd)"
  shows "w' = w \<and>
    (if reqKind (cmdRequest cmd) = WagerKindLoss then wallet' = wallet
     else 0 < units (reqAmount (cmdRequest cmd))
       \<and> moved wallet now ((if reqKind (cmdRequest cmd) = WagerKindBet then - 1
            else if reqKind (cmdRequest cmd) = WagerKindWin then 1 else movement_sign mv)
            * units (reqAmount (cmdRequest cmd))) wallet'
       \<and> (reqKind (cmdRequest cmd) \<in> {WagerKindRefund, WagerKindRollback} \<longrightarrow> mv = movementCredit \<or> mv = movementDebit))"
  using assms
  by (auto simp: process_move_def Let_def credit_step_def debit_step_def request_contract_def movement_sign_def
      elim!: tx_elims split: if_splits sum.splits dest!: Wallet_Credit_Inr Wallet_Debit_Inr)

section \<open>A movement in the books\<close>

lemma good_reference_row:
  assumes ok: "schema_ok d" and laws: "uuid_laws E" and good: "good_reference E q d r0"
    and r: "t_provider_id r = Some (reqProviderID q)" "t_player_id r = reqPlayerID q"
      "t_round_id r = Some (reqRoundID q)" "t_currency r = currency (reqAmount q)"
      "t_amount r = amount (reqAmount q)" "t_kind r = reqKind q"
      "t_referenced_transaction_id r = Some (t_id r0)"
    and wid: "pg_uuid_in E (reqWalletID q) = Some (t_wallet_id r)"
  shows "r0 \<in> moving d" "refers_to r r0"
proof -
  have v: "t_player_id r0 = reqPlayerID q" "uuid_String E (t_wallet_id r0) = reqWalletID q"
      "coalesce (t_round_id r0) = reqRoundID q" "t_currency r0 = currency (reqAmount q)"
      "t_kind r0 \<in> referable (reqKind q)"
      "reqKind q = WagerKindWin \<or> t_amount r0 = amount (reqAmount q)"
    and g: "r0 \<in> set (wager_transactions d)" "t_state r0 = WagerStateProcessed"
      "t_provider_id r0 = Some (reqProviderID q)"
    using good by (auto simp: good_reference_def validateReference_None)
  have k: "t_kind r0 \<in> {WagerKindBet, WagerKindWin, WagerKindRefund}"
    using v(5) by (auto simp: referable_def split: if_splits)
  with g show "r0 \<in> moving d" by (auto simp: moving_def moves_def)
  have "origin_metadata r0"
    by (rule wager_row_checks(1) [OF ok g(1)])
  with k have "t_round_id r0 \<noteq> None"
    by (cases "t_round_id r0") (auto simp: origin_metadata_def some_nonempty_def)
  with v(3) have "t_round_id r0 = Some (reqRoundID q)"
    by (auto simp: coalesce_def)
  moreover have "t_wallet_id r0 = t_wallet_id r"
    using wid v(2) uuid_laws_simps(1) [OF laws, of "t_wallet_id r0"] by simp
  ultimately show "refers_to r r0"
    using v g r by (simp add: refers_to_def)
qed

text \<open>The common part of a direct and a resolved movement.\<close>

lemma sign_of_direction:
  assumes contract: "reqKind q = WagerKindBet \<or> reqKind q = WagerKindWin \<or> mv = movementCredit \<or> mv = movementDebit"
    and choice: "reference_choice E q d ref mv"
    and kinds: "reqKind q \<in> {WagerKindBet, WagerKindWin, WagerKindRefund, WagerKindRollback}"
    and r: "t_kind r = reqKind q" "t_referenced_transaction_id r = map_option refID ref"
    and M: "\<And>r0. good_reference E q d r0 \<Longrightarrow> ref = Some (scan_reference r0) \<Longrightarrow> r0 \<in> M"
  shows "sign_ok M r (if ledger_direction (reqKind q) mv = DirectionCredit then 1 else - 1)"
    "(if ledger_direction (reqKind q) mv = DirectionCredit then 1 else - 1) =
      (if reqKind q = WagerKindBet then - 1 else if reqKind q = WagerKindWin then 1 else movement_sign mv)"
  using choice kinds contract r M
  by (auto simp: reference_choice_def sign_ok_def effect_sign_def ledger_direction_def movement_sign_def
      requiresReferenceResolution_def reversalDirection_def split: if_splits)
    (metis kinds_distinct)+

text \<open>Wallet update, ledger entry and quiet rest, after the transaction row is in place.\<close>

lemma movement_step:
  assumes ok: "schema_ok d" and laws: "uuid_laws E"
    and x: "x \<in> set (wallets d)"
    and r: "r \<notin> moving d" "t_wallet_id r = w_id x" "t_kind r \<noteq> KindOpening"
      "t_result_balance r = Some (amount (Balance wallet'))"
    and m3: "moving d3 = insert r (moving d)"
    and wal: "wallets d3 = update_rows (\<lambda>y. w_id y = w_id x)
        (\<lambda>y. y\<lparr>w_balance := amount (Balance wallet'), w_version := Version wallet', w_updated_at := now\<rparr>) (wallets d)"
    and led: "ledger_entries d3 = ledger_entries d @ [\<lparr>l_id = eid, l_wallet_id = w_id x,
        l_transaction_id = t_id r, l_direction = dir, l_amount = t_amount r, l_balance_before = w_balance x,
        l_balance_after = amount (Balance wallet'), l_created_at = now\<rparr>]"
    and ver: "sint (Version wallet') = sint (w_version x) + 1"
    and refs: "reference_ok (moving d) r"
    and sign: "sign_ok (moving d) r (if dir = DirectionCredit then 1 else - 1)"
  shows "financial_step d d3"
proof (rule financial_step.moved [OF x r(1) m3 led _ ver _ r(2,3) refs])
  show "wallets d3 = update_rows (\<lambda>y. w_id y = w_id x) (\<lambda>y. y\<lparr>w_balance := l_balance_after
      \<lparr>l_id = eid, l_wallet_id = w_id x, l_transaction_id = t_id r, l_direction = dir, l_amount = t_amount r,
       l_balance_before = w_balance x, l_balance_after = amount (Balance wallet'), l_created_at = now\<rparr>,
      w_version := Version wallet', w_updated_at := now\<rparr>) (wallets d)"
    using wal by simp
qed (use r sign in \<open>simp_all add: entry_ok_def entry_sign_def\<close>)

lemma command_row_simps [simp]:
  "t_id (command_row i cmd h s now u) = i"
  "t_provider_id (command_row i cmd h s now u) = Some (reqProviderID (cmdRequest cmd))"
  "t_wallet_id (command_row i cmd h s now u) = u" "t_kind (command_row i cmd h s now u) = reqKind (cmdRequest cmd)"
  "t_player_id (command_row i cmd h s now u) = reqPlayerID (cmdRequest cmd)"
  "t_round_id (command_row i cmd h s now u) = Some (reqRoundID (cmdRequest cmd))"
  "t_currency (command_row i cmd h s now u) = currency (reqAmount (cmdRequest cmd))"
  "t_amount (command_row i cmd h s now u) = amount (reqAmount (cmdRequest cmd))"
  "t_state (command_row i cmd h s now u) = s"
  "t_referenced_transaction_id (command_row i cmd h s now u) = None"
  by (simp_all add: command_row_def Let_def)

lemma insert_wager_fresh:
  "insert_wager r d = Inr d' \<Longrightarrow> r \<notin> set (wager_transactions d)"
  by (auto simp: insert_wager_Inr store_None unique_violation_None wager_uniques_def conflict_free_append
      split: if_splits)

lemma moves_kind: "moves r \<Longrightarrow> t_kind r \<noteq> WagerKindLoss"
  by (simp add: moves_def)

lemma persist_loss_step:
  assumes "process_persist cmd h wallet' before ref mv now E w = Inr (res, w')"
    and "reqKind (cmdRequest cmd) = WagerKindLoss"
  shows "financial_step (db w) (db w')"
proof -
  have "keeps quiet_rel (process_persist cmd h wallet' before ref mv now)"
    unfolding process_persist_def Let_def
    by (intro quiet.keeps_intros quiet_insert_command_row quiet_insertProcessedEvents)
      (simp_all add: moves_def assms(2))
  from keepsD [OF this assms(1)] show ?thesis by (rule financial_step_quiet_rel)
qed

text \<open>The three statements of a movement.\<close>

lemma persist_statements_step:
  assumes ok: "schema_ok d" and laws: "uuid_laws E" and x: "x \<in> set (wallets d)"
    and ins: "insert_wager r d = Inr d1"
    and upd: "update_wallet (w_id x) (amount (Balance wallet')) (Version wallet') now d1 = Inr d2"
    and led: "insert_ledger \<lparr>l_id = eid, l_wallet_id = w_id x, l_transaction_id = t_id r, l_direction = dir,
         l_amount = t_amount r, l_balance_before = w_balance x, l_balance_after = amount (Balance wallet'),
         l_created_at = now\<rparr> d2 = Inr d3"
    and r: "moves r" "t_wallet_id r = w_id x" "t_kind r \<noteq> KindOpening"
      "t_result_balance r = Some (amount (Balance wallet'))"
    and ver: "sint (Version wallet') = sint (w_version x) + 1"
    and refs: "reference_ok (moving d) r"
    and sign: "sign_ok (moving d) r (if dir = DirectionCredit then 1 else - 1)"
  shows "financial_step d d3"
proof -
  have fresh: "r \<notin> moving d"
    using insert_wager_fresh [OF ins] by (auto simp: moving_def)
  have d1: "moving d1 = insert r (moving d)" "wallets d1 = wallets d" "ledger_entries d1 = ledger_entries d"
    using ins r(1) by (simp_all add: insert_wager_Inr moving_snoc)
  have d2: "wallets d2 = update_rows (\<lambda>y. w_id y = w_id x)
        (\<lambda>y. y\<lparr>w_balance := amount (Balance wallet'), w_version := Version wallet', w_updated_at := now\<rparr>) (wallets d1)"
      "moving d2 = moving d1" "ledger_entries d2 = ledger_entries d1"
    using upd by (simp_all add: update_wallet_Inr Let_def)
  have d3: "wallets d3 = wallets d2" "moving d3 = moving d2"
      "ledger_entries d3 = ledger_entries d2 @ [\<lparr>l_id = eid, l_wallet_id = w_id x, l_transaction_id = t_id r,
         l_direction = dir, l_amount = t_amount r, l_balance_before = w_balance x,
         l_balance_after = amount (Balance wallet'), l_created_at = now\<rparr>]"
    using led by (simp_all add: insert_ledger_Inr)
  show ?thesis
    by (rule movement_step [OF ok laws x fresh r(2-4) _ _ _ ver refs sign])
      (simp_all add: d1 d2 d3)
qed

lemma process_persist_step:
  assumes run: "process_persist cmd h wallet' (Balance wallet) ref mv now E w = Inr (res, w')"
    and ok: "schema_ok (db w)" and laws: "uuid_laws E" and contract: "request_contract (cmdRequest cmd)"
    and x: "x \<in> set (wallets (db w))" "pg_uuid_in E (reqWalletID (cmdRequest cmd)) = Some (w_id x)"
      "scan_wallet E x = Inr wallet"
    and choice: "reference_choice E (cmdRequest cmd) (db w) ref mv"
    and move: "reqKind (cmdRequest cmd) \<noteq> WagerKindLoss \<Longrightarrow> ID wallet' = ID wallet \<and>
       sint (Version wallet') = sint (Version wallet) + 1
       \<and> (reqKind (cmdRequest cmd) \<in> {WagerKindRefund, WagerKindRollback} \<longrightarrow> mv = movementCredit \<or> mv = movementDebit)"
  shows "financial_step (db w) (db w')"
proof (cases "reqKind (cmdRequest cmd) = WagerKindLoss")
  case True
  with run show ?thesis by (rule persist_loss_step)
next
  case False
  let ?q = "cmdRequest cmd"
  let ?tid = "new_uuid E (uuid_count w)"
  let ?r = "(command_row ?tid cmd h WagerStateProcessed now (w_id x))
     \<lparr>t_referenced_transaction_id := map_option refID ref, t_result_balance := Some (amount (Balance wallet'))\<rparr>"
  note scan = scan_wallet_Inr [OF x(3)]
  obtain d1 d2 d3 eid where ins: "insert_wager ?r (db w) = Inr d1"
    and upd: "update_wallet (w_id x) (amount (Balance wallet')) (Version wallet') now d1 = Inr d2"
    and led: "insert_ledger \<lparr>l_id = eid, l_wallet_id = w_id x, l_transaction_id = t_id ?r,
         l_direction = ledger_direction (reqKind ?q) mv, l_amount = t_amount ?r,
         l_balance_before = w_balance x, l_balance_after = amount (Balance wallet'),
         l_created_at = now\<rparr> d2 = Inr d3"
    and rest: "quiet_rel d3 (db w')"
    using run False x(2) scan move [OF False] laws
    by (auto simp: process_persist_def Let_def uuid_laws_simps elim!: tx_elims
        dest!: keepsD [OF quiet_insertProcessedEvents])
  have good: "r0 \<in> moving (db w) \<and> refers_to ?r r0"
    if "good_reference E ?q (db w) r0" "ref = Some (scan_reference r0)" for r0
    using good_reference_row [OF ok laws that(1), of ?r] that(2) x(2) by simp
  have kinds: "reqKind ?q \<in> {WagerKindBet, WagerKindWin, WagerKindRefund, WagerKindRollback}"
    using contract False by (auto simp: request_contract_def)
  then have ko: "t_kind ?r \<noteq> KindOpening" by auto
  have refs: "reference_ok (moving (db w)) ?r"
    using choice good by (fastforce simp: reference_ok_def reference_choice_def requiresReferenceResolution_def)
  have sign: "sign_ok (moving (db w)) ?r (if ledger_direction (reqKind ?q) mv = DirectionCredit then 1 else - 1)"
    by (rule sign_of_direction(1) [OF _ choice kinds]) (use kinds move [OF False] good in auto)
  have "financial_step (db w) d3"
    by (rule persist_statements_step [OF ok laws x(1) ins upd led _ _ ko _ _ refs sign])
      (use False move [OF False] scan in \<open>simp_all add: moves_def\<close>)
  then show ?thesis using rest by (rule financial_step_then_quiet)
qed

section \<open>ProcessTx\<close>

lemma quiet_reads: "keeps quiet_rel (findIdempotentReplay p k h)" "keeps quiet_rel (lockWallet i)"
    "keeps quiet_rel (externalTransactionExists p x)"
  unfolding findIdempotentReplay_def lockWallet_def externalTransactionExists_def
  by (intro quiet.keeps_intros)+

lemma process_decide_step:
  assumes run: "process_decide cmd h wallet E w = Inr (res, w')"
    and ok: "schema_ok (db w)" and laws: "uuid_laws E" and contract: "request_contract (cmdRequest cmd)"
    and x: "x \<in> set (wallets (db w))" "pg_uuid_in E (reqWalletID (cmdRequest cmd)) = Some (w_id x)"
      "scan_wallet E x = Inr wallet"
  shows "financial_step (db w) (db w')"
proof -
  obtain p w1 where ref: "process_reference cmd h wallet E w = Inr (p, w1)"
    and rest: "(case p of Done result \<Rightarrow> tx_return result
      | Continue (reference, reversalMovement) \<Rightarrow>
         tx_bind time_Now (\<lambda>now.
         tx_bind (process_move cmd h wallet reference reversalMovement now) (\<lambda>m.
         case m of Done result \<Rightarrow> tx_return result
         | Continue wallet' \<Rightarrow>
             process_persist cmd h wallet' (Balance wallet) reference reversalMovement now))) E w1 = Inr (res, w')"
    using run unfolding process_decide_def by (elim tx_bindE)
  show ?thesis
  proof (cases p)
    case (Done result)
    with rest keepsD [OF quiet_process_reference ref] show ?thesis
      by (auto elim!: tx_elims intro: financial_step_quiet_rel)
  next
    case (Continue y)
    obtain reference mv where p: "p = Continue (reference, mv)" using Continue by (cases y) auto
    have ch: "db w1 = db w" "reference_choice E (cmdRequest cmd) (db w) reference mv"
      using process_reference_Continue ref p by auto
    obtain m w2 now where mov: "process_move cmd h wallet reference mv now E (w1\<lparr>now_count := Suc (now_count w1)\<rparr>) = Inr (m, w2)"
      and fin: "(case m of Done result \<Rightarrow> tx_return result
         | Continue wallet' \<Rightarrow> process_persist cmd h wallet' (Balance wallet) reference mv now) E w2 = Inr (res, w')"
      using rest unfolding p by (auto elim!: tx_elims)
    show ?thesis
    proof (cases m)
      case (Done result)
      with fin keepsD [OF quiet_process_move mov] ch show ?thesis
        by (auto elim!: tx_elims intro: financial_step_quiet_rel)
    next
      case (Continue wallet')
      note mc = process_move_Continue [OF mov [unfolded Continue] contract]
      then have d2: "db w2 = db w" using ch(1) by simp
      have "financial_step (db w2) (db w')"
      proof (rule process_persist_step)
        show "process_persist cmd h wallet' (Balance wallet) reference mv now E w2 = Inr (res, w')"
          using fin Continue by simp
      qed (use d2 ok laws contract x ch(2) mc in \<open>auto simp: moved_def\<close>)
      with d2 show ?thesis by simp
    qed
  qed
qed

lemma findIdempotentReplayE [tx_elims]:
  assumes "findIdempotentReplay p k h E w = Inr (x, w')"
  obtains (no) "List.find (idempotency_identity p k) (wager_transactions (db w)) = None" "x = None"
      "w' = w\<lparr>stmt_count := Suc (stmt_count w)\<rparr>"
  | (yes) r rep where "List.find (idempotency_identity p k) (wager_transactions (db w)) = Some r"
      "replay_of E h r = Inr rep" "x = Some rep" "w' = w\<lparr>stmt_count := Suc (stmt_count w)\<rparr>"
  using assms unfolding findIdempotentReplay_def by (auto elim!: tx_elims split: option.splits) metis

lemma externalTransactionExistsE [tx_elims]:
  assumes "externalTransactionExists p e E w = Inr (x, w')"
  obtains "w' = w\<lparr>stmt_count := Suc (stmt_count w)\<rparr>"
    "x = list_ex (external_identity p e) (wager_transactions (db w))"
  using assms unfolding externalTransactionExists_def by (auto elim!: tx_elims)

lemma process_new_Inr:
  assumes "process_new cmd h wallet E w = Inr (res, w')"
  shows "\<exists>w1. db w1 = db w \<and> process_decide cmd h wallet E w1 = Inr (res, w')
    \<and> \<not> list_ex (external_identity (reqProviderID (cmdRequest cmd)) (reqExternalTransactionID (cmdRequest cmd)))
         (wager_transactions (db w))
    \<and> PlayerID wallet = reqPlayerID (cmdRequest cmd)
    \<and> currency (Balance wallet) = currency (reqAmount (cmdRequest cmd))"
  using assms unfolding process_new_def Let_def
  by (intro exI [of _ "w\<lparr>stmt_count := Suc (stmt_count w)\<rparr>"]) (auto elim!: tx_elims split: if_splits)

lemma process_locked_Inr:
  assumes "process_locked cmd h E w = Inr (res, w')"
  shows "\<exists>wallet x w1. db w1 = db w \<and> x \<in> set (wallets (db w))
    \<and> pg_uuid_in E (reqWalletID (cmdRequest cmd)) = Some (w_id x) \<and> scan_wallet E x = Inr wallet
    \<and> (case List.find (idempotency_identity (reqProviderID (cmdRequest cmd)) (cmdIdempotencyKey cmd))
             (wager_transactions (db w)) of
          Some r \<Rightarrow> replay_of E h r = Inr res \<and> db w' = db w
        | None \<Rightarrow> process_new cmd h wallet E w1 = Inr (res, w'))"
  using assms unfolding process_locked_def
  apply (elim tx_bindE lockWalletE findIdempotentReplayE)
   apply (rule exI, rule exI, rule exI [of _ "w\<lparr>stmt_count := Suc (Suc (stmt_count w))\<rparr>"])
   apply (auto elim!: tx_elims)
  apply blast
  done

lemma process_locked_step:
  assumes run: "process_locked cmd h E w = Inr (res, w')"
    and ok: "schema_ok (db w)" and laws: "uuid_laws E" and contract: "request_contract (cmdRequest cmd)"
  shows "financial_step (db w) (db w')"
  using process_locked_Inr [OF run]
proof (elim exE conjE)
  fix wallet x w1
  assume w1: "db w1 = db w" and x: "x \<in> set (wallets (db w))"
    "pg_uuid_in E (reqWalletID (cmdRequest cmd)) = Some (w_id x)" "scan_wallet E x = Inr wallet"
    and k: "case List.find (idempotency_identity (reqProviderID (cmdRequest cmd)) (cmdIdempotencyKey cmd))
             (wager_transactions (db w)) of
          Some r \<Rightarrow> replay_of E h r = Inr res \<and> db w' = db w
        | None \<Rightarrow> process_new cmd h wallet E w1 = Inr (res, w')"
  then consider "db w' = db w" | w2 where "db w2 = db w" "process_decide cmd h wallet E w2 = Inr (res, w')"
    by (auto split: option.splits dest!: process_new_Inr)
  then show ?thesis
  proof cases
    case 2
    then show ?thesis
      using process_decide_step [OF 2(2) _ laws contract, of x] ok x by simp
  qed (auto intro: financial_step.quiet)
qed

lemma process_begin_frame:
  assumes "process_begin cmd0 E w = Inr (p, w1)"
  shows "db w1 = db w \<and> request_contract (cmdRequest cmd0)
    \<and> (\<forall>cmd h. p = Continue (cmd, h) \<longrightarrow> cmdRequest cmd = cmdRequest cmd0 \<and> h = PayloadHash (cmdRequest cmd0)
         \<and> cmdIdempotencyKey cmd = cmdIdempotencyKey cmd0 \<and> cmdIdempotencyKey cmd0 \<noteq> [])"
  using assms unfolding process_begin_def findIdempotentReplay_def Let_def
  by (auto elim!: tx_elims simp: ValidateExternal_None tx_simps split: option.splits if_splits)

lemma ProcessTx_step:
  assumes run: "ProcessTx cmd E w = Inr (res, w')" and ok: "schema_ok (db w)" and laws: "uuid_laws E"
  shows "financial_step (db w) (db w')"
  using run unfolding ProcessTx_def
proof (elim tx_bindE)
  fix p w1
  assume beg: "process_begin cmd E w = Inr (p, w1)"
    and k: "(case p of Done r \<Rightarrow> tx_return r | Continue (c, h) \<Rightarrow> process_locked c h) E w1 = Inr (res, w')"
  note f = process_begin_frame [OF beg]
  show ?thesis
  proof (cases p)
    case (Done r)
    with k f show ?thesis by (auto elim!: tx_elims intro: financial_step.quiet)
  next
    case (Continue y)
    with k f show ?thesis
      using process_locked_step [of "fst y" "snd y" E w1 res w'] ok laws by (cases y) auto
  qed
qed

end
