(* ===== verification/Resolver_Refinement.thy ===== *)
theory Resolver_Refinement
  imports Wagering_Refinement
begin

text \<open>
  The pending-reference resolver and wallet creation refine \<open>financial_step\<close>, and with them
  every operation of the platform preserves \<open>books\<close>.
\<close>

section \<open>The resolver\<close>

lemma quiet_reject_and_commit: "keeps quiet_rel (reject_and_commit c p wallet f now ref)"
  unfolding reject_and_commit_def rejectPendingReference_def
  by (intro quiet.keeps_intros quiet_update_pending quiet_insertRejectedEvent)
    (simp add: moves_def reject_row_def)

lemma quiet_schedule: "keeps quiet_rel (schedulePendingReferenceRetry p now)"
  unfolding schedulePendingReferenceRetry_def Let_def
  by (intro quiet_update_pending) (simp add: moves_def reschedule_row_def is_pending_def)

lemma scan_pending_Inr:
  "scan_pending E r = Inr p \<Longrightarrow>
     pnID p = t_id r \<and> t_provider_id r = Some (reqProviderID (pnRequest p))
     \<and> reqPlayerID (pnRequest p) = t_player_id r \<and> reqWalletID (pnRequest p) = uuid_String E (t_wallet_id r)
     \<and> reqRoundID (pnRequest p) = coalesce (t_round_id r) \<and> reqKind (pnRequest p) = t_kind r
     \<and> currency (reqAmount (pnRequest p)) = t_currency r \<and> amount (reqAmount (pnRequest p)) = t_amount r
     \<and> t_reference_external_transaction_id r = Some (reqReferenceExternalTransactionID (pnRequest p))
     \<and> pnReferenceAttempts p = t_reference_attempts r \<and> pnReferenceExpiresAt p = t_reference_expires_at r"
  by (auto simp: scan_pending_def split: option.splits)

text \<open>A pending row and the transaction read from it.\<close>

definition pending_of :: "env \<Rightarrow> database \<Rightarrow> wager_row \<Rightarrow> pendingReferenceTransaction \<Rightarrow> bool" where
  "pending_of E d r p \<longleftrightarrow>
     r \<in> set (wager_transactions d) \<and> t_state r = WagerStatePendingReference \<and> scan_pending E r = Inr p"

lemma pending_kind: "schema_ok d \<Longrightarrow> pending_of E d r p \<Longrightarrow> t_kind r \<noteq> KindOpening \<and> t_round_id r \<noteq> None"
  using wager_row_checks(1) [of d r]
  by (cases "t_round_id r") (auto simp: pending_of_def origin_metadata_def some_nonempty_def external_kinds_def)

lemma processed_row_simps [simp]:
  "t_state (processed_row u b now r) = WagerStateProcessed"
  "t_referenced_transaction_id (processed_row u b now r) = Some u"
  "t_result_balance (processed_row u b now r) = Some b" "t_wallet_id (processed_row u b now r) = t_wallet_id r"
  "t_kind (processed_row u b now r) = t_kind r" "t_amount (processed_row u b now r) = t_amount r"
  "t_provider_id (processed_row u b now r) = t_provider_id r" "t_player_id (processed_row u b now r) = t_player_id r"
  "t_round_id (processed_row u b now r) = t_round_id r" "t_currency (processed_row u b now r) = t_currency r"
  by (simp_all add: processed_row_def)

text \<open>Marking the pending row as processed adds one movement.\<close>

lemma mark_processed_moving:
  assumes ok: "schema_ok d" and r: "r \<in> set (wager_transactions d)" "t_state r = WagerStatePendingReference"
    and kind: "t_kind r \<noteq> WagerKindLoss"
    and mark: "update_pending (t_id r) (processed_row i b now) d1 = Inr (n, d2)"
    and same: "wager_transactions d1 = wager_transactions d"
  shows "moving d2 = insert (processed_row i b now r) (moving d)" "processed_row i b now r \<notin> moving d"
    "wallets d2 = wallets d1" "ledger_entries d2 = ledger_entries d1"
proof -
  let ?f = "processed_row i b now"
  have only: "{y \<in> set (wager_transactions d1). is_pending (t_id r) y} = {r}"
    using transaction_id_unique [OF ok _ r(1)] r by (auto simp: is_pending_def same)
  have "moving d2 = {y \<in> ?f ` {y \<in> set (wager_transactions d1). is_pending (t_id r) y}. moves y} \<union> moving d1"
    using update_pending_Inr [OF mark] by (simp only: moving_update)
  moreover have "moves (?f r)" using kind by (simp add: moves_def)
  then have "{y \<in> ?f ` {r}. moves y} = {?f r}" by blast
  ultimately show "moving d2 = insert (?f r) (moving d)"
    unfolding only by (simp add: moving_def same)
  show "?f r \<notin> moving d"
  proof
    assume "?f r \<in> moving d"
    then have "?f r = r" by (intro transaction_id_unique [OF ok _ r(1)]) (auto simp: moving_def)
    then have "t_state (?f r) = t_state r" by simp
    with r(2) show False by simp
  qed
  show "wallets d2 = wallets d1" "ledger_entries d2 = ledger_entries d1"
    using update_pending_Inr [OF mark] by simp_all
qed

text \<open>Its reference and the sign of its entry are the ones the books ask for.\<close>

lemma resolved_entry:
  assumes ok: "schema_ok d" and laws: "uuid_laws E" and pr: "pending_of E d r p"
    and good: "good_reference E (pnRequest p) d r0"
    and dir: "if reqKind (pnRequest p) = WagerKindWin then direction = movementCredit
      else reversalDirection (reqKind (pnRequest p)) (scan_reference r0) = Inr direction
        \<and> \<not> list_ex (reverses (t_id r0)) (wager_transactions d)"
  shows "t_kind r \<in> {WagerKindWin, WagerKindRefund, WagerKindRollback}"
    "reference_ok (moving d) (processed_row (t_id r0) b now r)"
    "direction = movementDebit \<Longrightarrow> sign_ok (moving d) (processed_row (t_id r0) b now r) (- 1)"
    "direction \<noteq> movementDebit \<Longrightarrow> sign_ok (moving d) (processed_row (t_id r0) b now r) 1"
proof -
  let ?q = "pnRequest p" and ?f = "processed_row (t_id r0) b now"
  let ?mv = "if reqKind ?q = WagerKindWin then [] else direction"
  have p: "scan_pending E r = Inr p" using pr by (simp add: pending_of_def)
  have sp: "t_provider_id r = Some (reqProviderID ?q)" "reqPlayerID ?q = t_player_id r"
      "reqWalletID ?q = uuid_String E (t_wallet_id r)" "reqKind ?q = t_kind r"
      "currency (reqAmount ?q) = t_currency r" "amount (reqAmount ?q) = t_amount r"
    using scan_pending_Inr [OF p] by simp_all
  have rid: "t_round_id r = Some (reqRoundID ?q)"
    using scan_pending_Inr [OF p] pending_kind [OF ok pr] by (auto simp: coalesce_def)
  show kinds: "t_kind r \<in> {WagerKindWin, WagerKindRefund, WagerKindRollback}"
    using good sp by (auto simp: good_reference_def validateReference_None referable_def split: if_splits)
  have "r0 \<in> moving d" "refers_to (?f r) r0"
    using good_reference_row [OF ok laws good, of "?f r"] sp rid uuid_laws_simps(1) [OF laws] by simp_all
  then show "reference_ok (moving d) (?f r)" by (auto simp: reference_ok_def)
  have gm: "y \<in> moving d" if "good_reference E ?q d y" "scan_reference r0 = scan_reference y" for y
    using good_reference_row(1) [OF ok laws that(1), of "?f r"] arg_cong [OF that(2), of refID] sp rid
      uuid_laws_simps(1) [OF laws] by simp
  have "sign_ok (moving d) (?f r) (if ledger_direction (reqKind ?q) ?mv = DirectionCredit then 1 else - 1)"
  proof (rule sign_of_direction(1))
    show "reference_choice E ?q d (Some (scan_reference r0)) ?mv"
      using good dir by (auto simp: reference_choice_def)
    show "reqKind ?q = WagerKindBet \<or> reqKind ?q = WagerKindWin \<or> ?mv = movementCredit \<or> ?mv = movementDebit"
      using dir reversalDirection_sign by (auto split: if_splits)
  qed (use kinds sp gm in \<open>auto\<close>)
  moreover have "ledger_direction (reqKind ?q) ?mv = (if direction = movementDebit then DirectionDebit else DirectionCredit)"
    using dir kinds sp by (auto simp: ledger_direction_def reversalDirection_def split: if_splits)
  ultimately show "direction = movementDebit \<Longrightarrow> sign_ok (moving d) (?f r) (- 1)"
    "direction \<noteq> movementDebit \<Longrightarrow> sign_ok (moving d) (?f r) 1"
    by simp_all
qed

lemma resolve_persist_step:
  assumes run: "resolve_persist p wallet' (Balance wallet) (t_id r0) direction now E w = Inr (res, w')"
    and ok: "schema_ok (db w)" and laws: "uuid_laws E" and pr: "pending_of E (db w) r p"
    and x: "x \<in> set (wallets (db w))" "w_id x = t_wallet_id r" "scan_wallet E x = Inr wallet"
    and good: "good_reference E (pnRequest p) (db w) r0"
    and dir: "if reqKind (pnRequest p) = WagerKindWin then direction = movementCredit
      else reversalDirection (reqKind (pnRequest p)) (scan_reference r0) = Inr direction
        \<and> \<not> list_ex (reverses (t_id r0)) (wager_transactions (db w))"
    and move: "ID wallet' = ID wallet" "sint (Version wallet') = sint (Version wallet) + 1"
  shows "financial_step (db w) (db w')"
proof -
  let ?f = "processed_row (t_id r0) (amount (Balance wallet')) now"
  let ?dir = "if direction = movementDebit then DirectionDebit else DirectionCredit"
  note scan = scan_wallet_Inr [OF x(3)]
  have p: "scan_pending E r = Inr p" "r \<in> set (wager_transactions (db w))" "t_state r = WagerStatePendingReference"
    using pr by (simp_all add: pending_of_def)
  obtain d1 d2 d3 eid where upd: "update_wallet (w_id x) (amount (Balance wallet')) (Version wallet') now (db w) = Inr d1"
    and mark: "update_pending (t_id r) ?f d1 = Inr (1, d2)"
    and led: "insert_ledger \<lparr>l_id = eid, l_wallet_id = w_id x, l_transaction_id = t_id r, l_direction = ?dir,
         l_amount = t_amount r, l_balance_before = w_balance x, l_balance_after = amount (Balance wallet'),
         l_created_at = now\<rparr> d2 = Inr d3"
    and rest: "quiet_rel d3 (db w')"
    using run scan_pending_Inr [OF p(1)] scan move laws
    by (auto simp: resolve_persist_def Let_def uuid_laws_simps elim!: tx_elims
        dest!: keepsD [OF quiet_insertProcessedEvents])
  note entry = resolved_entry [OF ok laws pr good dir]
  have nl: "t_kind r \<noteq> WagerKindLoss" using entry(1) by auto
  have d1: "wager_transactions d1 = wager_transactions (db w)" "ledger_entries d1 = ledger_entries (db w)"
      "wallets d1 = update_rows (\<lambda>y. w_id y = w_id x)
        (\<lambda>y. y\<lparr>w_balance := amount (Balance wallet'), w_version := Version wallet', w_updated_at := now\<rparr>) (wallets (db w))"
    using upd by (simp_all add: update_wallet_Inr Let_def)
  note d2 = mark_processed_moving [OF ok p(2,3) nl mark d1(1)]
  have d3: "wallets d3 = wallets d2" "moving d3 = moving d2"
      "ledger_entries d3 = ledger_entries d2 @ [\<lparr>l_id = eid, l_wallet_id = w_id x, l_transaction_id = t_id r,
         l_direction = ?dir, l_amount = t_amount r, l_balance_before = w_balance x,
         l_balance_after = amount (Balance wallet'), l_created_at = now\<rparr>]"
    using led by (simp_all add: insert_ledger_Inr)
  have "financial_step (db w) d3"
    using scan move x(2) pending_kind [OF ok pr] entry d1 d2 d3
    by (intro movement_step [OF ok laws x(1), of "?f r" wallet' d3 now eid ?dir]) simp_all
  then show ?thesis using rest by (rule financial_step_then_quiet)
qed

lemma resolve_move_step:
  assumes run: "resolve_move p wallet now (t_id r0) direction E w = Inr (res, w')"
    and ok: "schema_ok (db w)" and laws: "uuid_laws E" and pr: "pending_of E (db w) r p"
    and x: "x \<in> set (wallets (db w))" "w_id x = t_wallet_id r" "scan_wallet E x = Inr wallet"
    and good: "good_reference E (pnRequest p) (db w) r0"
    and dir: "if reqKind (pnRequest p) = WagerKindWin then direction = movementCredit
      else reversalDirection (reqKind (pnRequest p)) (scan_reference r0) = Inr direction
        \<and> \<not> list_ex (reverses (t_id r0)) (wager_transactions (db w))"
  shows "financial_step (db w) (db w')"
proof -
  from run consider
      (pay) wallet' d where "moved wallet now d wallet'"
        "resolve_persist p wallet' (Balance wallet) (t_id r0) direction now E w = Inr (res, w')"
    | (reject) "\<exists>c f. reject_and_commit c p wallet f now (Some (t_id r0)) E w = Inr (res, w')"
    unfolding resolve_move_def Let_def
    by (auto elim!: tx_elims split: if_splits sum.splits dest!: Wallet_Credit_Inr Wallet_Debit_Inr)
  then show ?thesis
  proof cases
    case (pay wallet' d)
    show ?thesis
      by (rule resolve_persist_step [OF pay(2) ok laws pr x good dir]) (use pay(1) in \<open>simp_all add: moved_def\<close>)
  next
    case reject
    then show ?thesis
      using keepsD [OF quiet_reject_and_commit] financial_step_quiet_rel by blast
  qed
qed

lemma resolve_processed_step:
  assumes run: "resolve_processed p wallet now (scan_reference r0) E w = Inr (res, w')"
    and ok: "schema_ok (db w)" and laws: "uuid_laws E" and pr: "pending_of E (db w) r p"
    and x: "x \<in> set (wallets (db w))" "w_id x = t_wallet_id r" "scan_wallet E x = Inr wallet"
    and found: "List.find (external_identity (reqProviderID (pnRequest p)) ext) (wager_transactions (db w)) = Some r0"
      "t_state r0 = WagerStateProcessed"
  shows "financial_step (db w) (db w')"
proof -
  let ?v = "validateReference E (pnRequest p) (scan_reference r0)"
  have rej: "reject_and_commit c p wallet f now ref E v = Inr (res, w') \<Longrightarrow> db v = db w \<Longrightarrow> ?thesis" for c f ref v
    using keepsD [OF quiet_reject_and_commit] financial_step_quiet_rel by metis
  show ?thesis
  proof (cases ?v)
    case (Some err)
    then show ?thesis
      using run unfolding resolve_processed_def by (auto elim!: tx_elims intro: rej)
  next
    case None
    note good = good_referenceI [OF found None]
    from run None consider (rej) "\<exists>c f. reject_and_commit c p wallet f now (Some (t_id r0)) E
          (w\<lparr>stmt_count := Suc (stmt_count w)\<rparr>) = Inr (res, w')"
      | (mov) dir v where "v = w \<or> v = w\<lparr>stmt_count := Suc (stmt_count w)\<rparr>" "resolve_move p wallet now (t_id r0) dir E v = Inr (res, w')"
        "if reqKind (pnRequest p) = WagerKindWin then dir = movementCredit
         else reversalDirection (reqKind (pnRequest p)) (scan_reference r0) = Inr dir
           \<and> \<not> list_ex (reverses (t_id r0)) (wager_transactions (db w))"
      unfolding resolve_processed_def
      by (auto elim!: tx_bindE tx_asksE tx_liftE referenceAlreadyReversedE split: if_splits) blast+
    then show ?thesis
    proof cases
      case rej
      then obtain c f where "reject_and_commit c p wallet f now (Some (t_id r0)) E
          (w\<lparr>stmt_count := Suc (stmt_count w)\<rparr>) = Inr (res, w')" by blast
      from keepsD [OF quiet_reject_and_commit this] show ?thesis
        by (intro financial_step_quiet_rel) simp
    next
      case (mov dir v)
      moreover from this(1) have "db v = db w" by auto
      ultimately show ?thesis
        using resolve_move_step [OF mov(2), of r x] ok laws pr x good by simp
    qed
  qed
qed

lemma resolve_reference_step:
  assumes run: "resolve_reference p wallet now E w = Inr (res, w')"
    and ok: "schema_ok (db w)" and laws: "uuid_laws E" and pr: "pending_of E (db w) r p"
    and x: "x \<in> set (wallets (db w))" "w_id x = t_wallet_id r" "scan_wallet E x = Inr wallet"
  shows "financial_step (db w) (db w')"
proof -
  let ?ext = "reqReferenceExternalTransactionID (pnRequest p)"
  let ?w1 = "w\<lparr>stmt_count := Suc (stmt_count w)\<rparr>"
  have quiet: "financial_step (db w) (db w')" if "keeps quiet_rel m" "m E ?w1 = Inr (res, w')" for m
    using keepsD [OF that] by (intro financial_step_quiet_rel) simp
  have retry: "keeps quiet_rel (tx_bind (schedulePendingReferenceRetry p now) (\<lambda>_. tx_return y))" for y
    by (intro quiet.keeps_intros quiet_schedule)
  from run consider (q) m where "keeps quiet_rel m" "m E ?w1 = Inr (res, w')"
    | (proc) r0 where "List.find (external_identity (reqProviderID (pnRequest p)) ?ext) (wager_transactions (db w)) = Some r0"
        "t_state r0 = WagerStateProcessed" "resolve_processed p wallet now (scan_reference r0) E ?w1 = Inr (res, w')"
    unfolding resolve_reference_def
    by (elim tx_bindE findReferencedTransactionE)
      (auto split: option.splits if_splits elim!: tx_failE intro: retry quiet_reject_and_commit)
  then show ?thesis
  proof cases
    case (q m)
    then show ?thesis by (rule quiet)
  next
    case (proc r0)
    then show ?thesis
      using resolve_processed_step [OF proc(3), of r x ?ext] ok laws pr x by simp
  qed
qed

lemma resolve_pending_step:
  assumes run: "resolve_pending p E w = Inr (res, w')"
    and ok: "schema_ok (db w)" and laws: "uuid_laws E" and pr: "pending_of E (db w) r p"
  shows "financial_step (db w) (db w')"
proof -
  have wid: "pg_uuid_in E (reqWalletID (pnRequest p)) = Some (t_wallet_id r)"
    using pr scan_pending_Inr [of E r p] uuid_laws_simps(1) [OF laws] by (simp add: pending_of_def)
  from run obtain wallet x v now where
      veq: "v = w\<lparr>stmt_count := Suc (stmt_count w), now_count := Suc (now_count w)\<rparr>" and x: "x \<in> set (wallets (db w))"
      "w_id x = t_wallet_id r" "scan_wallet E x = Inr wallet"
    and k: "(if is_expired p now
      then reject_and_commit ''commit expired pending reference'' p wallet ''REFERENCE_EXPIRED'' now None
      else resolve_reference p wallet now) E v = Inr (res, w')"
    unfolding resolve_pending_def using wid
    by (elim tx_bindE lockWalletE time_NowE) auto
  have v: "db v = db w" by (simp add: veq)
  show ?thesis
  proof (cases "is_expired p now")
    case True
    then have "reject_and_commit ''commit expired pending reference'' p wallet ''REFERENCE_EXPIRED'' now None E v = Inr (res, w')"
      using k by simp
    from keepsD [OF quiet_reject_and_commit this] v show ?thesis
      by (intro financial_step_quiet_rel) simp
  next
    case False
    then have "resolve_reference p wallet now E v = Inr (res, w')" using k by simp
    from resolve_reference_step [OF this, of r x] v ok laws pr x show ?thesis by simp
  qed
qed

lemma due_row_pending:
  assumes "due_row E d = Some r"
  shows "r \<in> set (wager_transactions d) \<and> is_due E r \<and> \<not> row_locked E (t_id r)"
proof -
  have "r \<in> set (sort_key t_created_at (filter (\<lambda>r. is_due E r \<and> \<not> row_locked E (t_id r)) (wager_transactions d)))"
    using assms by (auto simp: due_row_def simp del: set_sort split: list.splits)
  then show ?thesis by simp
qed

lemma resolve_tx_step:
  assumes run: "resolve_tx E w = Inr (res, w')" and ok: "schema_ok (db w)" and laws: "uuid_laws E"
  shows "financial_step (db w) (db w')"
proof -
  from run consider "db w' = db w"
    | r p v where "v = w\<lparr>stmt_count := Suc (stmt_count w)\<rparr>" "due_row E (db w) = Some r" "scan_pending E r = Inr p" "resolve_pending p E v = Inr (res, w')"
    unfolding resolve_tx_def findDuePendingReference_def
    by (auto elim!: tx_bindE sql_readE tx_returnE simp: res_bind_eq_Inr split: option.splits)
  then show ?thesis
  proof cases
    case (2 r p v)
    have "pending_of E (db w) r p"
      using due_row_pending [OF 2(2)] 2(3) by (simp add: pending_of_def is_due_def)
    then show ?thesis
      using resolve_pending_step [OF 2(4), of r] ok laws 2(1) by simp
  qed (auto intro: financial_step.quiet)
qed

section \<open>Creating a wallet\<close>

lemma quiet_opening_events:
  "keeps quiet_rel (tx_bind (wallet_insertOutboxEvent e) (\<lambda>_.
     tx_bind uuid_New (\<lambda>e'. wallet_insertOutboxEvent (g e'))))"
  by (intro quiet.keeps_intros quiet_wallet_insertOutboxEvent)

text \<open>The opening row with its entry, after the wallet is in place.\<close>

lemma opening_step:
  assumes ins: "insert_wager (opening_row t i (PlayerID dw) (Balance dw) now) d1 = Inr d2"
    and led: "insert_ledger \<lparr>l_id = eid, l_wallet_id = i, l_transaction_id = t, l_direction = DirectionCredit,
        l_amount = amount (Balance dw), l_balance_before = 0, l_balance_after = amount (Balance dw),
        l_created_at = now\<rparr> d2 = Inr d3"
    and x: "w_id x = i" "w_balance x = amount (Balance dw)" "w_version x = 1"
    and d1: "d1 = d\<lparr>wallets := wallets d @ [x]\<rparr>"
  shows "financial_step d d3"
proof -
  let ?r = "opening_row t i (PlayerID dw) (Balance dw) now"
  have op: "t_kind ?r = KindOpening" "t_wallet_id ?r = i" "t_id ?r = t" "moves ?r"
      "t_amount ?r = amount (Balance dw)" "t_result_balance ?r = Some (amount (Balance dw))"
      "t_referenced_transaction_id ?r = None"
    by (simp_all add: opening_row_def moves_def)
  have d1': "wallets d1 = wallets d @ [x]" "ledger_entries d1 = ledger_entries d"
      "moving d1 = moving d" "wager_transactions d1 = wager_transactions d"
    by (simp_all add: d1)
  have d2: "wallets d2 = wallets d1" "ledger_entries d2 = ledger_entries d1" "moving d2 = insert ?r (moving d1)"
    using ins op(4) by (simp_all add: insert_wager_Inr moving_snoc)
  have d3: "wallets d3 = wallets d2" "moving d3 = moving d2"
      "ledger_entries d3 = ledger_entries d2 @ [\<lparr>l_id = eid, l_wallet_id = i, l_transaction_id = t,
        l_direction = DirectionCredit, l_amount = amount (Balance dw), l_balance_before = 0,
        l_balance_after = amount (Balance dw), l_created_at = now\<rparr>]"
    using led by (simp_all add: insert_ledger_Inr)
  have "?r \<notin> moving d"
    using insert_wager_fresh [OF ins] d1'(4) by (auto simp: moving_def)
  moreover have "reference_ok (moving d) ?r"
    using op by (simp add: reference_ok_def)
  ultimately show ?thesis
    by (intro financial_step.opened [of d3 d x ?r "\<lparr>l_id = eid, l_wallet_id = i,
        l_transaction_id = t, l_direction = DirectionCredit, l_amount = amount (Balance dw),
        l_balance_before = 0, l_balance_after = amount (Balance dw), l_created_at = now\<rparr>"])
      (simp_all add: d1' d2 d3 op x entry_ok_def sign_ok_def entry_sign_def effect_sign_def)
qed

lemma create_tx_step:
  assumes run: "create_tx i dw now E w = Inr (res, w')"
  shows "financial_step (db w) (db w')"
proof -
  let ?x = "\<lparr>w_id = i, w_player_id = PlayerID dw, w_currency = currency (Balance dw),
     w_balance = amount (Balance dw), w_version = 1, w_created_at = now, w_updated_at = now\<rparr>"
  obtain c w1 v where w1: "w1 = w\<lparr>uuid_count := Suc (uuid_count w),
        db := (db w)\<lparr>wallets := wallets (db w) @ [?x]\<rparr>, stmt_count := Suc (stmt_count w)\<rparr>"
    and k: "(if \<not> IsZero (Balance dw)
        then createOpeningTransaction i (PlayerID dw) (Balance dw) c now else tx_return ()) E w1 = Inr ((), v)"
    and v: "db w' = db v"
    using run unfolding create_tx_def
    by (elim tx_bindE) (auto simp: tx_simps insert_wallet_Inr elim!: tx_elims)
  have d1: "db w1 = (db w)\<lparr>wallets := wallets (db w) @ [?x]\<rparr>" by (simp add: w1)
  show ?thesis
  proof (cases "IsZero (Balance dw)")
    case True
    with k v d1 show ?thesis
      by (intro financial_step.opened_empty [of _ _ ?x]) (auto elim!: tx_returnE simp: IsZero_def)
  next
    case False
    from False k obtain t eid d2 d3 where
        ins: "insert_wager (opening_row t i (PlayerID dw) (Balance dw) now) (db w1) = Inr d2"
      and led: "insert_ledger \<lparr>l_id = eid, l_wallet_id = i, l_transaction_id = t, l_direction = DirectionCredit,
          l_amount = amount (Balance dw), l_balance_before = 0, l_balance_after = amount (Balance dw),
          l_created_at = now\<rparr> d2 = Inr d3"
      and rest: "quiet_rel d3 (db v)"
      unfolding createOpeningTransaction_def
      by (auto elim!: tx_bindE [where m = uuid_New] tx_bindE [where m = "tx_map_err a b" for a b]
          tx_bindE [where m = "tx_asks a" for a] uuid_NewE sql_execE tx_asksE)
        (drule keepsD [OF quiet_opening_events], simp)
    have "financial_step (db w) d3"
      by (rule opening_step [OF ins led _ _ _ d1]) simp_all
    then show ?thesis
      using rest v by (auto intro: financial_step_then_quiet)
  qed
qed

end
