(* ===== verification/System.thy ===== *)
theory System
  imports Resolver_Refinement
begin

text \<open>
  The platform as a state machine over its database: the operations of all components, run
  one transaction at a time, with the one interleaving the wallet lock allows made
  explicit. A wager command that found no replay waits for the lock in \<open>waiting\<close> while
  other transactions commit, then continues on the database of that moment. The
  invariants hold in every reachable state.
\<close>

section \<open>Steps\<close>

text \<open>A command that passed \<open>process_begin\<close>: its environment, its counters, the command and its hash.\<close>

type_synonym waiting_command = "env \<times> world \<times> ProcessCommand \<times> string"

record system =
  sys_db :: database
  waiting :: "waiting_command list"

definition resume :: "database \<Rightarrow> waiting_command \<Rightarrow> (ProcessResult \<times> world) result" where
  "resume d c = (case c of (E, w, cmd, h) \<Rightarrow> process_locked cmd h E (w\<lparr>db := d\<rparr>))"

text \<open>The steps whose environments are \<open>lawful\<close>: at least, that their UUID functions fit together
  (\<open>uuid_laws\<close>).\<close>

inductive sys_step_in :: "(env \<Rightarrow> bool) \<Rightarrow> system \<Rightarrow> system \<Rightarrow> bool" for lawful :: "env \<Rightarrow> bool" where
  create: "lawful E \<Longrightarrow> sys_step_in lawful s (s\<lparr>sys_db := snd (Wallet_Create E cmd (sys_db s))\<rparr>)"
| process: "lawful E \<Longrightarrow>
    sys_step_in lawful s (s\<lparr>sys_db := fst (snd (Service_Process E pcmd (start_world (sys_db s)) m))\<rparr>)"
| arrive: "lawful E \<Longrightarrow> process_begin pcmd E (start_world (sys_db s)) = Inr (Continue (c, h), w) \<Longrightarrow>
    sys_step_in lawful s (s\<lparr>waiting := (E, w, c, h) # waiting s\<rparr>)"
| locked: "c \<in> set (waiting s) \<Longrightarrow> resume (sys_db s) c = Inr (r, w) \<Longrightarrow>
    sys_step_in lawful s (s\<lparr>sys_db := db w, waiting := remove1 c (waiting s)\<rparr>)"
| abandoned: "c \<in> set (waiting s) \<Longrightarrow> sys_step_in lawful s (s\<lparr>waiting := remove1 c (waiting s)\<rparr>)"
| message: "lawful E \<Longrightarrow>
    sys_step_in lawful s (s\<lparr>sys_db := fst (snd (MessageProcessor_Process E mcmd (start_world (sys_db s)) m))\<rparr>)"
| resolve: "lawful E \<Longrightarrow>
    sys_step_in lawful s (s\<lparr>sys_db := fst (snd (ResolveOne E (start_world (sys_db s)) m))\<rparr>)"
| publish: "sys_step_in lawful s (s\<lparr>sys_db := fst (snd (PublishBatch E p (sys_db s) m))\<rparr>)"
| reconcile: "sys_step_in lawful s (s\<lparr>sys_db := fst (snd (Wallet_Reconcile E i (sys_db s) m))\<rparr>)"

inductive reachable_in :: "(env \<Rightarrow> bool) \<Rightarrow> system \<Rightarrow> bool" for lawful :: "env \<Rightarrow> bool" where
  initial: "reachable_in lawful \<lparr>sys_db = empty_database, waiting = []\<rparr>"
| step: "reachable_in lawful s \<Longrightarrow> sys_step_in lawful s s' \<Longrightarrow> reachable_in lawful s'"

abbreviation sys_step :: "system \<Rightarrow> system \<Rightarrow> bool" where
  "sys_step \<equiv> sys_step_in uuid_laws"

abbreviation reachable :: "system \<Rightarrow> bool" where
  "reachable \<equiv> reachable_in uuid_laws"

text \<open>The environments of one database: its \<^verbatim>\<open>uuid\<close> input reads every text the same way, whichever process
  sends it.\<close>

definition reads :: "(string \<Rightarrow> uuid option) \<Rightarrow> env \<Rightarrow> bool" where
  "reads R E \<longleftrightarrow> uuid_laws E \<and> pg_uuid_in E = R"

lemma readsD: "reads R E \<Longrightarrow> uuid_laws E" "reads R E \<Longrightarrow> pg_uuid_in E s = R s"
    "reads R E \<Longrightarrow> R (uuid_String E u) = Some u"
  by (auto simp: reads_def uuid_laws_def)

lemma sys_step_in_mono: "sys_step_in P s s' \<Longrightarrow> (\<And>E. P E \<Longrightarrow> Q E) \<Longrightarrow> sys_step_in Q s s'"
  by (induction rule: sys_step_in.induct) (auto intro: sys_step_in.intros)

lemma reachable_in_mono: "reachable_in P s \<Longrightarrow> (\<And>E. P E \<Longrightarrow> Q E) \<Longrightarrow> reachable_in Q s"
  by (induction rule: reachable_in.induct) (auto intro: reachable_in.intros sys_step_in_mono)

lemma reads_step: "sys_step_in (reads R) s s' \<Longrightarrow> sys_step s s'"
  by (erule sys_step_in_mono) (rule readsD(1))

lemma reads_reachable: "reachable_in (reads R) s \<Longrightarrow> reachable s"
  by (erule reachable_in_mono) (rule readsD(1))

text \<open>The environment of a waiting command is one of the run.\<close>

lemma waiting_in: "reachable_in P s \<Longrightarrow> (E, w, c, h) \<in> set (waiting s) \<Longrightarrow> P E"
proof (induction rule: reachable_in.induct)
  case (step s s')
  have "set (waiting s') \<subseteq> set (waiting s) \<or> (\<exists>E w c h. P E \<and> waiting s' = (E, w, c, h) # waiting s)"
    using step(2) by (cases rule: sys_step_in.cases) (use set_remove1_subset in auto)
  with step show ?case by auto
qed simp

section \<open>Every operation is a financial step\<close>

text \<open>An operation either leaves the database alone or its transaction ran to its end.\<close>

lemma run_tx_step:
  assumes "\<And>a w'. m E w = Inr (a, w') \<Longrightarrow> financial_step (db w) (db w')"
  shows "financial_step (db w) (snd (run_tx E b c m w))"
  using run_tx_db [of E b c m w] assms by (auto intro: financial_step.quiet)

lemma quiet_Register: "keeps quiet_rel (Register c m p)"
  unfolding Register_def Let_def
  by (intro quiet.keeps_intros quiet.keeps_sql) (auto simp: insert_inbox_def quiet_rel_def split: if_splits)

lemma quiet_Complete: "keeps quiet_rel (Complete c m)"
  unfolding Complete_def
  by (intro quiet.keeps_intros quiet.keeps_sql) (auto simp: update_inbox_def quiet_rel_def)

lemma quiet_exec_update_outbox: "keeps quiet_rel (exec_update_outbox c no i f)"
  unfolding exec_update_outbox_def
  by (intro quiet.keeps_intros quiet.keeps_sql) (auto simp: update_outbox_def quiet_rel_def)

lemma quiet_publish_loop: "keeps quiet_rel (publish_loop publish es done n)"
  unfolding markPublished_def
  by (induction es arbitrary: "done" n)
    (simp_all add: quiet.keeps_return, intro quiet.keeps_intros,
      auto intro!: quiet.keeps_intros quiet_exec_update_outbox simp: scheduleRetry_def markPublished_def Let_def)

lemma quiet_batch_tx: "keeps quiet_rel (batch_tx publish)"
  unfolding batch_tx_def findPending_def by (intro quiet.keeps_intros quiet_publish_loop)

lemma quiet_reconcile_tx: "keeps quiet_rel (reconcile_tx i)"
  unfolding reconcile_tx_def loadReconciliationWallet_def loadReconciliationLedger_def
  by (intro quiet.keeps_intros)

lemma quiet_then_financial_step:
  assumes "quiet_rel d d1" "financial_step d1 d2"
  shows "financial_step d d2"
  using assms(2)
proof cases
  case quiet
  then show ?thesis using assms(1) by (intro financial_step.quiet) (auto simp: quiet_rel_def)
next
  case (moved w r l v now)
  then show ?thesis
    using assms(1) by (intro financial_step.moved [of w d r d2 l v now]) (auto simp: quiet_rel_def)
next
  case (opened_empty w)
  then show ?thesis using assms(1) by (intro financial_step.opened_empty [of d2 d w]) (auto simp: quiet_rel_def)
next
  case (opened w r l)
  then show ?thesis using assms(1) by (intro financial_step.opened [of d2 d w r l]) (auto simp: quiet_rel_def)
qed

lemma message_tx_step:
  assumes run: "message_tx cmd E w = Inr (res, w')" and ok: "schema_ok (db w)" and laws: "uuid_laws E"
  shows "financial_step (db w) (db w')"
  using run unfolding message_tx_def
proof (elim tx_bindE)
  fix dn w1
  assume reg: "Register (mpConsumerName cmd) (mpMessageID cmd) (mpRawPayload cmd) E w = Inr (dn, w1)"
    and k: "(if dn then tx_return \<lparr>mrResult = zero_ProcessResult, mrInboxReplay = True, mrIdempotentReplay = False\<rparr>
     else tx_bind (ProcessTx (mpCommand cmd)) (\<lambda>result.
       tx_bind (tx_map_err (Wrapped ''complete inbox message'') (Complete (mpConsumerName cmd) (mpMessageID cmd))) (\<lambda>_.
       tx_return \<lparr>mrResult = result, mrInboxReplay = False, mrIdempotentReplay = resIdempotentReplay result\<rparr>))) E w1
      = Inr (res, w')"
  have q1: "quiet_rel (db w) (db w1)" by (rule keepsD [OF quiet_Register reg])
  have ok1: "schema_ok (db w1)"
    using keepsD [OF schema.keeps_Register reg] ok by (simp add: keeps_schema_def)
  show ?thesis
  proof (cases dn)
    case True
    with k q1 show ?thesis by (auto elim!: tx_returnE intro: financial_step_quiet_rel)
  next
    case False
    with k obtain r w2 where p: "ProcessTx (mpCommand cmd) E w1 = Inr (r, w2)"
      and q2: "quiet_rel (db w2) (db w')"
      by (auto elim!: tx_bindE tx_returnE dest!: keepsD [OF quiet_Complete])
    show ?thesis
      using quiet_then_financial_step [OF q1 ProcessTx_step [OF p ok1 laws]] q2
      by (rule financial_step_then_quiet)
  qed
qed

lemma Service_Process_step:
  "schema_ok (db w) \<Longrightarrow> uuid_laws E \<Longrightarrow> financial_step (db w) (fst (snd (Service_Process E cmd w m)))"
  by (simp add: Service_Process_def Let_def case_prod_unfold run_tx_step ProcessTx_step)

lemma MessageProcessor_Process_step:
  "schema_ok (db w) \<Longrightarrow> uuid_laws E \<Longrightarrow> financial_step (db w) (fst (snd (MessageProcessor_Process E cmd w m)))"
  by (simp add: MessageProcessor_Process_def Let_def case_prod_unfold run_tx_step message_tx_step
      financial_step.quiet)

lemma ResolveOne_step:
  assumes "schema_ok (db w)" "uuid_laws E"
  shows "financial_step (db w) (fst (snd (ResolveOne E w m)))"
  using run_tx_step [of resolve_tx E w "''begin pending reference transaction''" resolve_commit] assms
  by (auto simp: ResolveOne_def resolve_tx_step split: prod.splits sum.splits)

lemma Wallet_Create_step: "financial_step d (snd (Wallet_Create E cmd d))"
proof -
  have "financial_step d (snd (run_tx E b c (create_tx i wal now) ((start_world d)\<lparr>now_count := 1, uuid_count := 1\<rparr>)))"
    for b c i wal now
    using run_tx_step [OF create_tx_step, where w = "(start_world d)\<lparr>now_count := 1, uuid_count := 1\<rparr>"]
    by simp
  then show ?thesis
    by (auto simp: Wallet_Create_def Let_def intro: financial_step.quiet split: sum.splits)
qed

lemma PublishBatch_step: "financial_step d (fst (snd (PublishBatch E publish d m)))"
  by (rule financial_step_quiet_rel)
    (auto simp: PublishBatch_def split: prod.splits sum.splits dest: quiet.run_tx_RD [OF _ quiet_batch_tx])

lemma Wallet_Reconcile_step: "financial_step d (fst (snd (Wallet_Reconcile E i d m)))"
  by (rule financial_step_quiet_rel)
    (auto simp: Wallet_Reconcile_def quiet_rel_def split: option.splits prod.splits sum.splits
      dest: quiet.run_tx_RD [OF _ quiet_reconcile_tx])

section \<open>Invariants\<close>

definition waiting_ok :: "waiting_command \<Rightarrow> bool" where
  "waiting_ok c = (case c of (E, w, cmd, h) \<Rightarrow> uuid_laws E \<and> request_contract (cmdRequest cmd))"

lemma resume_step:
  assumes "resume d c = Inr (r, w)" "schema_ok d" "waiting_ok c"
  shows "financial_step d (db w)"
  using assms process_locked_step
  by (cases c) (fastforce simp: resume_def waiting_ok_def)

lemma resume_R: "tx_relation R \<Longrightarrow> (\<And>cmd h. keeps R (process_locked cmd h)) \<Longrightarrow> resume d c = Inr (r, w) \<Longrightarrow> R d (db w)"
  by (cases c) (fastforce simp: resume_def keeps_def)

text \<open>What survives every statement survives every step.\<close>

context db_contract begin

lemma sys_step_R: "sys_step s s' \<Longrightarrow> R (sys_db s) (sys_db s')"
proof (induction rule: sys_step_in.induct)
  case (create E s cmd)
  then show ?case by (simp add: Wallet_Create_R)
next
  case (process E s pcmd m)
  then show ?case using Service_Process_R [of "start_world (sys_db s)"] by simp
next
  case (locked c s r w)
  then show ?case
    using resume_R [OF tx_relation_axioms keeps_process_locked] by auto
next
  case (message E s mcmd m)
  then show ?case using MessageProcessor_Process_R [of "start_world (sys_db s)"] by simp
next
  case (resolve E s m)
  then show ?case using ResolveOne_R [of "start_world (sys_db s)"] by simp
qed (simp_all add: R_refl PublishBatch_R Wallet_Reconcile_R)

end

lemma sys_step_schema: "sys_step s s' \<Longrightarrow> schema_ok (sys_db s) \<Longrightarrow> schema_ok (sys_db s')"
  using schema.sys_step_R by (simp add: keeps_schema_def)

lemma sys_step_history: "sys_step s s' \<Longrightarrow> extends_history (sys_db s) (sys_db s')"
  by (rule history.sys_step_R)

lemma sys_step_waiting:
  "sys_step s s' \<Longrightarrow> \<forall>c \<in> set (waiting s). waiting_ok c \<Longrightarrow> \<forall>c \<in> set (waiting s'). waiting_ok c"
proof (induction rule: sys_step_in.induct)
  case (arrive E pcmd s c h w)
  have "request_contract (cmdRequest pcmd)" "cmdRequest c = cmdRequest pcmd"
    using process_begin_frame [OF arrive(2)] by blast+
  then have "waiting_ok (E, w, c, h)" using arrive(1) by (simp add: waiting_ok_def)
  then show ?case using arrive(3) by simp
next
  case (locked c s r w)
  then show ?case using set_remove1_subset [of c "waiting s"] by auto
next
  case (abandoned c s)
  then show ?case using set_remove1_subset [of c "waiting s"] by auto
qed simp_all

lemma sys_step_financial:
  assumes "sys_step s s'" "schema_ok (sys_db s)" "\<forall>c \<in> set (waiting s). waiting_ok c"
  shows "financial_step (sys_db s) (sys_db s')"
  using assms
proof (induction rule: sys_step_in.induct)
  case (process E s pcmd m)
  then show ?case using Service_Process_step [of "start_world (sys_db s)"] by simp
next
  case (locked c s r w)
  then show ?case by (auto intro: resume_step)
next
  case (message E s mcmd m)
  then show ?case using MessageProcessor_Process_step [of "start_world (sys_db s)"] by simp
next
  case (resolve E s m)
  then show ?case using ResolveOne_step [of "start_world (sys_db s)"] by simp
qed (simp_all add: Wallet_Create_step PublishBatch_step Wallet_Reconcile_step financial_step.quiet)

definition sys_inv :: "system \<Rightarrow> bool" where
  "sys_inv s \<longleftrightarrow> schema_ok (sys_db s) \<and> books (sys_db s) \<and> (\<forall>c \<in> set (waiting s). waiting_ok c)"

lemma reachable_inv: "reachable s \<Longrightarrow> sys_inv s"
proof (induction rule: reachable_in.induct)
  case initial
  then show ?case by (simp add: sys_inv_def schema_ok_empty books_empty)
next
  case (step s s')
  then have s: "schema_ok (sys_db s)" "books (sys_db s)" "\<forall>c \<in> set (waiting s). waiting_ok c"
    by (simp_all add: sys_inv_def)
  have s': "schema_ok (sys_db s')" by (rule sys_step_schema [OF step(2) s(1)])
  show ?case
    using s' sys_step_waiting [OF step(2) s(3)]
      financial_step_books [OF sys_step_financial [OF step(2) s(1,3)] s(1) s' s(2)]
    by (simp add: sys_inv_def)
qed

end
