(* ===== verification/Outcomes.thy ===== *)
theory Outcomes
  imports System
begin

text \<open>
  The exact result of a wager command: which rows and events each outcome writes and what
  it returns. \<open>command_outcome\<close> is the functional specification of a successful
  \<open>process_decide\<close>; from it follow what is stored for replays and which events are
  announced.
\<close>

section \<open>The three outcomes\<close>

definition rejected_event :: "env \<Rightarrow> ProcessCommand \<Rightarrow> string \<Rightarrow> string \<Rightarrow> uuid \<Rightarrow> uuid \<Rightarrow> time \<Rightarrow> eventEnvelope" where
  "rejected_event E cmd walletID f tid eid now =
     NewWagerTransactionRejectedEvent eid tid (cmdCorrelationID cmd) (cmdCausationID cmd) now
       \<lparr>rdTransactionID = uuid_String E tid, rdWalletID = walletID,
        rdProviderID = reqProviderID (cmdRequest cmd), rdKind = reqKind (cmdRequest cmd), rdFailureCode = f\<rparr>"

definition rejected_outcome ::
  "env \<Rightarrow> ProcessCommand \<Rightarrow> string \<Rightarrow> Wallet \<Rightarrow> string \<Rightarrow> uuid option \<Rightarrow> database \<Rightarrow> ProcessResult \<Rightarrow> database \<Rightarrow> bool" where
  "rejected_outcome E cmd h wallet f ref d res d' \<longleftrightarrow>
     (\<exists>tid eid now u.
        pg_uuid_in E (reqWalletID (cmdRequest cmd)) = Some u
        \<and> d' = d\<lparr>wager_transactions := wager_transactions d @
              [(command_row tid cmd h WagerStateRejected now u)
                 \<lparr>t_referenced_transaction_id := ref, t_failure_code := Some f,
                  t_result_balance := Some (amount (Balance wallet))\<rparr>],
             outbox_events := outbox_events d @ [outbox_row_of (rejected_event E cmd (ID wallet) f tid eid now)]\<rparr>
        \<and> res = \<lparr>resTransactionID = uuid_String E tid, resState = WagerStateRejected,
                 resBalance = Balance wallet, resIdempotentReplay = False, resFailureCode = f\<rparr>)"

definition pending_event :: "env \<Rightarrow> ProcessCommand \<Rightarrow> uuid \<Rightarrow> uuid \<Rightarrow> time \<Rightarrow> eventEnvelope" where
  "pending_event E cmd tid eid now =
     NewWagerTransactionPendingReferenceEvent eid tid (cmdCorrelationID cmd) (cmdCausationID cmd) now
       \<lparr>ndTransactionID = uuid_String E tid, ndProviderID = reqProviderID (cmdRequest cmd),
        ndExternalTransactionID = reqExternalTransactionID (cmdRequest cmd),
        ndReferenceExternalTransactionID = reqReferenceExternalTransactionID (cmdRequest cmd)\<rparr>"

definition pending_outcome ::
  "env \<Rightarrow> ProcessCommand \<Rightarrow> string \<Rightarrow> Money \<Rightarrow> database \<Rightarrow> ProcessResult \<Rightarrow> database \<Rightarrow> bool" where
  "pending_outcome E cmd h bal d res d' \<longleftrightarrow>
     (\<exists>tid eid now u.
        pg_uuid_in E (reqWalletID (cmdRequest cmd)) = Some u
        \<and> d' = d\<lparr>wager_transactions := wager_transactions d @
              [(command_row tid cmd h WagerStatePendingReference now u)
                 \<lparr>t_result_balance := Some (amount bal), t_reference_attempts := 0,
                  t_reference_next_attempt_at := Some (now + referenceRetryDelay),
                  t_reference_expires_at := Some (now + referenceTTL),
                  t_correlation_id := Some (cmdCorrelationID cmd),
                  t_causation_id := nullableString (cmdCausationID cmd)\<rparr>],
             outbox_events := outbox_events d @ [outbox_row_of (pending_event E cmd tid eid now)]\<rparr>
        \<and> res = \<lparr>resTransactionID = uuid_String E tid, resState = WagerStatePendingReference,
                 resBalance = bal, resIdempotentReplay = False, resFailureCode = []\<rparr>)"

lemma insertOutboxEventE [tx_elims]:
  assumes "insertOutboxEvent e E w = Inr (x, w')"
  obtains "fault E (stmt_count w) = None"
    "w' = w\<lparr>db := (db w)\<lparr>outbox_events := outbox_events (db w) @ [outbox_row_of e]\<rparr>, stmt_count := Suc (stmt_count w)\<rparr>"
  using assms unfolding insertOutboxEvent_def by (auto elim!: tx_elims simp: insert_outbox_Inr)

lemma persistRejected_outcome:
  assumes "persistRejectedTransaction cmd h wallet f ref E w = Inr (res, w')"
  shows "rejected_outcome E cmd h wallet f ref (db w) res (db w')"
  unfolding rejected_outcome_def rejected_event_def
  apply (rule exI [of _ "new_uuid E (uuid_count w)"], rule exI [of _ "new_uuid E (Suc (uuid_count w))"],
      rule exI [of _ "time_now E (now_count w)"])
  using assms unfolding persistRejectedTransaction_def insertRejectedEvent_def
  by (auto elim!: tx_elims simp: insert_wager_Inr)

lemma persistPending_outcome:
  assumes "persistPendingReference cmd h bal now E w = Inr (res, w')"
  shows "pending_outcome E cmd h bal (db w) res (db w')"
  unfolding pending_outcome_def pending_event_def
  apply (rule exI [of _ "new_uuid E (uuid_count w)"], rule exI [of _ "new_uuid E (Suc (uuid_count w))"],
      rule exI [of _ now])
  using assms unfolding persistPendingReference_def insertPendingReferenceEvent_def
  by (auto elim!: tx_elims simp: insert_wager_Inr)

text \<open>The events of a processed transaction.\<close>

definition processed_events ::
  "env \<Rightarrow> uuid \<Rightarrow> WagerKind \<Rightarrow> Wallet \<Rightarrow> Money \<Rightarrow> Money \<Rightarrow> string \<Rightarrow> string \<Rightarrow> string \<Rightarrow> time \<Rightarrow> uuid \<Rightarrow> uuid
   \<Rightarrow> eventEnvelope list" where
  "processed_events E tid kind wallet amt before dir c ca now eid eid2 =
     NewWagerTransactionProcessedEvent eid tid c ca now
       \<lparr>pdTransactionID = uuid_String E tid, pdWalletID = ID wallet, pdKind = kind\<rparr>
     # (if kind = WagerKindLoss then []
        else [NewWalletBalanceChangedEvent eid2 tid c ca now
          \<lparr>bdWalletID = ID wallet, bdTransactionID = uuid_String E tid, bdDirection = dir,
           bdMoney = eventpayload_NewMoney amt, bdBalanceBefore = eventpayload_NewMoney before,
           bdBalanceAfter = eventpayload_NewMoney (Balance wallet), bdWalletVersion = Version wallet\<rparr>])"

lemma insertProcessedEventsE:
  assumes "insertProcessedEvents tid kind wallet amt before dir c ca now E w = Inr (x, w')"
  obtains eid eid2 where "db w' = (db w)\<lparr>outbox_events := outbox_events (db w) @
      map outbox_row_of (processed_events E tid kind wallet amt before dir c ca now eid eid2)\<rparr>"
proof -
  have "db w' = (db w)\<lparr>outbox_events := outbox_events (db w) @ map outbox_row_of
      (processed_events E tid kind wallet amt before dir c ca now (new_uuid E (uuid_count w)) (new_uuid E (Suc (uuid_count w))))\<rparr>"
    using assms unfolding insertProcessedEvents_def processed_events_def
    by (auto elim!: tx_elims split: if_splits)
  then show thesis by (rule that)
qed

definition processed_outcome ::
  "env \<Rightarrow> ProcessCommand \<Rightarrow> string \<Rightarrow> Wallet \<Rightarrow> Money \<Rightarrow> uuid option \<Rightarrow> string
   \<Rightarrow> database \<Rightarrow> ProcessResult \<Rightarrow> database \<Rightarrow> bool" where
  "processed_outcome E cmd h wallet' before ref dir d res d' \<longleftrightarrow>
     (\<exists>tid eid eid2 lid now u.
        let q = cmdRequest cmd in
        pg_uuid_in E (reqWalletID q) = Some u
        \<and> wager_transactions d' = wager_transactions d @
             [(command_row tid cmd h WagerStateProcessed now u)
              \<lparr>t_referenced_transaction_id := ref, t_result_balance := Some (amount (Balance wallet'))\<rparr>]
        \<and> inbox_messages d' = inbox_messages d
        \<and> outbox_events d' = outbox_events d @ map outbox_row_of
             (processed_events E tid (reqKind q) wallet' (reqAmount q) before dir (cmdCorrelationID cmd)
                (cmdCausationID cmd) now eid eid2)
        \<and> (if reqKind q = WagerKindLoss
           then wallets d' = wallets d \<and> ledger_entries d' = ledger_entries d
           else \<exists>v. pg_uuid_in E (ID wallet') = Some v
             \<and> wallets d' = update_rows (\<lambda>x. w_id x = v)
                 (\<lambda>x. x\<lparr>w_balance := amount (Balance wallet'), w_version := Version wallet', w_updated_at := now\<rparr>) (wallets d)
             \<and> ledger_entries d' = ledger_entries d @
                 [\<lparr>l_id = lid, l_wallet_id = v, l_transaction_id = tid, l_direction = dir,
                   l_amount = amount (reqAmount q), l_balance_before = amount before,
                   l_balance_after = amount (Balance wallet'), l_created_at = now\<rparr>])
        \<and> res = \<lparr>resTransactionID = uuid_String E tid, resState = WagerStateProcessed,
                 resBalance = Balance wallet', resIdempotentReplay = False, resFailureCode = []\<rparr>)"

lemma process_persist_outcome:
  assumes "process_persist cmd h wallet' before ref mv now E w = Inr (res, w')"
  shows "processed_outcome E cmd h wallet' before (map_option refID ref)
     (ledger_direction (reqKind (cmdRequest cmd)) mv) (db w) res (db w')"
proof -
  let ?q = "cmdRequest cmd" and ?tid = "new_uuid E (uuid_count w)"
  let ?dir = "ledger_direction (reqKind ?q) mv"
  obtain u d1 w2 w3 where u: "pg_uuid_in E (reqWalletID ?q) = Some u"
    and d1: "d1 = (db w)\<lparr>wager_transactions := wager_transactions (db w) @
        [(command_row ?tid cmd h WagerStateProcessed now u)
           \<lparr>t_referenced_transaction_id := map_option refID ref, t_result_balance := Some (amount (Balance wallet'))\<rparr>]\<rparr>"
    and mov: "(if reqKind ?q \<noteq> WagerKindLoss then
         tx_bind (exec_update_wallet ''update wallet'' wallet' now) (\<lambda>_.
         exec_insert_ledger ''insert ledger entry'' wallet' ?tid ?dir (reqAmount ?q) before now)
       else tx_return ()) E
         (w\<lparr>uuid_count := Suc (uuid_count w), db := d1, stmt_count := Suc (stmt_count w)\<rparr>) = Inr ((), w2)"
    and evs: "insertProcessedEvents ?tid (reqKind ?q) wallet' (reqAmount ?q) before ?dir
         (cmdCorrelationID cmd) (cmdCausationID cmd) now E w2 = Inr ((), w3)"
    and res: "res = \<lparr>resTransactionID = uuid_String E ?tid, resState = WagerStateProcessed,
         resBalance = Balance wallet', resIdempotentReplay = False, resFailureCode = []\<rparr>" "w' = w3"
    using assms unfolding process_persist_def Let_def
    by (elim tx_bindE insert_command_rowE uuid_NewE tx_asksE tx_returnE) (auto simp: insert_wager_Inr)
  obtain eid eid2 where e: "db w' = (db w2)\<lparr>outbox_events := outbox_events (db w2) @ map outbox_row_of
      (processed_events E ?tid (reqKind ?q) wallet' (reqAmount ?q) before ?dir (cmdCorrelationID cmd)
         (cmdCausationID cmd) now eid eid2)\<rparr>"
    using evs res(2) by (elim insertProcessedEventsE) simp
  show ?thesis
    unfolding processed_outcome_def Let_def
    apply (rule exI [of _ ?tid], rule exI [of _ eid], rule exI [of _ eid2],
        rule exI [of _ "new_uuid E (Suc (uuid_count w))"], rule exI [of _ now], rule exI [of _ u])
    using u mov res(1) by (auto simp: e d1 update_wallet_Inr insert_ledger_Inr Let_def elim!: tx_elims split: if_splits)
qed

end
