(* ===== verification/Decision.thy ===== *)
theory Decision
  imports Outcomes
begin

text \<open>
  The decision a wager command deserves, as a function of the request, the wallet's balance
  and the stored transactions: wait for its reference, be refused with a failure code, or
  settle with a signed change of the balance. The synchronous handler (\<open>process_decide\<close>) and the
  resolver of pending references (\<open>resolve_pending\<close>) both implement it.
\<close>

section \<open>The specification\<close>

datatype verdict = Await | Refuse string "uuid option" | Settle "uuid option" int

text \<open>The stored transaction a request refers to, by provider and external id.\<close>

definition wager_lookup :: "WagerRequest \<Rightarrow> database \<Rightarrow> wager_row option" where
  "wager_lookup q d =
     List.find (external_identity (reqProviderID q) (reqReferenceExternalTransactionID q)) (wager_transactions d)"

text \<open>Why a processed transaction cannot be the reference of a request.\<close>

definition reference_failure :: "env \<Rightarrow> WagerRequest \<Rightarrow> wager_row \<Rightarrow> string option" where
  "reference_failure E q r0 =
     (if t_player_id r0 \<noteq> reqPlayerID q \<or> uuid_String E (t_wallet_id r0) \<noteq> reqWalletID q
         \<or> coalesce (t_round_id r0) \<noteq> reqRoundID q \<or> t_currency r0 \<noteq> currency (reqAmount q)
      then Some ''REFERENCE_MISMATCH''
      else if t_kind r0 \<notin> referable (reqKind q) then Some ''INVALID_REFERENCE_KIND''
      else if reqKind q \<noteq> WagerKindWin \<and> t_amount r0 \<noteq> amount (reqAmount q)
      then Some ''REFERENCE_AMOUNT_MISMATCH''
      else None)"

text \<open>A movement of sign \<open>s\<close>, refused when it would take more than the balance.\<close>

definition settle :: "int \<Rightarrow> string \<Rightarrow> uuid option \<Rightarrow> Money \<Rightarrow> Money \<Rightarrow> verdict" where
  "settle s code ref bal amt =
     (if s < 0 \<and> units bal < units amt then Refuse code ref else Settle ref (s * units amt))"

definition verdict_on :: "env \<Rightarrow> WagerRequest \<Rightarrow> Money \<Rightarrow> database \<Rightarrow> wager_row \<Rightarrow> verdict" where
  "verdict_on E q bal d r0 =
     (if t_state r0 \<in> {WagerStatePending, WagerStatePendingReference} then Await
      else if t_state r0 \<in> {WagerStateRejected, WagerStateFailed}
      then Refuse ''REFERENCE_TERMINAL_UNSUCCESSFUL'' (Some (t_id r0))
      else case reference_failure E q r0 of
        Some code \<Rightarrow> Refuse code (Some (t_id r0))
      | None \<Rightarrow>
          if reqKind q \<noteq> WagerKindWin \<and> list_ex (reverses (t_id r0)) (wager_transactions d)
          then Refuse ''ALREADY_REVERSED'' (Some (t_id r0))
          else settle (effect_sign (reqKind q) (Some (t_kind r0))) ''REVERSAL_INSUFFICIENT_FUNDS''
                 (Some (t_id r0)) bal (reqAmount q))"

definition verdict :: "env \<Rightarrow> WagerRequest \<Rightarrow> Money \<Rightarrow> database \<Rightarrow> verdict" where
  "verdict E q bal d =
     (if requiresReferenceResolution q then
        (case wager_lookup q d of None \<Rightarrow> Await | Some r0 \<Rightarrow> verdict_on E q bal d r0)
      else settle (effect_sign (reqKind q) None) ''INSUFFICIENT_FUNDS'' None bal (reqAmount q))"

section \<open>The code's checks decide it\<close>

lemma validateReference_failure:
  assumes "t_provider_id r0 = Some (reqProviderID q)" "requiresReferenceResolution q"
  shows "reference_failure E q r0 =
     map_option (\<lambda>e. referenceFailureCode (Sentinel e)) (validateReference E q (scan_reference r0))"
  using assms
  by (auto simp: reference_failure_def validateReference_def referable_def referenceFailureCode_def
      failureCodeReferenceMismatch_def failureCodeReferenceAmountMismatch_def
      failureCodeInvalidReferenceKind_def requiresReferenceResolution_def coalesce_def)

lemma wager_lookup_provider: "wager_lookup q d = Some r0 \<Longrightarrow> t_provider_id r0 = Some (reqProviderID q)"
  by (auto simp: wager_lookup_def external_identity_def dest!: find_SomeD)

lemma verdict_reference:
  "requiresReferenceResolution q \<Longrightarrow> wager_lookup q d = Some r0 \<Longrightarrow> verdict E q bal d = verdict_on E q bal d r0"
  by (simp add: verdict_def)

text \<open>The direction of a settled movement and the ledger's name for it.\<close>

definition direction_of :: "int \<Rightarrow> string" where
  "direction_of delta = (if delta < 0 then DirectionDebit else DirectionCredit)"

lemma settle_Settle: "settle s c ref bal amt = Settle ref' x \<Longrightarrow> ref' = ref \<and> x = s * units amt"
  by (auto simp: settle_def split: if_splits)

definition settled :: "Wallet \<Rightarrow> int \<Rightarrow> Wallet \<Rightarrow> bool" where
  "settled wallet delta wallet' \<longleftrightarrow>
     (if delta = 0 then wallet' = wallet else \<exists>now. moved wallet now delta wallet')"

definition decided ::
  "env \<Rightarrow> ProcessCommand \<Rightarrow> string \<Rightarrow> Wallet \<Rightarrow> verdict \<Rightarrow> database \<Rightarrow> ProcessResult \<Rightarrow> database \<Rightarrow> bool" where
  "decided E cmd h wallet v d res d' \<longleftrightarrow>
     (case v of
        Await \<Rightarrow> pending_outcome E cmd h (Balance wallet) d res d'
      | Refuse code ref \<Rightarrow> rejected_outcome E cmd h wallet code ref d res d'
      | Settle ref delta \<Rightarrow> \<exists>wallet'. settled wallet delta wallet'
          \<and> processed_outcome E cmd h wallet' (Balance wallet) ref (direction_of delta) d res d')"

text \<open>What \<open>process_reference\<close> leaves to be moved: the sign, the code of a refused debit.\<close>

definition pending_move ::
  "WagerRequest \<Rightarrow> referencedTransaction option \<Rightarrow> movementDirection \<Rightarrow> Money \<Rightarrow> verdict" where
  "pending_move q ref mv bal =
     settle (effect_sign (reqKind q) (map_option refKind ref))
       (if ref = None then ''INSUFFICIENT_FUNDS'' else ''REVERSAL_INSUFFICIENT_FUNDS'')
       (map_option refID ref) bal (reqAmount q)"

lemma process_reversal_verdict:
  assumes run: "process_reversal cmd h wallet (scan_reference r0) E w = Inr (p, w1)"
    and r0: "wager_lookup q (db w) = Some r0" "t_state r0 = WagerStateProcessed"
    and q: "q = cmdRequest cmd" "requiresReferenceResolution q"
  shows "case p of
      Done res \<Rightarrow> decided E cmd h wallet (verdict E q (Balance wallet) (db w)) (db w) res (db w1)
    | Continue (ref, mv) \<Rightarrow> db w1 = db w
        \<and> verdict E q (Balance wallet) (db w) = pending_move q ref mv (Balance wallet)
        \<and> (reqKind q \<in> {WagerKindRefund, WagerKindRollback} \<longrightarrow>
             (\<exists>f. ref = Some f \<and> reversalDirection (reqKind q) f = Inr mv))"
  using run validateReference_failure [OF wager_lookup_provider [OF r0(1)] q(2), of E]
    verdict_reference [OF q(2) r0(1), of E "Balance wallet"]
  unfolding process_reversal_def q(1)
  by (auto elim!: tx_elims split: option.splits if_splits dest!: persistRejected_outcome
      simp: r0(2) verdict_on_def decided_def pending_move_def failureCodeAlreadyReversed_def)

text \<open>The references of the three kinds that may have one, found or not.\<close>

lemma process_reference_verdict:
  assumes run: "process_reference cmd h wallet E w = Inr (p, w1)" and q: "q = cmdRequest cmd"
  shows "case p of
      Done res \<Rightarrow> decided E cmd h wallet (verdict E q (Balance wallet) (db w)) (db w) res (db w1)
    | Continue (ref, mv) \<Rightarrow> db w1 = db w
        \<and> verdict E q (Balance wallet) (db w) = pending_move q ref mv (Balance wallet)
        \<and> (reqKind q \<in> {WagerKindRefund, WagerKindRollback} \<longrightarrow>
             (\<exists>f. ref = Some f \<and> reversalDirection (reqKind q) f = Inr mv))"
proof (cases "requiresReferenceResolution q")
  case False
  then show ?thesis
    using run unfolding process_reference_def q
    by (auto elim!: tx_elims simp: verdict_def pending_move_def requiresReferenceResolution_def)
next
  case True
  note eq = verdict_reference [OF True, of "db w" _ E "Balance wallet"]
  have none: "wager_lookup q (db w) = None \<Longrightarrow> verdict E q (Balance wallet) (db w) = Await"
    using True by (simp add: verdict_def)
  show ?thesis
    using run True unfolding process_reference_def
    by (auto elim!: tx_elims split: option.splits if_splits
        dest!: persistRejected_outcome persistPending_outcome process_reversal_verdict [OF _ _ _ q True]
        simp: q [symmetric] wager_lookup_def [symmetric] none eq verdict_on_def decided_def
          failureCodeReferenceTerminalUnsuccessful_def
        split: phase.splits prod.splits)
qed

text \<open>The movement: a refused debit or a moved wallet.\<close>

lemma Wallet_Debit_insufficient_is:
  "Wallet_Debit w m now = Inl e \<Longrightarrow> errors_is e ErrInsufficientFunds \<Longrightarrow> units (Balance w) < units m"
  by (auto simp: Wallet_Debit_def res_bind_eq_Inl Money_Compare_units Money_Subtract_units
      validateVersionIncrement_def sgn_if split: if_splits option.splits)

lemma debit_step_verdict:
  assumes "debit_step cmd h wallet code ref now E w = Inr (m, w2)" "amt = reqAmount (cmdRequest cmd)"
  shows "case m of
      Done res \<Rightarrow> units (Balance wallet) < units amt \<and> rejected_outcome E cmd h wallet code ref (db w) res (db w2)
    | Continue wallet' \<Rightarrow> db w2 = db w \<and> units amt \<le> units (Balance wallet) \<and> moved wallet now (- units amt) wallet'"
  using assms unfolding debit_step_def
  by (auto elim!: tx_elims split: if_splits sum.splits
      dest: Wallet_Debit_Inr Wallet_Debit_insufficient_is persistRejected_outcome)

lemma credit_step_verdict:
  assumes "credit_step wallet amt now E w = Inr (m, w2)"
  shows "\<exists>wallet'. m = Continue wallet' \<and> db w2 = db w \<and> moved wallet now (units amt) wallet'"
  using assms unfolding credit_step_def by (auto elim!: tx_elims dest: Wallet_Credit_Inr)

lemma reversal_move_verdict:
  assumes run: "process_move cmd h wallet ref mv now E w = Inr (m, w2)" and q: "q = cmdRequest cmd"
    and kind: "reqKind q \<in> {WagerKindRefund, WagerKindRollback}" and amt: "0 < units (reqAmount q)"
    and f: "ref = Some f" "reversalDirection (reqKind q) f = Inr mv"
  shows "case m of
      Done res \<Rightarrow> decided E cmd h wallet (pending_move q ref mv (Balance wallet)) (db w) res (db w2)
    | Continue wallet' \<Rightarrow> db w2 = db w \<and> (\<exists>delta.
        pending_move q ref mv (Balance wallet) = Settle (map_option refID ref) delta
        \<and> settled wallet delta wallet'
        \<and> direction_of delta = ledger_direction (reqKind q) mv)"
proof -
  have sgn: "effect_sign (reqKind q) (Some (refKind f)) = movement_sign mv"
    and dir: "mv = movementCredit \<or> mv = movementDebit"
    using reversalDirection_sign [OF f(2)] by simp_all
  have refund: "reqKind q = WagerKindRefund \<Longrightarrow> mv = movementCredit"
    using f(2) by (simp add: reversalDirection_def split: if_splits)
  have pm: "pending_move q ref mv (Balance wallet) =
      settle (movement_sign mv) ''REVERSAL_INSUFFICIENT_FUNDS'' (Some (refID f)) (Balance wallet) (reqAmount q)"
    by (simp add: pending_move_def f(1) sgn)
  have ld: "ledger_direction (reqKind q) mv = (if mv = movementCredit then DirectionCredit else DirectionDebit)"
    using kind dir refund by (auto simp: ledger_direction_def)
  from dir show ?thesis
  proof
    assume mv: "mv = movementCredit"
    with run kind have "credit_step wallet (reqAmount q) now E w = Inr (m, w2)"
      unfolding process_move_def q [symmetric] by auto
    from credit_step_verdict [OF this] show ?thesis
      using amt unfolding pm ld
      by (auto simp: mv settle_def movement_sign_def settled_def direction_of_def f(1))
  next
    assume mv: "mv = movementDebit"
    with run kind have "debit_step cmd h wallet ''REVERSAL_INSUFFICIENT_FUNDS'' (map_option refID ref) now E w = Inr (m, w2)"
      unfolding process_move_def q [symmetric] by auto
    from debit_step_verdict [OF this refl, folded q] show ?thesis
      using amt unfolding pm ld
      by (auto simp: mv settle_def movement_sign_def settled_def decided_def direction_of_def f(1)
          split: phase.splits)
  qed
qed

lemma process_move_verdict:
  assumes run: "process_move cmd h wallet ref mv now E w = Inr (m, w2)" and q: "q = cmdRequest cmd"
    and contract: "request_contract q"
    and mv: "reqKind q \<in> {WagerKindRefund, WagerKindRollback} \<longrightarrow>
        (\<exists>f. ref = Some f \<and> reversalDirection (reqKind q) f = Inr mv)"
    and bet: "requiresReferenceResolution q \<or> ref = None"
  shows "case m of
      Done res \<Rightarrow> decided E cmd h wallet (pending_move q ref mv (Balance wallet)) (db w) res (db w2)
    | Continue wallet' \<Rightarrow> db w2 = db w \<and> (\<exists>delta.
        pending_move q ref mv (Balance wallet) = Settle (map_option refID ref) delta
        \<and> settled wallet delta wallet'
        \<and> direction_of delta = ledger_direction (reqKind q) mv)"
proof -
  note simps = pending_move_def settle_def decided_def settled_def direction_of_def ledger_direction_def
    requiresReferenceResolution_def
  consider "reqKind q = WagerKindLoss" "units (reqAmount q) = 0" | "reqKind q = WagerKindBet" "0 < units (reqAmount q)"
    | "reqKind q = WagerKindWin" "0 < units (reqAmount q)"
    | f where "reqKind q \<in> {WagerKindRefund, WagerKindRollback}" "0 < units (reqAmount q)" "ref = Some f"
        "reversalDirection (reqKind q) f = Inr mv"
    using contract mv by (auto simp: request_contract_def)
  then show ?thesis
  proof cases
    case 1
    then show ?thesis
      using run bet unfolding process_move_def q [symmetric]
      by (auto simp: simps effect_sign_def elim!: tx_elims)
  next
    case 2
    then show ?thesis
      using run bet debit_step_verdict [OF _ refl, of cmd h wallet "''INSUFFICIENT_FUNDS''" None now E w m w2]
      unfolding process_move_def q [symmetric]
      by (auto simp: simps effect_sign_def split: phase.splits)
  next
    case 3
    then show ?thesis
      using run credit_step_verdict [of wallet "reqAmount q" now E w m w2]
      unfolding process_move_def q [symmetric] by (auto simp: simps effect_sign_def)
  next
    case 4
    then show ?thesis by (rule reversal_move_verdict [OF run q])
  qed
qed

lemma process_decide_verdict:
  assumes run: "process_decide cmd h wallet E w = Inr (res, w')" and q: "q = cmdRequest cmd"
    and contract: "request_contract q"
  shows "decided E cmd h wallet (verdict E q (Balance wallet) (db w)) (db w) res (db w')"
proof -
  obtain p w1 where ref: "process_reference cmd h wallet E w = Inr (p, w1)"
    and rest: "(case p of Done result \<Rightarrow> tx_return result
      | Continue (reference, reversalMovement) \<Rightarrow>
         tx_bind time_Now (\<lambda>now.
         tx_bind (process_move cmd h wallet reference reversalMovement now) (\<lambda>m.
         case m of Done result \<Rightarrow> tx_return result
         | Continue wallet' \<Rightarrow>
             process_persist cmd h wallet' (Balance wallet) reference reversalMovement now))) E w1 = Inr (res, w')"
    using run unfolding process_decide_def by (elim tx_bindE)
  note pv = process_reference_verdict [OF ref q]
  show ?thesis
  proof (cases p)
    case (Done result)
    with rest pv show ?thesis by (auto elim!: tx_elims)
  next
    case (Continue y)
    obtain f mv where p: "p = Continue (f, mv)" using Continue by (cases y) auto
    have none: "requiresReferenceResolution q \<or> f = None"
      using ref unfolding p process_reference_def q by (auto elim!: tx_elims split: if_splits)
    obtain m w2 now where mov: "process_move cmd h wallet f mv now E (w1\<lparr>now_count := Suc (now_count w1)\<rparr>) = Inr (m, w2)"
      and fin: "(case m of Done result \<Rightarrow> tx_return result
         | Continue wallet' \<Rightarrow> process_persist cmd h wallet' (Balance wallet) f mv now) E w2 = Inr (res, w')"
      using rest unfolding p by (auto elim!: tx_elims)
    from pv p have v: "verdict E q (Balance wallet) (db w) = pending_move q f mv (Balance wallet)" "db w1 = db w"
      and dir: "reqKind q \<in> {WagerKindRefund, WagerKindRollback} \<longrightarrow>
        (\<exists>x. f = Some x \<and> reversalDirection (reqKind q) x = Inr mv)"
      by simp_all
    note mc = process_move_verdict [OF mov q contract dir none]
    show ?thesis
    proof (cases m)
      case (Done result)
      with fin mc v show ?thesis by (auto elim!: tx_elims)
    next
      case (Continue wallet')
      with mc v(2) obtain delta where
          "pending_move q f mv (Balance wallet) = Settle (map_option refID f) delta"
          "settled wallet delta wallet'" "direction_of delta = ledger_direction (reqKind q) mv" "db w2 = db w"
        by auto
      moreover have "process_persist cmd h wallet' (Balance wallet) f mv now E w2 = Inr (res, w')"
        using fin Continue by simp
      from process_persist_outcome [OF this, folded q]
      have "processed_outcome E cmd h wallet' (Balance wallet) (map_option refID f)
          (ledger_direction (reqKind q) mv) (db w2) res (db w')" .
      ultimately show ?thesis unfolding v(1) decided_def by auto
    qed
  qed
qed

end
