(* ===== verification/Resolver_Decision.thy ===== *)
theory Resolver_Decision
  imports Decision
begin

text \<open>
  The resolver of pending references implements the same decision as the synchronous
  handler: a pending transaction that has not expired is rescheduled, rejected or processed
  as \<open>verdict\<close> says of its request, the balance and the database of that moment, and one
  that has expired is rejected without a movement.
\<close>

section \<open>The outcomes\<close>

definition retry_at :: "pendingReferenceTransaction \<Rightarrow> time \<Rightarrow> time" where
  "retry_at p now =
     (let t = now + referenceRetryBackoff (pnReferenceAttempts p + 1) in
      case pnReferenceExpiresAt p of None \<Rightarrow> t | Some e \<Rightarrow> min t e)"

definition retry_outcome ::
  "pendingReferenceTransaction \<Rightarrow> time \<Rightarrow> database \<Rightarrow> resolve_outcome \<Rightarrow> database \<Rightarrow> bool" where
  "retry_outcome p now d out d' \<longleftrightarrow>
     (\<exists>text. out = RetryScheduled text)
     \<and> d' = d\<lparr>wager_transactions := update_rows (is_pending (pnID p))
          (reschedule_row (pnReferenceAttempts p + 1) (retry_at p now) now) (wager_transactions d)\<rparr>"

definition refused_outcome ::
  "env \<Rightarrow> pendingReferenceTransaction \<Rightarrow> Wallet \<Rightarrow> time \<Rightarrow> string \<Rightarrow> uuid option \<Rightarrow> database
   \<Rightarrow> resolve_outcome \<Rightarrow> database \<Rightarrow> bool" where
  "refused_outcome E p wallet now code ref d out d' \<longleftrightarrow>
     (\<exists>text. out = PendingRejected text)
     \<and> (\<exists>eid. d' = d\<lparr>wager_transactions := update_rows (is_pending (pnID p))
            (reject_row code (amount (Balance wallet)) ref now) (wager_transactions d),
          outbox_events := outbox_events d @ [outbox_row_of
            (NewWagerTransactionRejectedEvent eid (pnID p) (pnCorrelationID p) (pnCausationID p) now
               \<lparr>rdTransactionID = uuid_String E (pnID p), rdWalletID = ID wallet,
                rdProviderID = reqProviderID (pnRequest p), rdKind = reqKind (pnRequest p),
                rdFailureCode = code\<rparr>)]\<rparr>)"

definition resolved_outcome ::
  "env \<Rightarrow> pendingReferenceTransaction \<Rightarrow> Wallet \<Rightarrow> Money \<Rightarrow> time \<Rightarrow> uuid \<Rightarrow> string \<Rightarrow> database
   \<Rightarrow> resolve_outcome \<Rightarrow> database \<Rightarrow> bool" where
  "resolved_outcome E p wallet' before now ref dir d out d' \<longleftrightarrow>
     (\<exists>text. out = PendingProcessed text)
     \<and> (\<exists>v lid eid eid2. pg_uuid_in E (ID wallet') = Some v
        \<and> wallets d' = update_rows (\<lambda>x. w_id x = v)
            (\<lambda>x. x\<lparr>w_balance := amount (Balance wallet'), w_version := Version wallet', w_updated_at := now\<rparr>) (wallets d)
        \<and> wager_transactions d' = update_rows (is_pending (pnID p))
            (processed_row ref (amount (Balance wallet')) now) (wager_transactions d)
        \<and> ledger_entries d' = ledger_entries d @
            [\<lparr>l_id = lid, l_wallet_id = v, l_transaction_id = pnID p, l_direction = dir,
              l_amount = amount (reqAmount (pnRequest p)), l_balance_before = amount before,
              l_balance_after = amount (Balance wallet'), l_created_at = now\<rparr>]
        \<and> inbox_messages d' = inbox_messages d
        \<and> outbox_events d' = outbox_events d @ map outbox_row_of
            (processed_events E (pnID p) (reqKind (pnRequest p)) wallet' (reqAmount (pnRequest p)) before dir
               (pnCorrelationID p) (pnCausationID p) now eid eid2))"

definition resolved ::
  "env \<Rightarrow> pendingReferenceTransaction \<Rightarrow> Wallet \<Rightarrow> time \<Rightarrow> verdict \<Rightarrow> database \<Rightarrow> resolve_outcome \<Rightarrow> database \<Rightarrow> bool" where
  "resolved E p wallet now v d out d' \<longleftrightarrow>
     (case v of
        Await \<Rightarrow> retry_outcome p now d out d'
      | Refuse code ref \<Rightarrow> refused_outcome E p wallet now code ref d out d'
      | Settle ref delta \<Rightarrow> \<exists>i wallet'. ref = Some i \<and> moved wallet now delta wallet'
          \<and> resolved_outcome E p wallet' (Balance wallet) now i (direction_of delta) d out d')"

section \<open>The handlers reach them\<close>

lemma schedule_outcome:
  assumes "tx_bind (schedulePendingReferenceRetry p now) (\<lambda>_. tx_return (RetryScheduled t)) E w = Inr (out, w')"
  shows "retry_outcome p now (db w) out (db w')"
  using assms unfolding schedulePendingReferenceRetry_def Let_def
  by (auto elim!: tx_elims dest!: update_pending_Inr
      simp: retry_outcome_def retry_at_def Let_def min_def not_less split: option.splits if_splits)

lemma reject_outcome:
  assumes "reject_and_commit t p wallet code now ref E w = Inr (out, w')"
  shows "refused_outcome E p wallet now code ref (db w) out (db w')"
  using assms unfolding reject_and_commit_def rejectPendingReference_def insertRejectedEvent_def
  by (auto elim!: tx_elims dest!: update_pending_Inr simp: refused_outcome_def)

lemma persist_outcome:
  assumes "resolve_persist p wallet' before ref direction now E w = Inr (out, w')"
  shows "resolved_outcome E p wallet' before now ref
     (if direction = movementDebit then DirectionDebit else DirectionCredit) (db w) out (db w')"
proof -
  let ?dir = "if direction = movementDebit then DirectionDebit else DirectionCredit"
  from assms obtain a w1 b w2 c w3 where
      s1: "exec_update_wallet ''update wallet resolving pending reference'' wallet' now E w = Inr (a, w1)"
    and s2: "exec_update_pending ''mark pending reference processed''
         ''pending reference was not marked processed'' (pnID p)
         (processed_row ref (amount (Balance wallet')) now) E w1 = Inr (b, w2)"
    and s3: "exec_insert_ledger ''insert ledger resolving pending reference'' wallet' (pnID p)
         ?dir (reqAmount (pnRequest p)) before now E w2 = Inr (c, w3)"
    and s4: "insertProcessedEvents (pnID p) (reqKind (pnRequest p)) wallet' (reqAmount (pnRequest p)) before ?dir
        (pnCorrelationID p) (pnCausationID p) now E w3 = Inr ((), w')"
    and out: "out = PendingProcessed ''commit resolved pending reference''"
    unfolding resolve_persist_def Let_def by (elim tx_bindE tx_returnE) simp
  from s1 obtain v where v: "pg_uuid_in E (ID wallet') = Some v"
    and d1: "db w1 = (db w)\<lparr>wallets := update_rows (\<lambda>x. w_id x = v)
        (\<lambda>x. x\<lparr>w_balance := amount (Balance wallet'), w_version := Version wallet', w_updated_at := now\<rparr>) (wallets (db w))\<rparr>"
    by (elim exec_update_walletE) (simp add: update_wallet_Inr Let_def)
  from s2 have d2: "db w2 = (db w1)\<lparr>wager_transactions := update_rows (is_pending (pnID p))
        (processed_row ref (amount (Balance wallet')) now) (wager_transactions (db w1))\<rparr>"
    by (elim exec_update_pendingE) (simp add: update_pending_Inr)
  from s3 v have d3: "db w3 = (db w2)\<lparr>ledger_entries := ledger_entries (db w2) @
        [\<lparr>l_id = new_uuid E (uuid_count w2), l_wallet_id = v, l_transaction_id = pnID p, l_direction = ?dir,
          l_amount = amount (reqAmount (pnRequest p)), l_balance_before = amount before,
          l_balance_after = amount (Balance wallet'), l_created_at = now\<rparr>]\<rparr>"
    by (elim exec_insert_ledgerE) (simp add: insert_ledger_Inr)
  from s4 obtain eid eid2 where d4: "db w' = (db w3)\<lparr>outbox_events := outbox_events (db w3) @ map outbox_row_of
      (processed_events E (pnID p) (reqKind (pnRequest p)) wallet' (reqAmount (pnRequest p)) before ?dir
         (pnCorrelationID p) (pnCausationID p) now eid eid2)\<rparr>"
    by (elim insertProcessedEventsE)
  show ?thesis
    unfolding resolved_outcome_def out d4 d3 d2 d1
    by (intro conjI exI [of _ v] exI [of _ "new_uuid E (uuid_count w2)"] exI [of _ eid] exI [of _ eid2] exI)
      (simp_all add: v)
qed

lemma resolve_move_verdict:
  assumes run: "resolve_move p wallet now i direction E w = Inr (out, w')"
    and dir: "direction = movementCredit \<or> direction = movementDebit" and q: "q = pnRequest p"
  shows "resolved E p wallet now
     (settle (movement_sign direction) ''REVERSAL_INSUFFICIENT_FUNDS'' (Some i) (Balance wallet) (reqAmount q))
     (db w) out (db w')"
  using dir
proof
  assume mv: "direction = movementCredit"
  with run obtain wallet' where c: "Wallet_Credit wallet (reqAmount q) now = Inr wallet'"
    and r: "resolve_persist p wallet' (Balance wallet) i direction now E w = Inr (out, w')"
    unfolding resolve_move_def Let_def q [symmetric] by (auto elim!: tx_bindE tx_liftE)
  from Wallet_Credit_Inr [OF c] persist_outcome [OF r] show ?thesis
    by (auto simp: mv settle_def movement_sign_def resolved_def direction_of_def)
next
  assume mv: "direction = movementDebit"
  show ?thesis
  proof (cases "Wallet_Debit wallet (reqAmount q) now")
    case (Inr wallet')
    with run mv have r: "resolve_persist p wallet' (Balance wallet) i direction now E w = Inr (out, w')"
      unfolding resolve_move_def Let_def q [symmetric] by simp
    from Wallet_Debit_Inr [OF Inr] persist_outcome [OF r] show ?thesis
      by (auto simp: mv settle_def movement_sign_def resolved_def direction_of_def)
  next
    case (Inl e)
    with run mv have e: "errors_is e ErrInsufficientFunds"
      and r: "reject_and_commit ''commit rejected pending reference'' p wallet ''REVERSAL_INSUFFICIENT_FUNDS'' now (Some i)
        E w = Inr (out, w')"
      unfolding resolve_move_def Let_def q [symmetric] by (auto elim: tx_failE split: if_splits)
    from Wallet_Debit_insufficient_is [OF Inl e] reject_outcome [OF r] show ?thesis
      by (simp add: mv settle_def movement_sign_def resolved_def)
  qed
qed

text \<open>A REFUND or ROLLBACK whose reference is valid.\<close>

lemma resolve_reversal_verdict:
  assumes run: "(tx_bind (referenceAlreadyReversed (t_id r0)) (\<lambda>alreadyReversed.
        if alreadyReversed then reject_and_commit ''commit already reversed pending reference'' p wallet
            failureCodeAlreadyReversed now (Some (t_id r0))
        else tx_bind (tx_lift (reversalDirection (reqKind q) (scan_reference r0)))
            (\<lambda>direction. resolve_move p wallet now (t_id r0) direction))) E w = Inr (out, w')"
    and v: "verdict E q (Balance wallet) (db w) =
        (if list_ex (reverses (t_id r0)) (wager_transactions (db w))
         then Refuse ''ALREADY_REVERSED'' (Some (t_id r0))
         else settle (effect_sign (reqKind q) (Some (t_kind r0))) ''REVERSAL_INSUFFICIENT_FUNDS''
                (Some (t_id r0)) (Balance wallet) (reqAmount q))"
    and q: "q = pnRequest p"
  shows "resolved E p wallet now (verdict E q (Balance wallet) (db w)) (db w) out (db w')"
proof -
  define rev where "rev = list_ex (reverses (t_id r0)) (wager_transactions (db w))"
  from run have k: "(if rev then reject_and_commit ''commit already reversed pending reference'' p wallet
          failureCodeAlreadyReversed now (Some (t_id r0))
        else tx_bind (tx_lift (reversalDirection (reqKind q) (scan_reference r0)))
          (\<lambda>direction. resolve_move p wallet now (t_id r0) direction))
        E (w\<lparr>stmt_count := Suc (stmt_count w)\<rparr>) = Inr (out, w')"
    unfolding rev_def by (auto elim!: tx_bindE referenceAlreadyReversedE)
  show ?thesis
  proof (cases rev)
    case True
    with k have "reject_and_commit ''commit already reversed pending reference'' p wallet
          failureCodeAlreadyReversed now (Some (t_id r0)) E (w\<lparr>stmt_count := Suc (stmt_count w)\<rparr>) = Inr (out, w')" by simp
    from reject_outcome [OF this] True show ?thesis
      by (simp add: v rev_def resolved_def failureCodeAlreadyReversed_def)
  next
    case False
    with k obtain mv where mv: "reversalDirection (reqKind q) (scan_reference r0) = Inr mv"
      and r: "resolve_move p wallet now (t_id r0) mv E (w\<lparr>stmt_count := Suc (stmt_count w)\<rparr>) = Inr (out, w')"
      by (auto elim!: tx_bindE tx_liftE)
    have s: "movement_sign mv = effect_sign (reqKind q) (Some (t_kind r0))"
      and d: "mv = movementCredit \<or> mv = movementDebit"
      using reversalDirection_sign [OF mv] by simp_all
    from resolve_move_verdict [OF r d q] False show ?thesis by (simp add: v s rev_def)
  qed
qed

lemma resolve_processed_verdict:
  assumes run: "resolve_processed p wallet now (scan_reference r0) E w = Inr (out, w')"
    and r0: "wager_lookup q (db w) = Some r0" "t_state r0 = WagerStateProcessed"
    and q: "q = pnRequest p" "requiresReferenceResolution q"
  shows "resolved E p wallet now (verdict E q (Balance wallet) (db w)) (db w) out (db w')"
proof -
  note fail = validateReference_failure [OF wager_lookup_provider [OF r0(1)] q(2), of E]
  note eq = verdict_reference [OF q(2) r0(1), of E "Balance wallet"]
  show ?thesis
  proof (cases "validateReference E q (scan_reference r0)")
    case (Some e)
    with run have "reject_and_commit ''commit invalid pending reference'' p wallet
        (referenceFailureCode (Sentinel e)) now (Some (t_id r0)) E w = Inr (out, w')"
      unfolding resolve_processed_def q(1) [symmetric] by (auto elim!: tx_bindE tx_asksE)
    from reject_outcome [OF this] show ?thesis
      by (simp add: eq verdict_on_def r0(2) fail Some resolved_def)
  next
    case None
    note v = eq verdict_on_def r0(2) fail None
    show ?thesis
    proof (cases "reqKind q = WagerKindWin")
      case True
      with run None have "resolve_move p wallet now (t_id r0) movementCredit E w = Inr (out, w')"
        unfolding resolve_processed_def q(1) [symmetric] by (auto elim!: tx_bindE tx_asksE)
      from resolve_move_verdict [OF this _ q(1)] True show ?thesis
        by (simp add: v effect_sign_def movement_sign_def)
    next
      case False
      have "refID (scan_reference r0) = t_id r0" by simp
      note run' = run [unfolded resolve_processed_def q(1) [symmetric] this]
      show ?thesis
        by (rule resolve_reversal_verdict [OF _ _ q(1)]) (use run' None False in \<open>simp_all add: tx_simps v\<close>)
    qed
  qed
qed

lemma resolve_reference_verdict:
  assumes run: "resolve_reference p wallet now E w = Inr (out, w')"
    and q: "q = pnRequest p" "requiresReferenceResolution q"
  shows "resolved E p wallet now (verdict E q (Balance wallet) (db w)) (db w) out (db w')"
proof -
  let ?w1 = "w\<lparr>stmt_count := Suc (stmt_count w)\<rparr>"
  have v: "verdict E q (Balance wallet) (db w) =
      (case wager_lookup q (db w) of None \<Rightarrow> Await | Some r0 \<Rightarrow> verdict_on E q (Balance wallet) (db w) r0)"
    using q(2) by (simp add: verdict_def)
  from run have k: "(case map_option scan_reference (wager_lookup q (db w)) of
       None \<Rightarrow> tx_bind (schedulePendingReferenceRetry p now)
           (\<lambda>_. tx_return (RetryScheduled ''commit pending reference retry''))
     | Some reference \<Rightarrow>
         if refState reference = WagerStatePending \<or> refState reference = WagerStatePendingReference then
           tx_bind (schedulePendingReferenceRetry p now)
             (\<lambda>_. tx_return (RetryScheduled ''commit pending reference dependency retry''))
         else if refState reference = WagerStateRejected \<or> refState reference = WagerStateFailed then
           reject_and_commit ''commit terminal unsuccessful reference'' p wallet
             failureCodeReferenceTerminalUnsuccessful now (Some (refID reference))
         else if refState reference = WagerStateProcessed then resolve_processed p wallet now reference
         else tx_fail (PlainError ''unsupported referenced transaction state'')) E ?w1 = Inr (out, w')"
    unfolding resolve_reference_def q(1) wager_lookup_def by (elim tx_bindE findReferencedTransactionE) simp
  show ?thesis
  proof (cases "wager_lookup q (db w)")
    case None
    with k schedule_outcome show ?thesis by (fastforce simp: v resolved_def)
  next
    case (Some r0)
    consider "t_state r0 \<in> {WagerStatePending, WagerStatePendingReference}"
      | "t_state r0 \<in> {WagerStateRejected, WagerStateFailed}" | "t_state r0 = WagerStateProcessed"
      using k Some by (auto elim: tx_failE split: if_splits)
    then show ?thesis
    proof cases
      case 1
      with k Some schedule_outcome show ?thesis by (fastforce simp: v verdict_on_def resolved_def)
    next
      case 2
      with k Some have "reject_and_commit ''commit terminal unsuccessful reference'' p wallet
             failureCodeReferenceTerminalUnsuccessful now (Some (t_id r0)) E ?w1 = Inr (out, w')" by auto
      from reject_outcome [OF this] 2 Some show ?thesis
        by (auto simp: v verdict_on_def resolved_def failureCodeReferenceTerminalUnsuccessful_def)
    next
      case 3
      with k Some have "resolve_processed p wallet now (scan_reference r0) E ?w1 = Inr (out, w')" by simp
      from resolve_processed_verdict [OF this _ 3 q] Some show ?thesis by simp
    qed
  qed
qed

end
