(* ===== verification/Idempotency.thy ===== *)
theory Idempotency
  imports Resolver_Decision
begin

text \<open>
  Whole commands. A successful \<open>ProcessTx\<close> either replays a stored transaction or decides a
  new one as \<open>verdict\<close> says; what it stored answers every later command with the same
  provider and idempotency key, however the database grew in between.
\<close>

section \<open>What a successful command did\<close>

text \<open>The command as processed: a missing correlation id was generated.\<close>

definition correlated :: "env \<Rightarrow> ProcessCommand \<Rightarrow> ProcessCommand \<Rightarrow> bool" where
  "correlated E cmd c \<longleftrightarrow>
     (if cmdCorrelationID cmd = [] then \<exists>u. c = cmd\<lparr>cmdCorrelationID := uuid_String E u\<rparr> else c = cmd)"

lemma correlated_simps:
  assumes "correlated E cmd c"
  shows "cmdRequest c = cmdRequest cmd" "cmdIdempotencyKey c = cmdIdempotencyKey cmd"
    "cmdCausationID c = cmdCausationID cmd"
  using assms by (auto simp: correlated_def split: if_splits)

text \<open>The transaction stored under the command's provider and idempotency key.\<close>

definition stored_for :: "ProcessCommand \<Rightarrow> database \<Rightarrow> wager_row option" where
  "stored_for cmd d =
     List.find (idempotency_identity (reqProviderID (cmdRequest cmd)) (cmdIdempotencyKey cmd)) (wager_transactions d)"

definition known_external :: "WagerRequest \<Rightarrow> database \<Rightarrow> bool" where
  "known_external q d \<longleftrightarrow>
     list_ex (external_identity (reqProviderID q) (reqExternalTransactionID q)) (wager_transactions d)"

text \<open>The wallet a command names, as its row is read.\<close>

definition wallet_of :: "env \<Rightarrow> string \<Rightarrow> database \<Rightarrow> Wallet \<Rightarrow> bool" where
  "wallet_of E i d wallet \<longleftrightarrow>
     (\<exists>x \<in> set (wallets d). pg_uuid_in E i = Some (w_id x) \<and> scan_wallet E x = Inr wallet)"

definition new_decision ::
  "env \<Rightarrow> ProcessCommand \<Rightarrow> database \<Rightarrow> ProcessResult \<Rightarrow> database \<Rightarrow> bool" where
  "new_decision E cmd d res d' \<longleftrightarrow>
     \<not> known_external (cmdRequest cmd) d
     \<and> (\<exists>wallet c. wallet_of E (reqWalletID (cmdRequest cmd)) d wallet \<and> correlated E cmd c
        \<and> PlayerID wallet = reqPlayerID (cmdRequest cmd)
        \<and> currency (Balance wallet) = currency (reqAmount (cmdRequest cmd))
        \<and> decided E c (PayloadHash (cmdRequest cmd)) wallet
            (verdict E (cmdRequest cmd) (Balance wallet) d) d res d')"

definition command_result ::
  "env \<Rightarrow> ProcessCommand \<Rightarrow> database \<Rightarrow> ProcessResult \<Rightarrow> database \<Rightarrow> bool" where
  "command_result E cmd d res d' \<longleftrightarrow>
     (case stored_for cmd d of
        Some r \<Rightarrow> replay_of E (PayloadHash (cmdRequest cmd)) r = Inr res \<and> d' = d
      | None \<Rightarrow> new_decision E cmd d res d')"

lemma process_begin_correlated:
  assumes "process_begin cmd E w = Inr (Continue (c, h), w1)"
  shows "correlated E cmd c \<and> h = PayloadHash (cmdRequest cmd) \<and> db w1 = db w
    \<and> request_contract (cmdRequest cmd) \<and> stored_for cmd (db w) = None"
  using assms unfolding process_begin_def Let_def
  by (auto elim!: tx_bindE tx_returnE tx_failE findIdempotentReplayE
      simp: correlated_def stored_for_def ValidateExternal_None tx_simps split: option.splits if_splits)

lemma process_begin_replay:
  assumes "process_begin cmd E w = Inr (Done r, w1)"
  shows "command_result E cmd (db w) r (db w1)"
  using assms unfolding process_begin_def Let_def
  by (auto elim!: tx_bindE tx_returnE tx_failE findIdempotentReplayE
      simp: command_result_def stored_for_def tx_simps split: option.splits if_splits)

lemma process_locked_result:
  assumes run: "process_locked c h E w = Inr (res, w')" and cor: "correlated E cmd c"
    and h: "h = PayloadHash (cmdRequest cmd)" and contract: "request_contract (cmdRequest cmd)"
  shows "command_result E cmd (db w) res (db w')"
proof -
  note eq = correlated_simps [OF cor]
  obtain wallet x w1 where w1: "db w1 = db w" and x: "x \<in> set (wallets (db w))"
      "pg_uuid_in E (reqWalletID (cmdRequest cmd)) = Some (w_id x)" "scan_wallet E x = Inr wallet"
    and k: "case stored_for cmd (db w) of
          Some r \<Rightarrow> replay_of E h r = Inr res \<and> db w' = db w
        | None \<Rightarrow> process_new c h wallet E w1 = Inr (res, w')"
    using process_locked_Inr [OF run] unfolding eq stored_for_def by blast
  have wal: "wallet_of E (reqWalletID (cmdRequest cmd)) (db w) wallet"
    using x by (auto simp: wallet_of_def)
  show ?thesis
  proof (cases "stored_for cmd (db w)")
    case (Some r)
    with k h show ?thesis by (simp add: command_result_def)
  next
    case None
    with k have "process_new c h wallet E w1 = Inr (res, w')" by simp
    from process_new_Inr [OF this] obtain w2 where w2: "db w2 = db w"
      and dec: "process_decide c h wallet E w2 = Inr (res, w')"
      and "\<not> known_external (cmdRequest cmd) (db w)" "PlayerID wallet = reqPlayerID (cmdRequest cmd)"
        "currency (Balance wallet) = currency (reqAmount (cmdRequest cmd))"
      unfolding eq w1 known_external_def by auto
    with process_decide_verdict [OF dec refl] contract wal cor None h show ?thesis
      unfolding command_result_def new_decision_def eq w2 by auto
  qed
qed

lemma ProcessTx_result:
  assumes run: "ProcessTx cmd E w = Inr (res, w')"
  shows "command_result E cmd (db w) res (db w')"
  using run unfolding ProcessTx_def
proof (elim tx_bindE)
  fix p w1
  assume beg: "process_begin cmd E w = Inr (p, w1)"
    and k: "(case p of Done r \<Rightarrow> tx_return r | Continue (c, h) \<Rightarrow> process_locked c h) E w1 = Inr (res, w')"
  show ?thesis
  proof (cases p)
    case (Done r)
    with k process_begin_replay [of cmd E w r w1] beg show ?thesis by (auto elim: tx_returnE)
  next
    case (Continue y)
    obtain c h where y: "y = (c, h)" by (cases y)
    note b = process_begin_correlated [OF beg [unfolded Continue y]]
    have "process_locked c h E w1 = Inr (res, w')" using k Continue y by simp
    from process_locked_result [OF this, of cmd] b show ?thesis by simp
  qed
qed

section \<open>What is recorded answers retries\<close>

text \<open>The database holds a row that replays the result.\<close>

definition recorded :: "env \<Rightarrow> ProcessCommand \<Rightarrow> ProcessResult \<Rightarrow> database \<Rightarrow> bool" where
  "recorded E cmd res d \<longleftrightarrow>
     (\<exists>r \<in> set (wager_transactions d).
        idempotency_identity (reqProviderID (cmdRequest cmd)) (cmdIdempotencyKey cmd) r
        \<and> replay_of E (PayloadHash (cmdRequest cmd)) r = Inr (res\<lparr>resIdempotentReplay := True\<rparr>))"

lemma settled_currency: "settled wallet delta wallet' \<Longrightarrow> currency (Balance wallet') = currency (Balance wallet)"
  by (auto simp: settled_def moved_def split: if_splits)

lemma command_row_more_simps [simp]:
  "t_payload_hash (command_row i cmd h s now u) = Some h" "t_state (command_row i cmd h s now u) = s"
  "t_idempotency_key (command_row i cmd h s now u) = Some (cmdIdempotencyKey cmd)"
  "t_failure_code (command_row i cmd h s now u) = None"
  "t_external_transaction_id (command_row i cmd h s now u) = Some (reqExternalTransactionID (cmdRequest cmd))"
  by (simp_all add: command_row_def Let_def)

lemma replay_of_balance:
  "currency b = c \<Longrightarrow> NewMoney (amount b) c = b"
  by (simp add: NewMoney_eq_iff)

lemma decided_recorded:
  assumes dec: "decided E c h wallet v d res d'" and h: "h = PayloadHash (cmdRequest c)"
    and cur: "currency (Balance wallet) = currency (reqAmount (cmdRequest c))"
  shows "recorded E c res d'"
proof (cases v)
  case Await
  with dec h cur show ?thesis
    by (auto simp: decided_def pending_outcome_def recorded_def idempotency_identity_def replay_of_def
        coalesce_def replay_of_balance)
next
  case (Refuse f ref)
  with dec h cur show ?thesis
    by (auto simp: decided_def rejected_outcome_def recorded_def idempotency_identity_def replay_of_def
        coalesce_def replay_of_balance)
next
  case (Settle ref delta)
  with dec obtain wallet' where w': "settled wallet delta wallet'"
    and p: "processed_outcome E c h wallet' (Balance wallet) ref (direction_of delta) d res d'"
    by (auto simp: decided_def)
  from settled_currency [OF w'] cur have "currency (Balance wallet') = currency (reqAmount (cmdRequest c))" by simp
  with p h show ?thesis
    by (auto simp: processed_outcome_def Let_def recorded_def idempotency_identity_def replay_of_def
        coalesce_def replay_of_balance)
qed

lemma stored_for_identity:
  "stored_for cmd d = Some r \<Longrightarrow> r \<in> set (wager_transactions d)
     \<and> idempotency_identity (reqProviderID (cmdRequest cmd)) (cmdIdempotencyKey cmd) r"
  by (auto simp: stored_for_def dest: find_SomeD)

lemma replay_of_again:
  "replay_of E h r = Inr res \<Longrightarrow> replay_of E h r = Inr (res\<lparr>resIdempotentReplay := True\<rparr>)"
  by (auto simp: replay_of_def split: option.splits if_splits)

lemma command_result_recorded:
  assumes "command_result E cmd d res d'"
  shows "recorded E cmd res d'"
proof (cases "stored_for cmd d")
  case (Some r)
  with assms stored_for_identity [OF Some] show ?thesis
    by (auto simp: command_result_def recorded_def dest: replay_of_again)
next
  case None
  then obtain wallet c where "correlated E cmd c" "currency (Balance wallet) = currency (reqAmount (cmdRequest cmd))"
      "decided E c (PayloadHash (cmdRequest cmd)) wallet (verdict E (cmdRequest cmd) (Balance wallet) d) d res d'"
    using assms by (auto simp: command_result_def new_decision_def)
  then show ?thesis
    using decided_recorded correlated_simps [of E cmd c] by (fastforce simp: recorded_def)
qed

text \<open>The unique index on provider and idempotency key makes the lookup exact.\<close>

lemma idempotency_unique:
  assumes "schema_ok d" "a \<in> set (wager_transactions d)" "b \<in> set (wager_transactions d)"
    and "idempotency_identity p k a" "idempotency_identity p k b"
  shows "a = b"
  using assms unfolding schema_ok_def
  by (elim conjE table_ok_unique [where n = "''wager_idempotency_unique''" and conf =
        "\<lambda>a b. both_some_eq (t_provider_id a) (t_provider_id b) \<and> both_some_eq (t_idempotency_key a) (t_idempotency_key b)"])
    (simp_all add: wager_uniques_def both_some_eq_def idempotency_identity_def)

lemma find_identity:
  assumes "schema_ok d" "r \<in> set (wager_transactions d)" "idempotency_identity p k r"
  shows "List.find (idempotency_identity p k) (wager_transactions d) = Some r"
proof (cases "List.find (idempotency_identity p k) (wager_transactions d)")
  case None
  with assms show ?thesis by (auto dest: find_NoneD)
next
  case (Some x)
  then show ?thesis using idempotency_unique [OF assms(1)] assms find_SomeD [OF Some] by blast
qed

definition replay_result :: "env \<Rightarrow> wager_row \<Rightarrow> ProcessResult" where
  "replay_result E r =
     \<lparr>resTransactionID = uuid_String E (t_id r), resState = t_state r,
      resBalance = NewMoney (case t_result_balance r of None \<Rightarrow> 0 | Some b \<Rightarrow> b) (t_currency r),
      resIdempotentReplay = True, resFailureCode = coalesce (t_failure_code r)\<rparr>"

lemma replay_of_Inr: "replay_of E h r = Inr res \<longleftrightarrow> t_payload_hash r = Some h \<and> res = replay_result E r"
  by (auto simp: replay_of_def replay_result_def split: option.splits)

text \<open>Which result a retry gets after the database has grown.\<close>

definition same_answer :: "ProcessResult \<Rightarrow> ProcessResult \<Rightarrow> bool" where
  "same_answer res res2 \<longleftrightarrow>
     resTransactionID res2 = resTransactionID res \<and> resIdempotentReplay res2
     \<and> (resState res \<noteq> WagerStatePendingReference \<longrightarrow> res2 = res\<lparr>resIdempotentReplay := True\<rparr>)"

lemma recorded_later:
  assumes rec: "recorded E cmd res d'" and grow: "extends_history d' d2" and ok: "schema_ok d2"
    and same: "cmdRequest cmd2 = cmdRequest cmd" "cmdIdempotencyKey cmd2 = cmdIdempotencyKey cmd"
    and fmt: "uuid_String E2 = uuid_String E"
  shows "\<exists>r2 res2. stored_for cmd2 d2 = Some r2 \<and> replay_of E2 (PayloadHash (cmdRequest cmd2)) r2 = Inr res2
     \<and> same_answer res res2"
proof -
  from rec obtain r where r: "r \<in> set (wager_transactions d')"
      "idempotency_identity (reqProviderID (cmdRequest cmd)) (cmdIdempotencyKey cmd) r"
    and rep: "replay_of E (PayloadHash (cmdRequest cmd)) r = Inr (res\<lparr>resIdempotentReplay := True\<rparr>)"
    by (auto simp: recorded_def)
  from grow r(1) obtain r2 where r2: "r2 \<in> set (wager_transactions d2)" "wager_evolves r r2"
    using growsD [of wager_evolves "wager_transactions d'" "wager_transactions d2" r]
    by (auto simp: extends_history_def)
  have id2: "idempotency_identity (reqProviderID (cmdRequest cmd2)) (cmdIdempotencyKey cmd2) r2"
    using r(2) r2(2) same by (auto simp: wager_evolves_def same_request_def idempotency_identity_def)
  have hash: "t_payload_hash r = Some (PayloadHash (cmdRequest cmd))"
    and res: "res\<lparr>resIdempotentReplay := True\<rparr> = replay_result E r"
    using rep by (simp_all add: replay_of_Inr)
  from res have st: "resState res = t_state r" "resTransactionID res = uuid_String E (t_id r)"
    by (cases res; simp add: replay_result_def)+
  have "t_payload_hash r2 = Some (PayloadHash (cmdRequest cmd2))"
    using hash r2(2) same by (auto simp: wager_evolves_def same_request_def)
  then have "replay_of E2 (PayloadHash (cmdRequest cmd2)) r2 = Inr (replay_result E2 r2)"
    by (simp add: replay_of_Inr)
  moreover have "replay_result E2 r = replay_result E r" using fmt by (simp add: replay_result_def)
  then have "same_answer res (replay_result E2 r2)"
    using r2(2) st fmt res
    by (auto simp: same_answer_def wager_evolves_def same_request_def) (simp_all add: replay_result_def)
  ultimately show ?thesis
    using find_identity [OF ok r2(1) id2] by (auto simp: stored_for_def)
qed

lemma process_begin_stored:
  assumes "stored_for cmd (db w) = Some r" "request_contract (cmdRequest cmd)" "cmdIdempotencyKey cmd \<noteq> []"
    and "fault E (stmt_count w) = None"
  shows "process_begin cmd E w = (case replay_of E (PayloadHash (cmdRequest cmd)) r of
     Inl e \<Rightarrow> Inl e
   | Inr res \<Rightarrow> Inr (Done res, w\<lparr>uuid_count := uuid_count w + (if cmdCorrelationID cmd = [] then 1 else 0),
        stmt_count := Suc (stmt_count w)\<rparr>))"
  using assms
  by (auto simp: process_begin_def Let_def findIdempotentReplay_def stored_for_def tx_bind_def tx_map_err_def
      ValidateExternal_None [THEN iffD2] tx_simps split: sum.splits)

end
