(* ===== verification/Scenario.thy ===== *)
theory Scenario
  imports Idempotency
begin

text \<open>
  A small history of the platform, evaluated by the simplifier: an environment whose UUIDs
  are decimal texts, a wallet created empty, a WIN of 50.00, a BET of 30.00, and a REFUND
  whose reference is unknown and waits. The witnesses of the properties use it.
\<close>

section \<open>An environment\<close>

definition demo_uuid_in :: "string \<Rightarrow> uuid option" where
  "demo_uuid_in s = (if s \<noteq> [] \<and> list_all is_digit s then Some (word_of_nat (read_nat s)) else None)"

definition demo_env :: "nat \<Rightarrow> env" where
  "demo_env k =
     \<lparr>uuid_String = (\<lambda>u. show_nat (unat u)), uuid_Parse = demo_uuid_in, pg_uuid_in = demo_uuid_in,
      new_uuid = (\<lambda>n. word_of_nat (100 * k + n)), time_now = (\<lambda>n. int (1000 * k + n)), db_now = int (1000 * k),
      fault = (\<lambda>_. None), begin_fault = None, commit_fault = None, row_locked = (\<lambda>_. False), elapsed = 5\<rparr>"

lemma demo_uuid_round [simp]: "demo_uuid_in (show_nat (unat u)) = Some u"
  by (simp add: demo_uuid_in_def)

lemma length_demo_uuid [simp]: "length (show_nat (unat (u :: uuid))) \<le> 255"
proof -
  have "unat u < 2 ^ 128" using unsigned_less [of u] by simp
  also have "\<dots> < 10 ^ 255" by simp
  finally show ?thesis by (intro length_show_nat) simp_all
qed

lemma demo_laws: "uuid_laws (demo_env k)"
  by (simp add: uuid_laws_def demo_env_def)

lemma demo_env_simps [simp]:
  "uuid_String (demo_env k) u = show_nat (unat u)" "uuid_Parse (demo_env k) = demo_uuid_in"
  "pg_uuid_in (demo_env k) = demo_uuid_in" "new_uuid (demo_env k) n = word_of_nat (100 * k + n)"
  "time_now (demo_env k) n = int (1000 * k + n)" "db_now (demo_env k) = int (1000 * k)"
  "fault (demo_env k) n = None" "begin_fault (demo_env k) = None" "commit_fault (demo_env k) = None"
  "row_locked (demo_env k) u = False" "elapsed (demo_env k) = 5"
  by (simp_all add: demo_env_def)

lemma demo_uuid_text: "s \<noteq> [] \<Longrightarrow> list_all is_digit s \<Longrightarrow> demo_uuid_in s = Some (word_of_nat (read_nat s))"
  by (simp add: demo_uuid_in_def)

lemma demo_wallet_id [simp]: "demo_uuid_in ''100'' = Some 100"
proof -
  have "read_nat ''100'' = 100" by code_simp
  moreover have "list_all is_digit ''100''" by code_simp
  ultimately show ?thesis by (simp add: demo_uuid_text)
qed

lemma show_100 [simp]: "show_nat 100 = ''100''"
  by code_simp

section \<open>Evaluation\<close>

lemma hash_btrim [simp]: "list_ex (\<lambda>c. c \<noteq> CHR '' '') (PayloadHash r)"
proof -
  obtain c where c: "c \<in> set (PayloadHash r)" by (cases "PayloadHash r") auto
  then have "is_hex_digit c" using PayloadHash_hex [of r] by (auto simp: list_all_iff)
  then have "c \<noteq> CHR '' ''" by (auto simp: is_hex_digit_def byte_def)
  with c show ?thesis by (auto simp: list_ex_iff)
qed

lemma characters_PayloadHash [simp]: "characters (PayloadHash r) \<le> 64"
  by (rule short_text) simp

lemmas table_evals = insert_wallet_def wallet_widths_def wager_widths_def insert_wager_def insert_ledger_def insert_outbox_def update_wallet_def
  store_def conflict_free_def
  wallet_checks_def wager_checks_def ledger_checks_def outbox_checks_def
  wallet_uniques_def wager_uniques_def ledger_uniques_def outbox_uniques_def
  wager_enums_def external_kinds_def amount_by_kind_def origin_metadata_def reference_applicability_def
  btrim_nonempty_def some_nonempty_def both_some_eq_def processed_reversal_def ledger_arithmetic_def
  wager_foreign_keys_def ledger_foreign_keys_def coalesce_def update_rows_def Let_def word_sless_alt word_sle_eq

lemmas tx_evals = tx_bind_def tx_map_err_def sql_def sql_read_def sql_exec_def tx_simps uuid_param_def run_tx_def
  start_world_def outbox_row_of_def insertOutboxEvent_def wallet_insertOutboxEvent_def
  NewWagerTransactionProcessedEvent_def NewWagerTransactionRejectedEvent_def
  NewWagerTransactionPendingReferenceEvent_def NewWalletBalanceChangedEvent_def
  optionalString_def eventVersion_def eventpayload_NewMoney_def

lemmas wallet_evals = NewWallet_def ReconstituteWallet_def validateWallet_def Wallet_Debit_def Wallet_Credit_def
  Money_Compare_def Money_Subtract_def Money_Add_def validateVersionIncrement_def IsZero_def IsZeroTime_def
  zero_time_def NewMoney_def BRL_def scan_wallet_def

lemmas process_evals = Service_Process_def ProcessTx_def process_begin_def ValidateExternal_def findIdempotentReplay_def
  process_locked_def lockWallet_def process_new_def externalTransactionExists_def process_decide_def
  process_reference_def process_reversal_def requiresReferenceResolution_def findReferencedTransaction_def
  process_move_def debit_step_def credit_step_def process_persist_def
  insert_command_row_def command_row_def exec_update_wallet_def exec_insert_ledger_def insertProcessedEvents_def
  persistPendingReference_def persistRejectedTransaction_def insertPendingReferenceEvent_def insertRejectedEvent_def
  idempotency_identity_def external_identity_def IsValidExternalKind_def ledger_direction_def recordProcessResult_def
  nullableString_def

section \<open>The history\<close>

definition demo_create :: CreateWalletCommand where
  "demo_create = \<lparr>cwPlayerID = ''a'', cwInitialBalance = NewMoney 0 BRL\<rparr>"

definition demo_request :: "WagerKind \<Rightarrow> string \<Rightarrow> int64 \<Rightarrow> string \<Rightarrow> WagerRequest" where
  "demo_request kind external amt ref =
     \<lparr>reqProviderID = ''p'', reqExternalTransactionID = external, reqPlayerID = ''a'', reqWalletID = ''100'',
      reqRoundID = ''r'', reqGameID = ''g'', reqKind = kind, reqAmount = NewMoney amt BRL,
      reqReferenceExternalTransactionID = ref\<rparr>"

definition demo_command :: "WagerKind \<Rightarrow> string \<Rightarrow> int64 \<Rightarrow> string \<Rightarrow> ProcessCommand" where
  "demo_command kind external amt ref =
     \<lparr>cmdIdempotencyKey = external, cmdCorrelationID = ''c'', cmdCausationID = [],
      cmdRequest = demo_request kind external amt ref\<rparr>"

definition demo_wallet :: "int64 \<Rightarrow> int64 \<Rightarrow> time \<Rightarrow> wallet_row" where
  "demo_wallet balance version now =
     \<lparr>w_id = 100, w_player_id = ''a'', w_currency = BRL, w_balance = balance, w_version = version,
      w_created_at = 1000, w_updated_at = now\<rparr>"

definition demo_db1 :: database where
  "demo_db1 = empty_database\<lparr>wallets := [demo_wallet 0 1 1000]\<rparr>"

definition demo_row :: "nat \<Rightarrow> ProcessCommand \<Rightarrow> WagerState \<Rightarrow> int64 \<Rightarrow> wager_row" where
  "demo_row k cmd state balance =
     (command_row (word_of_nat (100 * k)) cmd (PayloadHash (cmdRequest cmd)) state (int (1000 * k)) 100)
       \<lparr>t_result_balance := Some balance\<rparr>"

definition demo_entry :: "nat \<Rightarrow> string \<Rightarrow> int64 \<Rightarrow> int64 \<Rightarrow> int64 \<Rightarrow> ledger_row" where
  "demo_entry k dir amt before after =
     \<lparr>l_id = word_of_nat (100 * k + 1), l_wallet_id = 100, l_transaction_id = word_of_nat (100 * k),
      l_direction = dir, l_amount = amt, l_balance_before = before, l_balance_after = after,
      l_created_at = int (1000 * k)\<rparr>"

definition demo_events :: "nat \<Rightarrow> WagerKind \<Rightarrow> Wallet \<Rightarrow> int64 \<Rightarrow> int64 \<Rightarrow> string \<Rightarrow> outbox_row list" where
  "demo_events k kind wallet amt before dir =
     map outbox_row_of (processed_events (demo_env k) (word_of_nat (100 * k)) kind wallet (NewMoney amt BRL)
       (NewMoney before BRL) dir ''c'' [] (int (1000 * k)) (word_of_nat (100 * k + 2)) (word_of_nat (100 * k + 3)))"

definition demo_aggregate :: "int64 \<Rightarrow> int64 \<Rightarrow> time \<Rightarrow> Wallet" where
  "demo_aggregate balance version now =
     \<lparr>ID = ''100'', PlayerID = ''a'', Balance = NewMoney balance BRL, Version = version,
      CreatedAt = 1000, UpdatedAt = now\<rparr>"

definition demo_win :: ProcessCommand where
  "demo_win = demo_command WagerKindWin ''w'' 5000 []"

definition demo_bet :: ProcessCommand where
  "demo_bet = demo_command WagerKindBet ''b'' 3000 []"

definition demo_refund :: ProcessCommand where
  "demo_refund = demo_command WagerKindRefund ''f'' 1000 ''z''"

definition demo_db2 :: database where
  "demo_db2 =
     \<lparr>wallets = [demo_wallet 5000 2 2000],
      wager_transactions = [demo_row 2 demo_win WagerStateProcessed 5000],
      ledger_entries = [demo_entry 2 DirectionCredit 5000 0 5000], inbox_messages = [],
      outbox_events = demo_events 2 WagerKindWin (demo_aggregate 5000 2 2000) 5000 0 DirectionCredit\<rparr>"

definition demo_db3 :: database where
  "demo_db3 =
     \<lparr>wallets = [demo_wallet 2000 3 3000],
      wager_transactions = wager_transactions demo_db2 @ [demo_row 3 demo_bet WagerStateProcessed 2000],
      ledger_entries = ledger_entries demo_db2 @ [demo_entry 3 DirectionDebit 3000 5000 2000], inbox_messages = [],
      outbox_events = outbox_events demo_db2
        @ demo_events 3 WagerKindBet (demo_aggregate 2000 3 3000) 3000 5000 DirectionDebit\<rparr>"

definition demo_pending_row :: wager_row where
  "demo_pending_row = (demo_row 4 demo_refund WagerStatePendingReference 2000)
     \<lparr>t_reference_next_attempt_at := Some 5004000, t_reference_expires_at := Some 300004000,
      t_correlation_id := Some ''c''\<rparr>"

definition demo_db4 :: database where
  "demo_db4 = demo_db3
     \<lparr>wager_transactions := wager_transactions demo_db3 @ [demo_pending_row],
      outbox_events := outbox_events demo_db3 @ [outbox_row_of (pending_event (demo_env 4) demo_refund 400 401 4000)]\<rparr>"

lemmas demo_rows = demo_db1_def demo_db2_def demo_db3_def demo_db4_def demo_wallet_def demo_row_def demo_entry_def demo_events_def
  demo_aggregate_def demo_win_def demo_bet_def demo_refund_def demo_pending_row_def demo_command_def demo_request_def
  empty_database_def processed_events_def pending_event_def

section \<open>The operations run through it\<close>

lemma demo_step1:
  "Wallet_Create (demo_env 1) demo_create empty_database =
     (Inr \<lparr>cwrWalletID = ''100'', cwrBalance = NewMoney 0 BRL, cwrVersion = 1\<rparr>, demo_db1)"
  by (simp add: Wallet_Create_def create_tx_def demo_create_def demo_rows table_evals tx_evals wallet_evals)

definition demo_result :: "nat \<Rightarrow> WagerState \<Rightarrow> int64 \<Rightarrow> ProcessResult" where
  "demo_result k state balance =
     \<lparr>resTransactionID = show_nat (100 * k), resState = state, resBalance = NewMoney balance BRL,
      resIdempotentReplay = False, resFailureCode = []\<rparr>"

lemma demo_step2:
  "Service_Process (demo_env 2) demo_win (start_world demo_db1) m =
     (Inr (demo_result 2 WagerStateProcessed 5000), demo_db2, ObserveProcessingDuration 5 (IncWagersProcessed m))"
  by (simp add: process_evals demo_rows demo_result_def table_evals tx_evals wallet_evals)

lemma demo_step3:
  "Service_Process (demo_env 3) demo_bet (start_world demo_db2) m =
     (Inr (demo_result 3 WagerStateProcessed 2000), demo_db3, ObserveProcessingDuration 5 (IncWagersProcessed m))"
  by (simp add: process_evals demo_rows demo_result_def table_evals tx_evals wallet_evals)

lemma demo_step4:
  "Service_Process (demo_env 4) demo_refund (start_world demo_db3) m =
     (Inr (demo_result 4 WagerStatePendingReference 2000), demo_db4,
      ObserveProcessingDuration 5 (IncWagersPendingReference m))"
  by (simp add: process_evals demo_rows demo_result_def table_evals tx_evals wallet_evals
      referenceRetryDelay_def referenceTTL_def Minute_def Second_def)

text \<open>So the history is reachable.\<close>

abbreviation demo_system :: "database \<Rightarrow> system" where
  "demo_system d \<equiv> \<lparr>sys_db = d, waiting = []\<rparr>"

lemma demo_reads: "reads demo_uuid_in (demo_env k)"
  by (simp add: reads_def demo_laws ext)

lemma demo_sys_step_in:
  "Service_Process (demo_env k) cmd (start_world d) NewMetrics = (res, d', m') \<Longrightarrow>
     sys_step_in (reads demo_uuid_in) (demo_system d) (demo_system d')"
  using sys_step_in.process [where lawful = "reads demo_uuid_in" and s = "demo_system d" and pcmd = cmd and m = NewMetrics,
      OF demo_reads [of k]] by simp

lemma demo_steps_in:
  "sys_step_in (reads demo_uuid_in) (demo_system empty_database) (demo_system demo_db1)"
  "sys_step_in (reads demo_uuid_in) (demo_system demo_db1) (demo_system demo_db2)"
  "sys_step_in (reads demo_uuid_in) (demo_system demo_db2) (demo_system demo_db3)"
  "sys_step_in (reads demo_uuid_in) (demo_system demo_db3) (demo_system demo_db4)"
proof -
  show "sys_step_in (reads demo_uuid_in) (demo_system empty_database) (demo_system demo_db1)"
    using sys_step_in.create [where lawful = "reads demo_uuid_in" and s = "demo_system empty_database" and cmd = demo_create,
        OF demo_reads [of 1]]
    by (simp add: demo_step1 del: One_nat_def)
qed (rule demo_sys_step_in, rule demo_step2 demo_step3 demo_step4)+

lemmas demo_steps = demo_steps_in [THEN reads_step]
lemmas demo_sys_step = demo_sys_step_in [THEN reads_step]

lemma demo_reachable_in: "reachable_in (reads demo_uuid_in) (demo_system demo_db3)"
    "reachable_in (reads demo_uuid_in) (demo_system demo_db4)"
  by (intro reachable_in.step [OF _ demo_steps_in(3)] reachable_in.step [OF _ demo_steps_in(4)]
      reachable_in.step [OF _ demo_steps_in(2)] reachable_in.step [OF _ demo_steps_in(1)] reachable_in.initial)+

lemmas demo_reachable = demo_reachable_in [THEN reads_reachable]

lemma demo_schema: "schema_ok demo_db3" "schema_ok demo_db4"
  using demo_reachable [THEN reachable_inv] by (simp_all add: sys_inv_def)

lemma demo_history: "extends_history demo_db2 demo_db4"
  using sys_step_history [OF demo_steps(3)] sys_step_history [OF demo_steps(4)]
  by (auto intro: extends_history_trans)

end
