(* ===== verification/Message_Contract.thy ===== *)
theory Message_Contract
  imports Scenario Sqs_Consumer
begin

text \<open>
  The contract between the consumer and its processor, as a locale, and its discharge by
  \<^verbatim>\<open>MessageProcessor.Process\<close>: success leaves the message completed, failure leaves no trace, a
  completed message stays completed and is replayed without effect.
\<close>

section \<open>The interface\<close>

text \<open>\<open>lawful\<close>, \<open>atomic\<close> and \<open>reliable\<close> are what a call's environment may guarantee: UUID
  texts that read back, a commit that does not take effect while it reports a failure, and a database
  without failures. \<open>complete\<close> says that a consumer completed a message with a payload.\<close>

locale message_processor =
  fixes process :: "('e, 's) processor"
    and inv :: "'s \<Rightarrow> bool" and lawful atomic reliable :: "'e \<Rightarrow> bool"
    and complete :: "string \<Rightarrow> string \<Rightarrow> string \<Rightarrow> 's \<Rightarrow> bool"
  assumes inv_step: "inv s \<Longrightarrow> lawful e \<Longrightarrow> decodeCommand body = Inr command \<Longrightarrow>
      process e (consumer_command body command) s m = (res, s', m') \<Longrightarrow> inv s'"
    and completes: "process e cmd s m = (Inr r, s', m') \<Longrightarrow>
      complete (mpConsumerName cmd) (mpMessageID cmd) (mpRawPayload cmd) s'"
    and fails: "atomic e \<Longrightarrow> process e cmd s m = (Inl err, s', m') \<Longrightarrow> s' = s"
    and complete_step: "process e cmd s m = (res, s', m') \<Longrightarrow> complete c i p s \<Longrightarrow> complete c i p s'"
    and replays: "inv s \<Longrightarrow> reliable e \<Longrightarrow> complete (mpConsumerName cmd) (mpMessageID cmd) (mpRawPayload cmd) s \<Longrightarrow>
      mpConsumerName cmd \<noteq> [] \<Longrightarrow> mpMessageID cmd \<noteq> [] \<Longrightarrow> mpRawPayload cmd \<noteq> [] \<Longrightarrow>
      \<exists>r m'. process e cmd s m = (Inr r, s, m') \<and> mrInboxReplay r"

section \<open>The inbox\<close>

definition completed :: "string \<Rightarrow> string \<Rightarrow> string \<Rightarrow> database \<Rightarrow> bool" where
  "completed consumer i payload d \<longleftrightarrow>
     (\<exists>x \<in> set (inbox_messages d). inbox_key consumer i x \<and> i_payload_hash x = inbox_PayloadHash payload
        \<and> i_completed_at x \<noteq> None)"

lemma completed_history: "extends_history d d' \<Longrightarrow> completed c i p d \<Longrightarrow> completed c i p d'"
proof -
  assume h: "extends_history d d'" and c: "completed c i p d"
  from c obtain x where x: "x \<in> set (inbox_messages d)" "inbox_key c i x" "i_payload_hash x = inbox_PayloadHash p"
    "i_completed_at x \<noteq> None" by (auto simp: completed_def)
  from h x(1) obtain y where "y \<in> set (inbox_messages d')" "inbox_evolves x y"
    unfolding extends_history_def by (blast dest: growsD)
  with x have "x \<in> set (inbox_messages d')" by (auto simp: inbox_evolves_def)
  with x show ?thesis by (auto simp: completed_def)
qed

lemma Register_Inr:
  assumes "Register c i p E w = Inr (b, w')"
  shows "\<exists>x \<in> set (inbox_messages (db w')). inbox_key c i x \<and> i_payload_hash x = inbox_PayloadHash p
     \<and> (b \<longrightarrow> i_completed_at x \<noteq> None)"
  using assms unfolding Register_def Let_def
  by (elim tx_bindE) (auto elim!: tx_elims simp: insert_inbox_def inbox_key_def dest!: find_SomeD split: if_splits option.splits; blast)

lemma Complete_Inr:
  assumes "Complete c i E w = Inr (u, w')" "x \<in> set (inbox_messages (db w))" "inbox_key c i x"
  shows "\<exists>x' \<in> set (inbox_messages (db w')). inbox_key c i x' \<and> i_payload_hash x' = i_payload_hash x \<and> i_completed_at x' \<noteq> None"
proof -
  let ?p = "\<lambda>r. inbox_key c i r \<and> i_completed_at r = None" and ?f = "\<lambda>r. r\<lparr>i_completed_at := Some (db_now E)\<rparr>"
  have "inbox_messages (db w') = update_rows ?p ?f (inbox_messages (db w))"
    using assms(1) unfolding Complete_def by (elim tx_bindE) (auto elim!: tx_elims simp: update_inbox_def split: if_splits)
  moreover have "(if ?p x then ?f x else x) \<in> set (update_rows ?p ?f (inbox_messages (db w)))"
    using assms(2) by (auto simp: update_rows_def)
  ultimately show ?thesis
    using assms(3) by (intro bexI [of _ "if ?p x then ?f x else x"]) (auto simp: inbox_key_def)
qed

text \<open>A processed message is completed.\<close>

lemma message_tx_completes:
  assumes "message_tx cmd E w = Inr (r, w')"
  shows "completed (mpConsumerName cmd) (mpMessageID cmd) (mpRawPayload cmd) (db w')"
proof -
  let ?c = "mpConsumerName cmd" and ?i = "mpMessageID cmd" and ?p = "mpRawPayload cmd"
  from assms obtain b w1 where reg: "Register ?c ?i ?p E w = Inr (b, w1)"
    and rest: "(if b then tx_return \<lparr>mrResult = zero_ProcessResult, mrInboxReplay = True, mrIdempotentReplay = False\<rparr>
       else tx_bind (ProcessTx (mpCommand cmd)) (\<lambda>result.
       tx_bind (tx_map_err (Wrapped ''complete inbox message'') (Complete ?c ?i)) (\<lambda>_.
       tx_return \<lparr>mrResult = result, mrInboxReplay = False, mrIdempotentReplay = resIdempotentReplay result\<rparr>))) E w1 = Inr (r, w')"
    unfolding message_tx_def by (elim tx_bindE) auto
  from Register_Inr [OF reg] obtain x where x: "x \<in> set (inbox_messages (db w1))" "inbox_key ?c ?i x"
    "i_payload_hash x = inbox_PayloadHash ?p" "b \<longrightarrow> i_completed_at x \<noteq> None" by blast
  show ?thesis
  proof (cases b)
    case True
    with rest x show ?thesis by (auto simp: completed_def elim: tx_returnE)
  next
    case False
    with rest obtain result w2 u w3 where run: "ProcessTx (mpCommand cmd) E w1 = Inr (result, w2)"
      and fin: "Complete ?c ?i E w2 = Inr (u, w3)" and w': "w' = w3"
      by (auto simp: tx_bind_Inr tx_return_def)
    have "extends_history (db w1) (db w2)" using history.keeps_ProcessTx run by (rule keepsD)
    with x(1) obtain y where "y \<in> set (inbox_messages (db w2))" "inbox_evolves x y"
      unfolding extends_history_def by (blast dest: growsD)
    moreover from this x have "inbox_key ?c ?i y" "i_payload_hash y = inbox_PayloadHash ?p"
      by (auto simp: inbox_evolves_def inbox_key_def)
    ultimately show ?thesis
      using Complete_Inr [OF fin] w' by (fastforce simp: completed_def)
  qed
qed

definition calm :: "env \<Rightarrow> bool" where
  "calm E \<longleftrightarrow> begin_fault E = None \<and> commit_fault E = None \<and> (\<forall>n. fault E n = None)"

definition unambiguous :: "env \<Rightarrow> bool" where
  "unambiguous E \<longleftrightarrow> (\<forall>x. commit_fault E \<noteq> Some (x, True))"

lemma inbox_key_unique:
  assumes "schema_ok d" "x \<in> set (inbox_messages d)" "inbox_key c i x"
  shows "List.find (inbox_key c i) (inbox_messages d) = Some x"
proof -
  have cf: "conflict_free (\<lambda>a b. i_consumer_name a = i_consumer_name b \<and> i_message_id a = i_message_id b) (inbox_messages d)"
    using assms(1) by (auto simp: schema_ok_def unique_violation_None inbox_uniques_def split: if_splits)
  show ?thesis
  proof (cases "List.find (inbox_key c i) (inbox_messages d)")
    case None
    with assms(2,3) show ?thesis by (auto dest: find_NoneD)
  next
    case (Some y)
    then have "y \<in> set (inbox_messages d)" "inbox_key c i y" by (auto dest: find_SomeD)
    then have "y = x" using assms(3) conflict_free_unique [OF cf _ assms(2), of y] by (simp add: inbox_key_def)
    with Some show ?thesis by simp
  qed
qed

lemma Register_known:
  assumes "schema_ok (db w)" "x \<in> set (inbox_messages (db w))" "inbox_key c i x" "calm E"
  shows "Register c i p E w =
     (if i_payload_hash x = inbox_PayloadHash p
      then Inr (i_completed_at x \<noteq> None, w\<lparr>stmt_count := Suc (Suc (stmt_count w))\<rparr>)
      else Inl (Sentinel ErrPayloadConflict))"
proof -
  have "\<exists>x \<in> set (inbox_messages (db w)). i_consumer_name x = c \<and> i_message_id x = i"
    using assms(2,3) by (auto simp: inbox_key_def)
  moreover have "characters c \<le> 100" "characters i \<le> 255"
    using assms(1-3) by (auto simp: schema_ok_def list_all_iff inbox_widths_def inbox_key_def)
  ultimately show ?thesis
    using inbox_key_unique [OF assms(1-3)] assms(4)
    by (simp add: Register_def Let_def insert_inbox_def inbox_widths_def calm_def tx_bind_def tx_map_err_def sql_def sql_read_def tx_simps)
qed

lemma MessageProcessor_replays:
  assumes "schema_ok (db w)" "calm E" "completed (mpConsumerName cmd) (mpMessageID cmd) (mpRawPayload cmd) (db w)"
    and "mpConsumerName cmd \<noteq> []" "mpMessageID cmd \<noteq> []" "mpRawPayload cmd \<noteq> []"
  shows "MessageProcessor_Process E cmd w m =
     (Inr \<lparr>mrResult = zero_ProcessResult, mrInboxReplay = True, mrIdempotentReplay = False\<rparr>, db w,
      ObserveProcessingDuration (elapsed E) m)"
proof -
  from assms(3) obtain x where x: "x \<in> set (inbox_messages (db w))" "inbox_key (mpConsumerName cmd) (mpMessageID cmd) x"
    "i_payload_hash x = inbox_PayloadHash (mpRawPayload cmd)" "i_completed_at x \<noteq> None"
    by (auto simp: completed_def)
  from Register_known [OF assms(1) x(1,2) assms(2), of "mpRawPayload cmd"] x(3,4) assms(2,4-6)
  show ?thesis
    by (simp add: MessageProcessor_Process_def run_tx_def message_tx_def tx_simps message_commit_def message_metrics_def calm_def)
qed

interpretation inbox: message_processor
  "\<lambda>E cmd d m. MessageProcessor_Process E cmd (start_world d) m" schema_ok uuid_laws unambiguous calm completed
proof (unfold_locales, goal_cases)
  case (1 s e body command m res s' m')
  then show ?case
    using schema.MessageProcessor_Process_R [of "start_world s" e "consumer_command body command" m]
    by (simp add: keeps_schema_def)
next
  case (2 e cmd s m r s' m')
  then obtain w' where "message_tx cmd e (start_world s) = Inr (r, w')" "s' = db w'"
    by (auto simp: MessageProcessor_Process_def Let_def message_commit_def split: prod.splits if_splits dest!: run_tx_Inr)
  then show ?case by (simp add: message_tx_completes)
next
  case (3 e cmd s m err s' m')
  then show ?case
    using run_tx_Inl [of e _ _ _ "start_world s"] unfolding unambiguous_def
    by (auto simp: MessageProcessor_Process_def split: prod.splits if_splits)
next
  case (4 e cmd s m res s' m' c i p)
  then show ?case
    using history.MessageProcessor_Process_R [of "start_world s" e cmd m] completed_history by simp
next
  case (5 s e cmd m)
  then show ?case using MessageProcessor_replays [of "start_world s"] by simp
qed

end
