(* ===== verification/Go_Json_Print.thy ===== *)
theory Go_Json_Print
  imports Go_Json_Decode
begin

text \<open>
  Texts that the JSON reader is known to accept: the compact print of a value built from
  strings and objects is read back as that value. It gives concrete messages and request bodies
  without running the parser on them.
\<close>

text \<open>Values built from strings and objects, with raw texts that close where they should.\<close>

datatype printable = PString string | PObject "(string \<times> printable) list"

fun commas :: "string list \<Rightarrow> string" where
  "commas [] = []"
| "commas [x] = x"
| "commas (x # y # xs) = x @ '','' @ commas (y # xs)"

fun print :: "printable \<Rightarrow> string" where
  "print (PString s) = json_string s"
| "print (PObject ms) = ''{'' @ commas (map (\<lambda>(k, v). json_string k @ '':'' @ print v) ms) @ ''}''"

fun printed :: "printable \<Rightarrow> json" where
  "printed (PString s) = JString (json_escape s)"
| "printed (PObject ms) = JObject (map (\<lambda>(k, v). (json_escape k, printed v)) ms)"

fun nesting :: "printable \<Rightarrow> nat" where
  "nesting (PString s) = 0"
| "nesting (PObject ms) = Suc (sum_list (map (\<lambda>(k, v). nesting v) ms))"

lemma print_hd: "\<exists>c r. print v = c # r \<and> (c = quote_char \<or> c = CHR ''{'')"
  by (cases v) (simp_all add: json_string_def)

lemma print_not_Nil [simp]: "print v \<noteq> []"
  using print_hd [of v] by auto

lemma json_string_length: "0 < length (json_string s)"
  by (simp add: json_string_def)

lemma parse_print_members:
  assumes IH: "\<And>k v n d t. (k, v) \<in> set ms \<Longrightarrow> 2 * length (print v @ t) + 1 \<le> n \<Longrightarrow> d + nesting v \<le> maxNestingDepth \<Longrightarrow>
      parse_value n d (print v @ t) = Some (printed v, t)"
    and "ms \<noteq> []" "2 * length (commas (map (\<lambda>(k, v). json_string k @ '':'' @ print v) ms) @ CHR ''}'' # t) + 2 \<le> n"
    and "d + sum_list (map (\<lambda>(k, v). nesting v) ms) \<le> maxNestingDepth"
  shows "parse_members n d (commas (map (\<lambda>(k, v). json_string k @ '':'' @ print v) ms) @ CHR ''}'' # t) =
      Some (map (\<lambda>(k, v). (json_escape k, printed v)) ms, t)"
  using assms
proof (induction ms arbitrary: n)
  case Nil
  then show ?case by simp
next
  case (Cons m ms)
  obtain k v where m: "m = (k, v)" by (cases m)
  obtain n' where n: "n = Suc n'" using Cons.prems(3) by (cases n) auto
  let ?rest = "if ms = [] then CHR ''}'' # t
      else CHR '','' # commas (map (\<lambda>(k, v). json_string k @ '':'' @ print v) ms) @ CHR ''}'' # t"
  have whole: "commas (map (\<lambda>(k, v). json_string k @ '':'' @ print v) (m # ms)) @ CHR ''}'' # t =
      quote_char # json_escape k @ quote_char # CHR '':'' # print v @ ?rest"
    by (cases ms) (simp_all add: m json_string_def)
  have len: "2 * length (print v @ ?rest) + 1 \<le> n'"
    using Cons.prems(3) unfolding whole n by simp
  have v: "parse_value n' d (print v @ ?rest) = Some (printed v, ?rest)"
    using len Cons.prems(4) by (intro Cons.prems(1) [of k v]) (simp_all add: m)
  show ?case
  proof (cases "ms = []")
    case True
    with v show ?thesis unfolding whole n by (simp add: scan_json_escape m)
  next
    case False
    have "parse_members n' d (commas (map (\<lambda>(k, v). json_string k @ '':'' @ print v) ms) @ CHR ''}'' # t) =
        Some (map (\<lambda>(k, v). (json_escape k, printed v)) ms, t)"
    proof (rule Cons.IH)
      show "2 * length (commas (map (\<lambda>(k, v). json_string k @ '':'' @ print v) ms) @ CHR ''}'' # t) + 2 \<le> n'"
        using len False by simp
      fix k' v' n d t
      assume "(k', v') \<in> set ms" "2 * length (print v' @ t) + 1 \<le> n" "d + nesting v' \<le> maxNestingDepth"
      then show "parse_value n d (print v' @ t) = Some (printed v', t)"
        by (intro Cons.prems(1) [of k' v']) simp_all
    qed (use Cons.prems(4) False in \<open>simp_all add: m\<close>)
    with v False show ?thesis unfolding whole n by (simp add: scan_json_escape m)
  qed
qed

lemma parse_print:
  "2 * length (print v @ t) + 1 \<le> n \<Longrightarrow> d + nesting v \<le> maxNestingDepth \<Longrightarrow>
     parse_value n d (print v @ t) = Some (printed v, t)"
proof (induction v arbitrary: n d t)
  case (PString s)
  then show ?case using parse_string_value [of "n - 1"] by (cases n) simp_all
next
  case (PObject ms)
  obtain n' where n: "n = Suc n'" using PObject.prems(1) by (cases n) auto
  let ?body = "commas (map (\<lambda>(k, v). json_string k @ '':'' @ print v) ms) @ CHR ''}'' # t"
  show ?case
  proof (cases "ms = []")
    case True
    with PObject.prems(2) show ?thesis by (simp add: n)
  next
    case False
    obtain r where r: "?body = quote_char # r"
      using False by (cases ms rule: list.exhaust; cases "tl ms") (auto simp: json_string_def split: prod.splits)
    have "parse_members n' (Suc d) ?body = Some (map (\<lambda>(k, v). (json_escape k, printed v)) ms, t)"
    proof (rule parse_print_members)
      fix k v n d t
      assume "(k, v) \<in> set ms" "2 * length (print v @ t) + 1 \<le> n" "d + nesting v \<le> maxNestingDepth"
      then show "parse_value n d (print v @ t) = Some (printed v, t)"
        using PObject.IH [of "(k, v)" v] by simp
    qed (use False PObject.prems in \<open>simp_all add: n\<close>)
    with PObject.prems(2) r show ?thesis by (simp add: n del: parse_members.simps)
  qed
qed

lemma parse_text_print: "nesting v \<le> maxNestingDepth \<Longrightarrow> parse_text (print v) = Some (printed v)"
  using parse_print [of v "[]" "json_fuel (print v)" 0] by (simp add: parse_text_def json_fuel_def)

lemma parse_first_print: "nesting v \<le> maxNestingDepth \<Longrightarrow> parse_first (print v @ t) = Some (printed v)"
  using parse_print [of v t "json_fuel (print v @ t)" 0] by (simp add: parse_first_def json_fuel_def)

end
