(* ===== verification/Consumer_Properties.thy ===== *)
theory Consumer_Properties
  imports Message_Contract Go_Json_Print
begin

text \<open>
  What the queue may rely on: a message leaves the queue only after its command is committed,
  a redelivered command has no second effect, and a message that cannot be processed stays in the queue
  and comes back after a bounded delay. The lemmas about the consumer are proved once under the contract
  of its processor.
\<close>

section \<open>Under the processor's contract\<close>

text \<open>A message whose command the consumer has completed.\<close>

definition command_of :: "sqs_message \<Rightarrow> (string \<times> decodedCommand) option" where
  "command_of message =
     (case msgBody message of
        None \<Rightarrow> None
      | Some body \<Rightarrow> (case decodeCommand body of Inl _ \<Rightarrow> None | Inr command \<Rightarrow> Some (body, command)))"

lemma processMessage_cases:
  assumes "processMessage process delete e message s m = ((ok, err), acts, s', m')"
  obtains (refused) x where "ok = False" "err = Some x" "acts = []" "s' = s" "m' = m"
    "command_of message = None \<or> msgReceiptHandle message = None"
  | (failed) h body command x y where "msgReceiptHandle message = Some h" "command_of message = Some (body, command)"
    "process e (consumer_command body command) s m = (Inl x, s', m')" "ok = False" "err = Some y" "acts = []"
  | (accepted) h body command r where "msgReceiptHandle message = Some h" "command_of message = Some (body, command)"
    "process e (consumer_command body command) s m = (Inr r, s', m')" "ok = True" "acts = [DeleteMessage h]"
    "err = None \<longleftrightarrow> delete h = None"
  using assms unfolding processMessage_def
  by (fastforce simp: command_of_def split: option.splits sum.splits prod.splits)

lemma consume_Cons:
  assumes "consume_messages process delete ctx es i (message # messages) s m = (r, acts, s', m')"
  obtains (stopped) "s' = s" "acts = releaseForShutdown message"
  | (failed) ok err acts1 where
      "processMessage process delete (es i) message s (recordRetry message m) = ((ok, Some err), acts1, s', m')"
      "acts = acts1 @ after_failure ctx i ok message"
  | (next_message) ok acts1 s1 m1 acts2 where
      "processMessage process delete (es i) message s (recordRetry message m) = ((ok, None), acts1, s1, m1)"
      "consume_messages process delete ctx es (Suc i) messages s1 m1 = (r, acts2, s', m')" "acts = acts1 @ acts2"
  using assms by (auto simp: Let_def split: option.splits prod.splits)

lemma find_fst: "List.find fst xs = None \<longleftrightarrow> list_all (\<lambda>x. \<not> fst x) xs"
  by (auto simp: find_None_iff list_all_iff)

lemma decodeCommand_Inr:
  "decodeCommand payload = Inr command \<longleftrightarrow>
     Unmarshal message_fields payload zero_CommandMessage = Some (dcMessage command)
     \<and> list_all (\<lambda>x. \<not> fst x) (command_checks (dcMessage command))
     \<and> ParseMoney (dtoAmount (wdMoney (cmData (dcMessage command)))) (dtoCurrency (wdMoney (cmData (dcMessage command))))
        = Inr (dcMoney command)"
  by (cases command) (auto simp: decodeCommand_def find_fst [symmetric] split: option.splits sum.splits)

lemma decodeCommand_named: "decodeCommand payload = Inr command \<Longrightarrow> cmMessageID (dcMessage command) \<noteq> [] \<and> payload \<noteq> []"
  by (auto simp: decodeCommand_Inr command_checks_def Let_def Unmarshal_def decoded_def parse_text_def json_fuel_def
      eval_nat_numeral next_char_def)

context message_processor
begin

definition settled_in :: "'s \<Rightarrow> sqs_message \<Rightarrow> bool" where
  "settled_in s message \<longleftrightarrow>
     (\<exists>body command. command_of message = Some (body, command)
        \<and> complete defaultConsumerName (cmMessageID (dcMessage command)) body s)"

lemma settled_step: "process e cmd s m = (res, s', m') \<Longrightarrow> settled_in s x \<Longrightarrow> settled_in s' x"
  by (auto simp: settled_in_def dest: complete_step)

lemma processMessage_settled: "processMessage process delete e message s m = (r, acts, s', m') \<Longrightarrow> settled_in s x \<Longrightarrow> settled_in s' x"
  by (cases r) (auto elim!: processMessage_cases intro: settled_step)

lemma consume_settled:
  "consume_messages process delete ctx es i messages s m = (r, acts, s', m') \<Longrightarrow> settled_in s x \<Longrightarrow> settled_in s' x"
proof (induction messages arbitrary: i s m r acts)
  case (Cons message messages)
  from Cons.prems(1) show ?case
  proof (cases rule: consume_Cons)
    case (failed ok err acts1)
    with processMessage_settled Cons.prems(2) show ?thesis by blast
  next
    case (next_message ok acts1 s1 m1 acts2)
    with processMessage_settled [OF next_message(1) Cons.prems(2)] Cons.IH show ?thesis by blast
  qed (use Cons.prems(2) in simp)
qed simp

lemma processMessage_deletes:
  assumes "processMessage process delete e message s m = (r, acts, s', m')" "DeleteMessage h \<in> set acts"
  shows "msgReceiptHandle message = Some h \<and> settled_in s' message"
proof -
  obtain ok err where r: "r = (ok, err)" by (cases r)
  show ?thesis
    using assms(1)[unfolded r]
  proof (cases rule: processMessage_cases)
    case (accepted h' body command res)
    from completes [OF accepted(3)] accepted assms(2) show ?thesis
      by (auto simp: settled_in_def consumer_command_def Let_def)
  qed (use assms(2) in simp_all)
qed

lemma processMessage_inv:
  "processMessage process delete e message s m = (r, acts, s', m') \<Longrightarrow> inv s \<Longrightarrow> lawful e \<Longrightarrow> inv s'"
  by (cases r) (auto elim!: processMessage_cases simp: command_of_def intro: inv_step split: option.splits sum.splits)

lemma consume_inv:
  "consume_messages process delete ctx es i messages s m = (r, acts, s', m') \<Longrightarrow> inv s \<Longrightarrow> (\<And>i. lawful (es i)) \<Longrightarrow> inv s'"
proof (induction messages arbitrary: i s m r acts)
  case (Cons message messages)
  from Cons.prems(1) show ?case
  proof (cases rule: consume_Cons)
    case (failed ok err acts1)
    with processMessage_inv Cons.prems(2,3) show ?thesis by blast
  next
    case (next_message ok acts1 s1 m1 acts2)
    with processMessage_inv [OF next_message(1) Cons.prems(2,3)] Cons.IH Cons.prems(3) show ?thesis by blast
  qed (use Cons.prems(2) in simp)
qed simp

lemma ConsumeOnce_inv:
  "ConsumeOnceWithContexts process received delete ctx es s m = (r, acts, s', m') \<Longrightarrow> inv s \<Longrightarrow> (\<And>i. lawful (es i)) \<Longrightarrow> inv s'"
  by (auto simp: ConsumeOnceWithContexts_def split: sum.splits option.splits dest: consume_inv)

lemma no_delete_after_failure: "DeleteMessage h \<notin> set (after_failure ctx i ok message)"
  "DeleteMessage h \<notin> set (releaseForShutdown message)"
  by (auto simp: after_failure_def consumer_scheduleRetry_def releaseForShutdown_def split: option.splits)

lemma consume_deletes:
  "consume_messages process delete ctx es i messages s m = (r, acts, s', m') \<Longrightarrow> DeleteMessage h \<in> set acts \<Longrightarrow>
     \<exists>message \<in> set messages. msgReceiptHandle message = Some h \<and> settled_in s' message"
proof (induction messages arbitrary: i s m r acts)
  case Nil
  then show ?case by simp
next
  case (Cons message messages)
  from Cons.prems(1) show ?case
  proof (cases rule: consume_Cons)
    case stopped
    with Cons.prems(2) show ?thesis by (simp add: no_delete_after_failure)
  next
    case (failed ok err acts1)
    with Cons.prems(2) processMessage_deletes [OF failed(1)] show ?thesis by (auto simp: no_delete_after_failure)
  next
    case (next_message ok acts1 s1 m1 acts2)
    show ?thesis
    proof (cases "DeleteMessage h \<in> set acts1")
      case True
      with processMessage_deletes [OF next_message(1)] consume_settled [OF next_message(2)] show ?thesis by auto
    next
      case False
      with next_message(3) Cons.prems(2) Cons.IH [OF next_message(2)] show ?thesis by auto
    qed
  qed
qed

lemma ConsumeOnce_deletes:
  assumes "ConsumeOnceWithContexts process received delete ctx es s m = (r, acts, s', m')" "DeleteMessage h \<in> set acts"
  shows "\<exists>messages. received = Inr messages \<and> (\<exists>message \<in> set messages. msgReceiptHandle message = Some h \<and> settled_in s' message)"
proof -
  have "DeleteMessage h \<notin> set (concat (map releaseForShutdown messages))" for messages
    by (simp add: no_delete_after_failure)
  with assms show ?thesis
    using consume_deletes [of delete ctx es 0 _ s m r acts s' m' h]
    by (auto simp: ConsumeOnceWithContexts_def simp del: set_concat split: sum.splits option.splits)
qed

text \<open>A settled message that comes again.\<close>

lemma redelivery:
  assumes "settled_in s message" "inv s" "reliable e" "msgReceiptHandle message = Some h" "delete h = None"
  shows "\<exists>m'. processMessage process delete e message s m = ((True, None), [DeleteMessage h], s, m')"
proof -
  from assms(1) obtain body command where c: "command_of message = Some (body, command)"
    "complete defaultConsumerName (cmMessageID (dcMessage command)) body s" by (auto simp: settled_in_def)
  then have body: "msgBody message = Some body" "decodeCommand body = Inr command"
    by (auto simp: command_of_def split: option.splits sum.splits)
  have "\<exists>r m'. process e (consumer_command body command) s m = (Inr r, s, m') \<and> mrInboxReplay r"
    using c(2) decodeCommand_named [OF body(2)]
    by (intro replays assms(2,3)) (simp_all add: consumer_command_def Let_def defaultConsumerName_def)
  then show ?thesis
    using body assms(4,5) by (auto simp: processMessage_def)
qed

lemma redelivered_batch:
  assumes "settled_in s message" "inv s" "reliable (es 0)" "msgReceiptHandle message = Some h" "delete h = None"
    and "receiveErr ctx AfterReceive = None" "receiveErr ctx (BeforeMessage 0) = None"
  shows "\<exists>m'. ConsumeOnceWithContexts process (Inr [message]) delete ctx es s m = ((1, None), [DeleteMessage h], s, m')"
proof -
  obtain m' where "processMessage process delete (es 0) message s (recordRetry message m) = ((True, None), [DeleteMessage h], s, m')"
    using redelivery assms(1-5) by blast
  with assms(6,7) show ?thesis by (simp add: ConsumeOnceWithContexts_def Let_def)
qed

text \<open>A message that is not settled by this delivery leaves no trace.\<close>

lemma unprocessed_stays:
  assumes "processMessage process delete e message s m = ((False, Some err), acts, s', m')" "atomic e"
  shows "s' = s \<and> acts = []"
  using assms by (auto elim!: processMessage_cases dest: fails)

end

section \<open>The platform's consumer\<close>

text \<open>The consumer as it is wired: its processor is \<^verbatim>\<open>MessageProcessor.Process\<close> on the database.\<close>

definition consume ::
  "error + sqs_message list \<Rightarrow> (string \<Rightarrow> error option) \<Rightarrow> contexts \<Rightarrow> (nat \<Rightarrow> env) \<Rightarrow> database \<Rightarrow> Metrics
   \<Rightarrow> database consumed" where
  "consume = ConsumeOnceWithContexts (\<lambda>E cmd d m. MessageProcessor_Process E cmd (start_world d) m)"

definition committed :: "database \<Rightarrow> sqs_message \<Rightarrow> bool" where
  "committed d message \<longleftrightarrow>
     (\<exists>body command. command_of message = Some (body, command)
        \<and> completed defaultConsumerName (cmMessageID (dcMessage command)) body d)"

lemma settled_in_committed: "inbox.settled_in d message \<longleftrightarrow> committed d message"
  by (simp add: inbox.settled_in_def committed_def)

lemma consume_schema:
  "consume received delete ctx es d m = (r, acts, d', m') \<Longrightarrow> schema_ok d \<Longrightarrow> (\<And>i. uuid_laws (es i)) \<Longrightarrow> schema_ok d'"
  unfolding consume_def by (rule inbox.ConsumeOnce_inv)

lemma consume_deletes_committed:
  assumes "consume received delete ctx es d m = (r, acts, d', m')" "DeleteMessage h \<in> set acts"
  shows "\<exists>messages. received = Inr messages
     \<and> (\<exists>message \<in> set messages. msgReceiptHandle message = Some h \<and> committed d' message)"
  using inbox.ConsumeOnce_deletes [of received delete ctx es d m r acts d' m' h] assms
  by (simp add: consume_def settled_in_committed)

text \<open>C24: a redelivered command has no second effect. When a message was deleted once, or its
  command committed before the deletion failed, the same body delivered again, under any receipt and
  after any further operations, changes nothing in the database and is deleted again.\<close>

theorem redelivery_has_no_effect:
  assumes "consume (Inr [message]) delete ctx es d m = (r, acts, d', m')" "DeleteMessage h \<in> set acts"
    and "extends_history d' d2" "schema_ok d2"
    and "msgBody again = msgBody message" "msgReceiptHandle again = Some h2" "delete2 h2 = None" "calm (es2 0)"
    and "receiveErr ctx2 AfterReceive = None" "receiveErr ctx2 (BeforeMessage 0) = None"
  shows "\<exists>m3. consume (Inr [again]) delete2 ctx2 es2 d2 m2 = ((1, None), [DeleteMessage h2], d2, m3)"
proof -
  from consume_deletes_committed [OF assms(1,2)] have "committed d' message" by auto
  then have "inbox.settled_in d2 again"
    using assms(3,5) completed_history
    by (auto simp: settled_in_committed committed_def command_of_def)
  from inbox.redelivered_batch [OF this assms(4), of es2 h2 delete2 ctx2 m2] assms show ?thesis
    by (auto simp: consume_def)
qed



text \<open>What the consumer accepts. A body decodes to a command exactly when it is a JSON object
  whose message id, provider, external id, key, player, wallet, round, game and kind are not empty, whose
  type is \<^verbatim>\<open>WagerTransactionRequested\<close>, whose time is RFC 3339, and whose money is BRL in a form
  \<^verbatim>\<open>ParseMoney\<close> accepts; the command carries that amount and those fields.\<close>

theorem decodeCommand_accepts:
  "decodeCommand payload = Inr command \<longleftrightarrow>
     Unmarshal message_fields payload zero_CommandMessage = Some (dcMessage command)
     \<and> cmMessageID (dcMessage command) \<noteq> [] \<and> cmType (dcMessage command) = ''WagerTransactionRequested''
     \<and> time_Parse (cmOccurredAt (dcMessage command)) \<noteq> None
     \<and> (let q = cmdRequest (mpCommand (consumer_command payload command)) in
        [] \<notin> {reqProviderID q, reqExternalTransactionID q, reqPlayerID q, reqWalletID q, reqRoundID q, reqGameID q, reqKind q}
        \<and> cmdIdempotencyKey (mpCommand (consumer_command payload command)) \<noteq> []
        \<and> ParseMoney (dtoAmount (wdMoney (cmData (dcMessage command)))) BRL = Inr (reqAmount q)
        \<and> dtoCurrency (wdMoney (cmData (dcMessage command))) = BRL)"
proof -
  have "ParseMoney [] c \<noteq> Inr x" "time_Parse [] = None" for c x
    by (simp_all add: ParseMoney_def time_Parse_def get_date_def getyear_def)
  moreover have "BRL \<noteq> []" by (simp add: BRL_def)
  ultimately show ?thesis
    unfolding decodeCommand_Inr command_checks_def consumer_command_def Let_def wagerTransactionRequestedType_def
    by auto
qed

section \<open>A message of the small history\<close>

definition demo_data :: WagerCommandData where
  "demo_data =
     \<lparr>wdIdempotencyKey = ''b'', wdProviderID = ''p'', wdExternalTransactionID = ''b'', wdPlayerID = ''a'',
      wdWalletID = ''100'', wdRoundID = ''r'', wdGameID = ''g'', wdKind = WagerKindBet,
      wdMoney = \<lparr>dtoAmount = ''30.00'', dtoCurrency = BRL\<rparr>, wdReferenceExternalTransactionID = []\<rparr>"

definition demo_decoded :: decodedCommand where
  "demo_decoded =
     \<lparr>dcMessage = \<lparr>cmMessageID = ''m'', cmType = ''WagerTransactionRequested'', cmOccurredAt = ''2025-01-02T03:04:05Z'',
        cmData = demo_data\<rparr>, dcMoney = NewMoney 3000 BRL\<rparr>"

definition demo_body :: string where
  "demo_body = print (PObject
     [(''messageId'', PString ''m''), (''type'', PString ''WagerTransactionRequested''),
      (''occurredAt'', PString ''2025-01-02T03:04:05Z''),
      (''data'', PObject
        [(''idempotencyKey'', PString ''b''), (''providerId'', PString ''p''), (''externalTransactionId'', PString ''b''),
         (''playerId'', PString ''a''), (''walletId'', PString ''100''), (''roundId'', PString ''r''),
         (''gameId'', PString ''g''), (''kind'', PString ''BET''),
         (''money'', PObject [(''amount'', PString ''30.00''), (''currency'', PString ''BRL'')])])])"

lemmas decode_evals = Unmarshal_def decoded_def struct_def parse_text_print maxNestingDepth_def find_field_def
  string_field_def struct_field_def unquote_json_escape byte_def
  zero_CommandMessage_def zero_WagerCommandData_def zero_MoneyDTO_def message_fields_def data_fields_def money_fields_def

lemma demo_unmarshal: "Unmarshal message_fields demo_body zero_CommandMessage = Some (dcMessage demo_decoded)"
  by (simp add: demo_body_def demo_decoded_def demo_data_def decode_evals BRL_def WagerKindBet_def
      del: print.simps json_escape.simps unquote.simps)

lemma digit_eval:
  "is_digit CHR ''0''" "is_digit CHR ''1''" "is_digit CHR ''2''" "is_digit CHR ''3''" "is_digit CHR ''4''" "is_digit CHR ''5''"
  "digit_value CHR ''0'' = 0" "digit_value CHR ''1'' = 1" "digit_value CHR ''2'' = 2" "digit_value CHR ''3'' = 3"
  "digit_value CHR ''4'' = 4" "digit_value CHR ''5'' = 5"
  by (simp_all add: is_digit_def digit_value_def)

lemma demo_year: "getyear ''2025-01-02T03:04:05Z'' = Some (2025, ''-01-02T03:04:05Z'')"
  by (simp add: getyear_def read_nat_def digit_eval)

lemma demo_date: "get_date ''2025-01-02T03:04:05Z'' = Some (\<lparr>dYear = 2025, dMonth = 1, dDay = 2\<rparr>, ''T03:04:05Z'')"
  by (simp add: get_date_def demo_year skip_def getrange_def getnum_def digit_eval valid_date_def month_lengths_def)

lemma demo_clock: "get_clock ''03:04:05Z'' = Some (11045, ''Z'')"
  by (simp add: get_clock_def skip_def getrange_def getnum_def digit_eval)

lemma demo_times: "time_Parse ''2025-01-02T03:04:05Z'' \<noteq> None"
  by (simp add: time_Parse_def demo_date demo_clock skip_def get_fraction_def get_zone_def)

lemma demo_money: "ParseMoney ''30.00'' BRL = Inr (NewMoney 3000 BRL)"
proof -
  have "money_text ''30.00'' ''30'' ''00''"
    by (simp add: money_text_def allDigits_def digit_eval)
  from ParseMoney_text [OF this, of BRL] show ?thesis
    by (simp add: read_nat_def digit_eval)
qed

lemma demo_decode: "decodeCommand demo_body = Inr demo_decoded"
  unfolding decodeCommand_Inr demo_unmarshal
  using demo_times demo_money by (simp add: demo_decoded_def demo_data_def command_checks_def wagerTransactionRequestedType_def BRL_def
      WagerKindBet_def)

lemma demo_body_nonempty: "demo_body \<noteq> []"
  using decodeCommand_named [OF demo_decode] by simp

definition demo_message :: sqs_message where
  "demo_message = \<lparr>msgMessageId = None, msgReceiptHandle = Some ''h'', msgBody = Some demo_body, msgAttributes = (\<lambda>_. [])\<rparr>"

definition live :: contexts where
  "live = \<lparr>receiveErr = (\<lambda>_. None), processingErr = (\<lambda>_. None)\<rparr>"

text \<open>The bet of the history, sent as a message: its command runs and the message is deleted.\<close>

lemma demo_run:
  "\<exists>r d' m'. MessageProcessor_Process (demo_env 3) (consumer_command demo_body demo_decoded) (start_world demo_db2) m = (Inr r, d', m')"
  by (simp add: MessageProcessor_Process_def message_tx_def Register_def Complete_def insert_inbox_def inbox_widths_def update_inbox_def
      inbox_key_def message_commit_def consumer_command_def defaultConsumerName_def demo_decoded_def demo_data_def
      demo_body_nonempty process_evals demo_rows demo_result_def table_evals tx_evals wallet_evals)

lemma demo_consumed:
  "\<exists>d' m'. consume (Inr [demo_message]) (\<lambda>_. None) live (\<lambda>_. demo_env 3) demo_db2 m = ((1, None), [DeleteMessage ''h''], d', m')"
proof -
  obtain r d' m' where "MessageProcessor_Process (demo_env 3) (consumer_command demo_body demo_decoded) (start_world demo_db2)
      (recordRetry demo_message m) = (Inr r, d', m')"
    using demo_run by blast
  then show ?thesis
    by (simp add: consume_def ConsumeOnceWithContexts_def live_def demo_message_def processMessage_def demo_decode Let_def)
qed

lemma demo_db2_schema: "schema_ok demo_db2"
proof -
  have "reachable (demo_system demo_db2)"
    by (intro reachable_in.step [OF _ demo_steps(2)] reachable_in.step [OF _ demo_steps(1)] reachable_in.initial)
  then show ?thesis using reachable_inv by (fastforce simp: sys_inv_def)
qed

lemma demo_calm: "calm (demo_env k)" "unambiguous (demo_env k)"
  by (simp_all add: calm_def unambiguous_def)

text \<open>The deletion fails, and the message is delivered again.\<close>

lemma redelivery_has_no_effect_witness:
  "\<exists>d' m' m3. consume (Inr [demo_message]) (\<lambda>_. None) live (\<lambda>_. demo_env 3) demo_db2 NewMetrics
       = ((1, None), [DeleteMessage ''h''], d', m')
     \<and> consume (Inr [demo_message]) (\<lambda>_. None) live (\<lambda>_. demo_env 5) d' m' = ((1, None), [DeleteMessage ''h''], d', m3)"
proof -
  obtain d' m' where run: "consume (Inr [demo_message]) (\<lambda>_. None) live (\<lambda>_. demo_env 3) demo_db2 NewMetrics
      = ((1, None), [DeleteMessage ''h''], d', m')" using demo_consumed by blast
  have "schema_ok d'"
    using consume_schema [OF run demo_db2_schema] demo_laws by blast
  from redelivery_has_no_effect [OF run _ extends_history_refl this, of "''h''" demo_message "''h''" "\<lambda>_. None" "\<lambda>_. demo_env 5" live m']
  have "\<exists>m3. consume (Inr [demo_message]) (\<lambda>_. None) live (\<lambda>_. demo_env 5) d' m' = ((1, None), [DeleteMessage ''h''], d', m3)"
    by (simp add: live_def demo_message_def demo_calm)
  with run show ?thesis by blast
qed


end
