(* ===== verification/Outbox_Properties.thy ===== *)
theory Outbox_Properties
  imports Workers Consumer_Properties
begin

text \<open>
  The outbox: what one batch does to the stored events, and that the worker publishes every event
  that is due.
\<close>

section \<open>One batch\<close>

text \<open>What a batch does to an event it selected.\<close>

definition handled_row :: "(Event \<Rightarrow> error option) \<Rightarrow> env \<Rightarrow> outbox_row \<Rightarrow> outbox_row" where
  "handled_row publish E r =
     (if publish (scan_event r) = None then mark_row E r else retry_row (retryDelay (o_attempts r + 1)) E r)"

lemma outbox_ids_distinct: "schema_ok d \<Longrightarrow> distinct (map o_id (outbox_events d))"
  using schema_tables(4) [of d]
  by (intro conflict_free_distinct) (auto simp: table_ok_def unique_violation_None outbox_uniques_def split: if_splits)

lemma update_one_row:
  assumes "distinct (map o_id rs)" "r \<in> set rs" "o_published_at r = None"
  shows "length (filter (unpublished (o_id r)) rs) = 1"
    "update_rows (unpublished (o_id r)) f rs = map (\<lambda>x. if x = r then f x else x) rs"
proof -
  have eq: "unpublished (o_id r) x \<longleftrightarrow> x = r" if "x \<in> set rs" for x
    using that assms by (auto simp: unpublished_def distinct_map inj_on_def)
  then have "filter (unpublished (o_id r)) rs = filter (\<lambda>x. x = r) rs" by (intro filter_cong) auto
  moreover have "distinct rs" using assms(1) by (simp add: distinct_map)
  ultimately show "length (filter (unpublished (o_id r)) rs) = 1"
    using assms(2) by (simp add: distinct_length_filter)
  show "update_rows (unpublished (o_id r)) f rs = map (\<lambda>x. if x = r then f x else x) rs"
    unfolding update_rows_def using eq by (intro map_cong) auto
qed

lemma exec_update_outbox_calm:
  assumes "calm E" "distinct (map o_id (outbox_events (db w)))" "r \<in> set (outbox_events (db w))" "o_published_at r = None"
  shows "\<exists>w'. exec_update_outbox c no (o_id r) f E w = Inr ((), w')
     \<and> db w' = (db w)\<lparr>outbox_events := map (\<lambda>x. if x = r then f E x else x) (outbox_events (db w))\<rparr>"
  using assms(1) update_one_row [OF assms(2-4)]
  by (simp add: exec_update_outbox_def update_outbox_def calm_def tx_bind_def tx_map_err_def sql_def tx_simps)

lemma handled_row_id [simp]: "o_id (handled_row publish E r) = o_id r"
  by (simp add: handled_row_def mark_row_def retry_row_def)

lemma markPublished_calm:
  assumes "calm E" "distinct (map o_id (outbox_events (db w)))" "r \<in> set (outbox_events (db w))" "o_published_at r = None"
    and "publish (scan_event r) = None"
  shows "\<exists>w'. markPublished (evID (scan_event r)) E w = Inr ((), w')
     \<and> db w' = (db w)\<lparr>outbox_events := map (\<lambda>x. if x = r then handled_row publish E x else x) (outbox_events (db w))\<rparr>"
  using exec_update_outbox_calm [OF assms(1-4)] assms(5)
  by (auto simp: markPublished_def scan_event_def handled_row_def cong: if_cong)

lemma scheduleRetry_calm:
  assumes "calm E" "distinct (map o_id (outbox_events (db w)))" "r \<in> set (outbox_events (db w))" "o_published_at r = None"
    and "publish (scan_event r) \<noteq> None"
  shows "\<exists>w'. scheduleRetry (scan_event r) E w = Inr ((), w')
     \<and> db w' = (db w)\<lparr>outbox_events := map (\<lambda>x. if x = r then handled_row publish E x else x) (outbox_events (db w))\<rparr>"
  using exec_update_outbox_calm [OF assms(1-4), of "''schedule outbox retry''" "''expected to schedule one outbox event retry''"
      "retry_row (retryDelay (o_attempts r + 1))"] assms(5)
  by (auto simp: scheduleRetry_def scan_event_def handled_row_def cong: if_cong)

lemma handle_compose:
  assumes "distinct (map o_id xs)" "r \<in> set xs" "r \<notin> set rs" "set rs \<subseteq> set xs" "\<And>x. o_id (h x) = o_id x"
  shows "map (\<lambda>x. if x \<in> set rs then h x else x) (map (\<lambda>x. if x = r then h x else x) xs) =
    map (\<lambda>x. if x \<in> set (r # rs) then h x else x) xs"
proof -
  have "h r \<notin> set rs"
  proof
    assume "h r \<in> set rs"
    with assms(4) have "h r \<in> set xs" by blast
    moreover have "o_id (h r) = o_id r" by (rule assms(5))
    ultimately have "h r = r" using assms(1,2) by (auto simp: distinct_map inj_on_def)
    with \<open>h r \<in> set rs\<close> assms(3) show False by simp
  qed
  then show ?thesis using assms(3) by (auto simp: comp_def)
qed

lemma publish_loop_calm:
  assumes "calm E"
  shows "distinct rs \<Longrightarrow> set rs \<subseteq> set (outbox_events (db w)) \<Longrightarrow> \<forall>r \<in> set rs. o_published_at r = None \<Longrightarrow>
     distinct (map o_id (outbox_events (db w))) \<Longrightarrow>
     \<exists>w'. publish_loop publish (map scan_event rs) dn k E w =
         Inr ((dn @ map scan_event (filter (\<lambda>r. publish (scan_event r) = None) rs),
               k + length (filter (\<lambda>r. publish (scan_event r) \<noteq> None) rs)), w')
       \<and> db w' = (db w)\<lparr>outbox_events := map (\<lambda>x. if x \<in> set rs then handled_row publish E x else x) (outbox_events (db w))\<rparr>"
proof (induction rs arbitrary: dn k w)
  case Nil
  then show ?case by (simp add: tx_simps)
next
  case (Cons r rs)
  let ?h = "handled_row publish E" and ?xs = "outbox_events (db w)"
  let ?mid = "map (\<lambda>x. if x = r then ?h x else x) ?xs"
  have r: "r \<in> set ?xs" "o_published_at r = None" "r \<notin> set rs" using Cons.prems by auto
  have "map o_id ?mid = map o_id ?xs" by auto
  then have mid: "set rs \<subseteq> set ?mid" "distinct (map o_id ?mid)"
    using Cons.prems r(3) by (auto simp del: map_map)
  have comp: "map (\<lambda>x. if x \<in> set rs then ?h x else x) ?mid = map (\<lambda>x. if x \<in> set (r # rs) then ?h x else x) ?xs"
    using Cons.prems r by (intro handle_compose) auto
  show ?case
  proof (cases "publish (scan_event r)")
    case None
    from markPublished_calm [where publish = publish, OF assms Cons.prems(4) r(1,2) None] obtain w1 where
      w1: "markPublished (evID (scan_event r)) E w = Inr ((), w1)" "db w1 = (db w)\<lparr>outbox_events := ?mid\<rparr>" by blast
    with Cons.IH [of w1 "dn @ [scan_event r]" k] Cons.prems mid comp None show ?thesis by (auto simp: tx_bind_def)
  next
    case (Some err)
    then have "publish (scan_event r) \<noteq> None" by simp
    from scheduleRetry_calm [where publish = publish, OF assms Cons.prems(4) r(1,2) this] obtain w1 where
      w1: "scheduleRetry (scan_event r) E w = Inr ((), w1)" "db w1 = (db w)\<lparr>outbox_events := ?mid\<rparr>" by blast
    with Cons.IH [of w1 dn "Suc k"] Cons.prems mid comp Some show ?thesis by (auto simp: tx_bind_def)
  qed
qed

lemma pending_rows_subset:
  "set (pending_rows E n d) \<subseteq> {r \<in> set (outbox_events d). o_published_at r = None \<and> o_next_attempt_at r \<le> db_now E}"
  using set_take_subset [of n] by (auto simp: pending_rows_def outbox_pending_def dest!: in_set_takeD)

lemma pending_rows_distinct: "schema_ok d \<Longrightarrow> distinct (pending_rows E n d)"
  using outbox_ids_distinct [of d] by (simp add: pending_rows_def distinct_map)

lemma PublishBatch_calm:
  assumes "schema_ok d" "calm E"
  shows "\<exists>m'. PublishBatch E publish d m =
     (Inr (length (filter (\<lambda>r. publish (scan_event r) = None) (pending_rows E 10 d))),
      d\<lparr>outbox_events := map (\<lambda>r. if r \<in> set (pending_rows E 10 d) then handled_row publish E r else r) (outbox_events d)\<rparr>, m')"
proof -
  let ?rs = "pending_rows E 10 d"
  have find: "findPending 10 E (start_world d) = Inr (map scan_event ?rs, (start_world d)\<lparr>stmt_count := 1\<rparr>)"
    using assms(2) by (simp add: findPending_def tx_map_err_def sql_read_def sql_def calm_def start_world_def)
  have "set ?rs \<subseteq> set (outbox_events d)" "\<forall>r \<in> set ?rs. o_published_at r = None"
    using pending_rows_subset [of E 10 d] by auto
  with publish_loop_calm [OF assms(2) pending_rows_distinct [OF assms(1), where E = E and n = 10], where w = "(start_world d)\<lparr>stmt_count := 1\<rparr>" and publish = publish and dn = "[]" and k = 0]
    outbox_ids_distinct [OF assms(1)]
  obtain w' where "publish_loop publish (map scan_event ?rs) [] 0 E ((start_world d)\<lparr>stmt_count := 1\<rparr>) =
      Inr ((map scan_event (filter (\<lambda>r. publish (scan_event r) = None) ?rs),
            length (filter (\<lambda>r. publish (scan_event r) \<noteq> None) ?rs)), w')"
    "db w' = d\<lparr>outbox_events := map (\<lambda>r. if r \<in> set ?rs then handled_row publish E r else r) (outbox_events d)\<rparr>"
    by auto
  with find assms(2) show ?thesis
    by (simp add: PublishBatch_def run_tx_def batch_tx_def tx_bind_def defaultBatchSize_def calm_def)
qed


text \<open>C26: one batch of the outbox. When no statement fails, \<^verbatim>\<open>PublishBatch\<close> handles exactly the
  ten (or fewer) earliest events that are due and not locked: those the publisher accepts are marked as
  published at the time of the transaction, the others get one more attempt after the back-off of
  that attempt; nothing else changes, and the result is the number of accepted events.\<close>

theorem PublishBatch_handles:
  assumes "schema_ok d" "calm E"
  shows "\<exists>m'. PublishBatch E publish d m =
     (Inr (length (filter (\<lambda>r. publish (scan_event r) = None) (pending_rows E 10 d))),
      d\<lparr>outbox_events := map (\<lambda>r. if r \<in> set (pending_rows E 10 d) then handled_row publish E r else r) (outbox_events d)\<rparr>, m')"
  by (rule PublishBatch_calm [OF assms])

lemma PublishBatch_handles_witness:
  "\<exists>m'. PublishBatch (demo_env 5) (\<lambda>_. None) demo_db3 NewMetrics =
     (Inr 4, demo_db3\<lparr>outbox_events := map (mark_row (demo_env 5)) (outbox_events demo_db3)\<rparr>, m')"
proof -
  have rs: "length (pending_rows (demo_env 5) 10 demo_db3) = 4"
    "set (pending_rows (demo_env 5) 10 demo_db3) = set (outbox_events demo_db3)"
    by (simp_all add: pending_rows_def outbox_pending_def demo_rows outbox_row_of_def event_defs)
  then show ?thesis
    using PublishBatch_handles [OF demo_schema(1) demo_calm(1) [of 5], of "\<lambda>_. None" NewMetrics]
    by (simp add: handled_row_def cong: map_cong)
qed

section \<open>The worker\<close>

abbreviation pending_event_row :: "outbox_row \<Rightarrow> bool" where
  "pending_event_row r \<equiv> o_published_at r = None"

abbreviation backlog :: "database \<Rightarrow> nat" where
  "backlog d \<equiv> length (filter pending_event_row (outbox_events d))"

text \<open>A turn in which the publisher is not stopped, accepts every event, no statement fails and
  every unpublished event is due and free.\<close>

definition good_turn :: "database \<Rightarrow> (env \<times> (Event \<Rightarrow> error option)) turn \<Rightarrow> bool" where
  "good_turn d t \<longleftrightarrow> \<not> stopped t \<and> waited t \<and> calm (fst (meets t)) \<and> (\<forall>e. snd (meets t) e = None)
     \<and> (\<forall>r \<in> set (outbox_events d). pending_event_row r \<longrightarrow>
          o_next_attempt_at r \<le> db_now (fst (meets t)) \<and> \<not> row_locked (fst (meets t)) (o_id r))"

definition published_batch :: "env \<Rightarrow> database \<Rightarrow> database" where
  "published_batch E d =
     d\<lparr>outbox_events := map (\<lambda>r. if r \<in> set (pending_rows E 10 d) then mark_row E r else r) (outbox_events d)\<rparr>"

lemma PublishBatch_accepted:
  assumes "schema_ok d" "good_turn d t"
  shows "\<exists>m'. PublishBatch (fst (meets t)) (snd (meets t)) d m =
     (Inr (length (pending_rows (fst (meets t)) 10 d)), published_batch (fst (meets t)) d, m')"
proof -
  have "handled_row (snd (meets t)) E = mark_row E" for E
    using assms(2) by (intro ext) (simp add: good_turn_def handled_row_def)
  then show ?thesis
    using PublishBatch_calm [OF assms(1), of "fst (meets t)" "snd (meets t)" m] assms(2)
    by (simp add: good_turn_def published_batch_def cong: if_cong)
qed

lemma good_turn_pending:
  assumes "good_turn d t"
  shows "pending_rows (fst (meets t)) 10 d = take 10 (sort_key o_occurred_at (filter pending_event_row (outbox_events d)))"
proof -
  have "filter (\<lambda>r. outbox_pending (fst (meets t)) r \<and> \<not> row_locked (fst (meets t)) (o_id r)) (outbox_events d)
      = filter pending_event_row (outbox_events d)"
    using assms by (intro filter_cong) (auto simp: good_turn_def outbox_pending_def)
  then show ?thesis by (simp add: pending_rows_def)
qed

lemma filter_marked:
  assumes "\<And>x. \<not> P (f x)"
  shows "filter P (map (\<lambda>x. if x \<in> S then f x else x) xs) = filter (\<lambda>x. P x \<and> x \<notin> S) xs"
  using assms by (induction xs) auto

lemma outbox_row_filter:
  "filter pending_event_row (outbox_events (d\<lparr>outbox_events := map (\<lambda>r. if r \<in> S then mark_row E r else r) xs\<rparr>)) =
     filter (\<lambda>r. pending_event_row r \<and> r \<notin> S) xs"
  using filter_marked [of pending_event_row "mark_row E" S xs] by (simp add: mark_row_def)

lemma length_filter_but:
  assumes "distinct xs" "set rs \<subseteq> {x \<in> set xs. P x}" "distinct rs"
  shows "length (filter (\<lambda>x. P x \<and> x \<notin> set rs) xs) = length (filter P xs) - length rs"
proof -
  have "set (filter P xs) - set rs = set (filter (\<lambda>x. P x \<and> x \<notin> set rs) xs)" by auto
  then have "length (filter (\<lambda>x. P x \<and> x \<notin> set rs) xs) = card (set (filter P xs) - set rs)"
    using distinct_card [OF distinct_filter [OF assms(1)]] by metis
  also have "\<dots> = card (set (filter P xs)) - card (set rs)"
    by (rule card_Diff_subset) (use assms(2) in auto)
  finally show ?thesis
    using distinct_card [OF distinct_filter [OF assms(1)]] distinct_card [OF assms(3)] by metis
qed

lemma backlog_published:
  assumes "schema_ok d" "good_turn d t"
  shows "backlog (published_batch (fst (meets t)) d) = backlog d - 10"
proof -
  let ?rs = "pending_rows (fst (meets t)) 10 d"
  have xs: "distinct (outbox_events d)" using outbox_ids_distinct [OF assms(1)] by (simp add: distinct_map)
  have sub: "set ?rs \<subseteq> {r \<in> set (outbox_events d). pending_event_row r}"
    using pending_rows_subset [of "fst (meets t)" 10 d] by auto
  have "length ?rs = min 10 (backlog d)" using good_turn_pending [OF assms(2)] by simp
  with length_filter_but [OF xs sub pending_rows_distinct [OF assms(1)]]
  have "length (filter (\<lambda>r. pending_event_row r \<and> r \<notin> set ?rs) (outbox_events d)) = backlog d - min 10 (backlog d)"
    by (simp only:)
  moreover have "backlog (published_batch (fst (meets t)) d) =
      length (filter (\<lambda>r. pending_event_row r \<and> r \<notin> set ?rs) (outbox_events d))"
    unfolding published_batch_def by (subst outbox_row_filter) simp
  ultimately show ?thesis by linarith
qed

lemma good_turn_published:
  "good_turn d t \<Longrightarrow> good_turn (published_batch E d) t"
  by (auto simp: good_turn_def published_batch_def mark_row_def)

lemma outbox_worker_drains:
  "schema_ok d \<Longrightarrow> \<forall>t \<in> set ts. good_turn d t \<Longrightarrow>
     \<exists>d' m'. OutboxWorker_Run ts d m = (Running, d', m') \<and> backlog d' = backlog d - 10 * length ts
       \<and> map o_id (outbox_events d') = map o_id (outbox_events d)
       \<and> d'\<lparr>outbox_events := outbox_events d\<rparr> = d"
proof (induction ts arbitrary: d m)
  case Nil
  then show ?case by simp
next
  case (Cons t ts)
  let ?E = "fst (meets t)" and ?p = "snd (meets t)"
  have t: "good_turn d t" using Cons.prems(2) by simp
  from PublishBatch_accepted [OF Cons.prems(1) t, of m] obtain m1 where
    run: "PublishBatch ?E ?p d m = (Inr (length (pending_rows ?E 10 d)), published_batch ?E d, m1)" by blast
  have ok: "schema_ok (published_batch ?E d)"
    using schema.PublishBatch_R [of d ?E ?p m] Cons.prems(1) by (simp add: run keeps_schema_def)
  have ts: "\<forall>t \<in> set ts. good_turn (published_batch ?E d) t"
    using Cons.prems(2) by (auto intro: good_turn_published)
  define n where "n = length (pending_rows ?E 10 d)"
  define m2 where "m2 = (if 0 < n then IncOutboxEventsPublished (word_of_nat n) m1 else m1)"
  have step: "OutboxWorker_Run (t # ts) d m = OutboxWorker_Run ts (published_batch ?E d) m2"
    using t run by (simp add: good_turn_def n_def m2_def)
  have ids: "map o_id (outbox_events (published_batch ?E d)) = map o_id (outbox_events d)"
    by (simp add: published_batch_def mark_row_def)
  have others: "d'\<lparr>outbox_events := outbox_events d\<rparr> = d"
    if "d'\<lparr>outbox_events := outbox_events (published_batch ?E d)\<rparr> = published_batch ?E d" for d'
    using that by (cases d; cases d') (simp add: published_batch_def)
  from Cons.IH [OF ok ts, of m2] obtain d' m' where "OutboxWorker_Run ts (published_batch ?E d) m2 = (Running, d', m')"
    "backlog d' = backlog (published_batch ?E d) - 10 * length ts"
    "map o_id (outbox_events d') = map o_id (outbox_events (published_batch ?E d))"
    "d'\<lparr>outbox_events := outbox_events (published_batch ?E d)\<rparr> = published_batch ?E d" by blast
  then show ?case
    unfolding step ids backlog_published [OF Cons.prems(1) t] by (intro exI [of _ d'] exI [of _ m']) (simp add: others)
qed

text \<open>C25: the outbox worker drains its backlog. While the publisher accepts what it is given, every
  unpublished event is due and free and no statement fails, \<open>n\<close> turns of the loop publish
  the ten earliest events each, so the backlog shrinks by ten a turn and is empty after enough
  of them; no event is added, lost or renamed, no other table changes, and the
  loop still runs.\<close>

theorem outbox_drains:
  assumes "schema_ok d" "\<forall>t \<in> set ts. good_turn d t"
  shows "\<exists>d' m'. OutboxWorker_Run ts d m = (Running, d', m')
     \<and> length (filter (\<lambda>r. o_published_at r = None) (outbox_events d')) =
         length (filter (\<lambda>r. o_published_at r = None) (outbox_events d)) - 10 * length ts
     \<and> map o_id (outbox_events d') = map o_id (outbox_events d)
     \<and> d'\<lparr>outbox_events := outbox_events d\<rparr> = d"
  by (rule outbox_worker_drains [OF assms])

definition demo_turn :: "(env \<times> (Event \<Rightarrow> error option)) turn" where
  "demo_turn = \<lparr>stopped = False, meets = (demo_env 5, \<lambda>_. None), stopped_after = False, waited = True\<rparr>"

lemma outbox_drains_witness:
  "\<exists>d' m'. OutboxWorker_Run [demo_turn, demo_turn] demo_db3 NewMetrics = (Running, d', m')
     \<and> length (filter (\<lambda>r. o_published_at r = None) (outbox_events demo_db3)) = 4
     \<and> filter (\<lambda>r. o_published_at r = None) (outbox_events d') = []"
proof -
  have "good_turn demo_db3 demo_turn"
    by (simp add: good_turn_def demo_turn_def demo_calm demo_rows outbox_row_of_def event_defs)
  moreover have "backlog demo_db3 = 4" by (simp add: demo_rows outbox_row_of_def)
  ultimately show ?thesis
    using outbox_drains [OF demo_schema(1), of "[demo_turn, demo_turn]" NewMetrics] by fastforce
qed

end
