(* ===== verification/Go_Http.thy ===== *)
theory Go_Http
  imports Go_Strings Go_Json Go_Time
begin

text \<open>
  What the HTTP handlers use of Go's library besides JSON: \<^verbatim>\<open>strings.Cut\<close>,
  \<^verbatim>\<open>strings.EqualFold\<close> against ASCII letters, \<^verbatim>\<open>strings.TrimSpace\<close> with Unicode's white
  space, the status codes, the formatting of times and the pattern matching of
  \<^verbatim>\<open>http.ServeMux\<close>.
\<close>

section \<open>Strings\<close>

text \<open>\<^verbatim>\<open>strings.Cut(s, sep)\<close> for a separator of one byte.\<close>

definition strings_Cut :: "char \<Rightarrow> string \<Rightarrow> (string \<times> string) option" where
  "strings_Cut sep s =
     (case dropWhile (\<lambda>c. c \<noteq> sep) s of [] \<Rightarrow> None | _ # r \<Rightarrow> Some (takeWhile (\<lambda>c. c \<noteq> sep) s, r))"

definition upper_byte :: "char \<Rightarrow> char" where
  "upper_byte c = (if 97 \<le> byte c \<and> byte c \<le> 122 then char_of (byte c - 32) else c)"

text \<open>Folding with a text of ASCII letters none of which is \<^verbatim>\<open>k\<close> or \<^verbatim>\<open>s\<close>, the two that
  letters outside ASCII fold to.\<close>

definition equal_fold :: "string \<Rightarrow> string \<Rightarrow> bool" where
  "equal_fold s t \<longleftrightarrow> map upper_byte s = map upper_byte t"

text \<open>The UTF-8 texts of the runes of \<^verbatim>\<open>unicode.IsSpace\<close>.\<close>

definition space_texts :: "string list" where
  "space_texts =
     map (\<lambda>c. [c]) [CHR 0x09, CHR 0x0A, CHR 0x0B, CHR 0x0C, CHR 0x0D, CHR 0x20]
     @ [[CHR 0xC2, CHR 0x85], [CHR 0xC2, CHR 0xA0], [CHR 0xE1, CHR 0x9A, CHR 0x80]]
     @ map (\<lambda>c. [CHR 0xE2, CHR 0x80, c])
         [CHR 0x80, CHR 0x81, CHR 0x82, CHR 0x83, CHR 0x84, CHR 0x85, CHR 0x86,
          CHR 0x87, CHR 0x88, CHR 0x89, CHR 0x8A, CHR 0xA8, CHR 0xA9, CHR 0xAF]
     @ [[CHR 0xE2, CHR 0x81, CHR 0x9F], [CHR 0xE3, CHR 0x80, CHR 0x80]]"

text \<open>The length of the text of \<open>ps\<close> that starts \<open>s\<close>, 0 if there is none.\<close>

definition prefix_size :: "string list \<Rightarrow> string \<Rightarrow> nat" where
  "prefix_size ps s = (case List.find (\<lambda>p. take (length p) s = p) ps of None \<Rightarrow> 0 | Some p \<Rightarrow> length p)"

function trim_left :: "string list \<Rightarrow> string \<Rightarrow> string" where
  "trim_left ps s =
     (let n = prefix_size ps s in if n = 0 \<or> s = [] then s else trim_left ps (drop n s))"
  by pat_completeness auto
termination by (relation "measure (length \<circ> snd)") auto

declare trim_left.simps [simp del]

definition strings_TrimSpace :: "string \<Rightarrow> string" where
  "strings_TrimSpace s = rev (trim_left (map rev space_texts) (rev (trim_left space_texts s)))"

section \<open>Times\<close>

text \<open>\<^verbatim>\<open>t.UTC().Format(time.RFC3339Nano)\<close> of any instant, in nanoseconds. The calendar repeats
  after 400 years, that is 146097 days; years before 0 are printed with a sign.\<close>

definition format_rfc3339_nano :: "int \<Rightarrow> string" where
  "format_rfc3339_nano t =
     (let day = t div ns_per_day + epoch_day; ns = nat (t mod ns_per_day);
          cycles = (if day < 0 then (146096 - day) div 146097 else 0);
          c = date_of (nat (day + 146097 * cycles));
          date = (if day < 0
            then CHR ''-'' # date_text (c\<lparr>dYear := nat (400 * cycles - int (dYear c))\<rparr>) else date_text c) in
      date @ CHR ''T'' # clock_text (ns div 1000000000) @ fraction_text (ns mod 1000000000) @ ''Z'')"

lemma format_rfc3339_nano_eq: "rfc3339_nano t = Some s \<Longrightarrow> format_rfc3339_nano t = s"
  by (auto simp: rfc3339_nano_def format_rfc3339_nano_def Let_def split: if_splits)

section \<open>Status codes\<close>

definition StatusOK :: nat where "StatusOK = 200"
definition StatusCreated :: nat where "StatusCreated = 201"
definition StatusBadRequest :: nat where "StatusBadRequest = 400"
definition StatusUnauthorized :: nat where "StatusUnauthorized = 401"
definition StatusForbidden :: nat where "StatusForbidden = 403"
definition StatusNotFound :: nat where "StatusNotFound = 404"
definition StatusMethodNotAllowed :: nat where "StatusMethodNotAllowed = 405"
definition StatusConflict :: nat where "StatusConflict = 409"
definition StatusInternalServerError :: nat where "StatusInternalServerError = 500"
definition StatusServiceUnavailable :: nat where "StatusServiceUnavailable = 503"

lemmas statuses = StatusOK_def StatusCreated_def StatusBadRequest_def StatusUnauthorized_def StatusForbidden_def
  StatusNotFound_def StatusMethodNotAllowed_def StatusConflict_def StatusInternalServerError_def
  StatusServiceUnavailable_def

section \<open>ServeMux\<close>

text \<open>A pattern is a method and segments, literal or wildcard. A request's path is the list of its
  unescaped segments; the last one is empty when the path ends in a slash, which no wildcard matches.
  \<^verbatim>\<open>GET\<close> patterns also match \<^verbatim>\<open>HEAD\<close>.\<close>

datatype segment = Lit string | Wild string

fun match_path :: "segment list \<Rightarrow> string list \<Rightarrow> (string \<times> string) list option" where
  "match_path [] [] = Some []"
| "match_path (Lit l # ps) (s # ss) = (if s = l then match_path ps ss else None)"
| "match_path (Wild x # ps) (s # ss) = (if s = [] then None else map_option ((#) (x, s)) (match_path ps ss))"
| "match_path _ _ = None"

definition match_method :: "string \<Rightarrow> string \<Rightarrow> bool" where
  "match_method pattern method \<longleftrightarrow> pattern = method \<or> (pattern = ''GET'' \<and> method = ''HEAD'')"

datatype 'h mux_result = Matched 'h "(string \<times> string) list" | MethodNotAllowed | NotFound

definition serve_mux :: "(string \<times> segment list \<times> 'h) list \<Rightarrow> string \<Rightarrow> string list \<Rightarrow> 'h mux_result" where
  "serve_mux patterns method path =
     (case List.find (\<lambda>(m, ps, h). match_method m method \<and> match_path ps path \<noteq> None) patterns of
        Some (m, ps, h) \<Rightarrow> Matched h (the (match_path ps path))
      | None \<Rightarrow>
          if list_ex (\<lambda>(m, ps, h). match_path ps path \<noteq> None) patterns then MethodNotAllowed else NotFound)"

lemma serve_mux_Matched:
  "serve_mux patterns method path = Matched h vs \<Longrightarrow>
     \<exists>m ps. (m, ps, h) \<in> set patterns \<and> match_method m method \<and> match_path ps path = Some vs"
  unfolding serve_mux_def by (auto dest!: find_SomeD split: option.splits if_splits) blast

end
