(* ===== verification/Wager_Query.thy ===== *)
theory Wager_Query
  imports Wagering_Persistence
begin

text \<open>
  \<^verbatim>\<open>internal/application/wagering/query.go\<close>: a provider's reads of its own transactions, by
  id and by external id.
\<close>

record WagerResult =
  wqTransactionID :: string
  wqProviderID :: string
  wqExternalTransactionID :: string
  wqIdempotencyKey :: string
  wqWalletID :: string
  wqPlayerID :: string
  wqRoundID :: string
  wqGameID :: string
  wqKind :: string
  wqState :: string
  wqAmount :: int64
  wqCurrency :: string
  wqReferenceExternalTransactionID :: string
  wqReferencedTransactionID :: string
  wqFailureCode :: string
  wqResultBalance :: "int64 option"
  wqCreatedAt :: time
  wqUpdatedAt :: time

definition stringValue :: "string option \<Rightarrow> string" where
  "stringValue v = (case v of None \<Rightarrow> [] | Some s \<Rightarrow> s)"

text \<open>The columns of a row as \<^verbatim>\<open>Scan\<close> reads them.\<close>

definition wager_result :: "env \<Rightarrow> wager_row \<Rightarrow> WagerResult" where
  "wager_result E r =
     \<lparr>wqTransactionID = uuid_String E (t_id r), wqProviderID = stringValue (t_provider_id r),
      wqExternalTransactionID = stringValue (t_external_transaction_id r),
      wqIdempotencyKey = stringValue (t_idempotency_key r), wqWalletID = uuid_String E (t_wallet_id r),
      wqPlayerID = t_player_id r, wqRoundID = stringValue (t_round_id r), wqGameID = stringValue (t_game_id r),
      wqKind = t_kind r, wqState = t_state r, wqAmount = t_amount r, wqCurrency = t_currency r,
      wqReferenceExternalTransactionID = stringValue (t_reference_external_transaction_id r),
      wqReferencedTransactionID = stringValue (map_option (uuid_String E) (t_referenced_transaction_id r)),
      wqFailureCode = stringValue (t_failure_code r), wqResultBalance = t_result_balance r,
      wqCreatedAt = t_created_at r, wqUpdatedAt = t_updated_at r\<rparr>"

text \<open>\<open>query\<close> is the row the statement finds, if any.\<close>

definition scanWagerResult :: "(env \<Rightarrow> database \<Rightarrow> wager_row option result) \<Rightarrow> WagerResult tx" where
  "scanWagerResult query =
     tx_bind (tx_map_err (Wrapped ''query wager transaction'') (sql_read query)) (\<lambda>row.
     case row of
       None \<Rightarrow> tx_fail (Sentinel ErrWagerNotFound)
     | Some r \<Rightarrow> tx_asks (\<lambda>E. wager_result E r))"

definition GetForProvider :: "string \<Rightarrow> string \<Rightarrow> WagerResult tx" where
  "GetForProvider transactionID providerID =
     scanWagerResult (\<lambda>E d. res_bind (uuid_param E transactionID) (\<lambda>i.
       Inr (List.find (\<lambda>r. t_id r = i \<and> t_provider_id r = Some providerID) (wager_transactions d))))"

definition GetByExternalTransactionIDForProvider :: "string \<Rightarrow> string \<Rightarrow> WagerResult tx" where
  "GetByExternalTransactionIDForProvider externalTransactionID providerID =
     scanWagerResult (\<lambda>_ d.
       Inr (List.find (external_identity providerID externalTransactionID) (wager_transactions d)))"

section \<open>Only the provider's own rows matter\<close>

definition own_rows :: "string \<Rightarrow> database \<Rightarrow> wager_row list" where
  "own_rows p d = filter (\<lambda>r. t_provider_id r = Some p) (wager_transactions d)"

lemma find_filter: "(\<And>x. P x \<Longrightarrow> Q x) \<Longrightarrow> List.find P (filter Q xs) = List.find P xs"
  by (induction xs) auto

lemma scanWagerResult_cong:
  "(\<And>E. query E (db w) = query' E (db w')) \<Longrightarrow> stmt_count w = stmt_count w' \<Longrightarrow>
     map_sum id fst (scanWagerResult query E w) = map_sum id fst (scanWagerResult query' E w')"
  by (cases "fault E (stmt_count w')"; cases "query' E (db w')"; cases "projr (query' E (db w'))")
    (simp_all add: scanWagerResult_def tx_bind_def tx_map_err_def sql_read_def sql_def tx_simps)

lemma find_own: "(\<And>r. P r \<Longrightarrow> t_provider_id r = Some p) \<Longrightarrow> List.find P (wager_transactions d) = List.find P (own_rows p d)"
  by (simp add: own_rows_def find_filter)

lemma GetForProvider_own:
  assumes "own_rows p d = own_rows p d'"
  shows "map_sum id fst (GetForProvider i p E (start_world d)) = map_sum id fst (GetForProvider i p E (start_world d'))"
proof -
  have "List.find (\<lambda>r. t_id r = u \<and> t_provider_id r = Some p) (wager_transactions x) =
      List.find (\<lambda>r. t_id r = u \<and> t_provider_id r = Some p) (own_rows p x)" for u x
    by (rule find_own) simp
  with assms show ?thesis unfolding GetForProvider_def by (intro scanWagerResult_cong) (simp_all add: start_world_def)
qed

lemma GetByExternal_own:
  assumes "own_rows p d = own_rows p d'"
  shows "map_sum id fst (GetByExternalTransactionIDForProvider i p E (start_world d)) =
    map_sum id fst (GetByExternalTransactionIDForProvider i p E (start_world d'))"
proof -
  have "List.find (external_identity p i) (wager_transactions x) = List.find (external_identity p i) (own_rows p x)" for x
    by (rule find_own) (simp add: external_identity_def)
  with assms show ?thesis
    unfolding GetByExternalTransactionIDForProvider_def by (intro scanWagerResult_cong) (simp_all add: start_world_def)
qed

lemma scanWagerResult_Inr:
  "scanWagerResult query E w = Inr (res, w') \<Longrightarrow>
     \<exists>r. query E (db w) = Inr (Some r) \<and> res = wager_result E r \<and> db w' = db w"
  unfolding scanWagerResult_def by (auto elim!: tx_elims split: option.splits)

end
