(* ===== verification/Http_Auth.thy ===== *)
theory Http_Auth
  imports Go_Http Go_Json_Decode Wager_Query Wallet_Service
begin

text \<open>
  \<^verbatim>\<open>internal/infrastructure/httpapi/auth.go\<close> and what all handlers share: requests, the
  values that \<^verbatim>\<open>writeJSON\<close> encodes as the body of a response, and handlers as functions of the
  request, the principal of its context, the database and the metrics. The OIDC verifier is third-party:
  \<open>hVerify\<close> gives the claims, as JSON text, of the tokens it accepts.
\<close>

section \<open>Requests and responses\<close>

record http_request =
  rqMethod :: string
  rqPath :: "string list"
  rqHeader :: "string \<Rightarrow> string"
  rqQuery :: "string \<Rightarrow> string"
  rqBody :: string

record moneyDTO =
  mdAmount :: string
  mdCurrency :: string

record processWagerResponse =
  prTransactionID :: string
  prStatus :: string
  prBalance :: moneyDTO
  prIdempotentReplay :: bool
  prFailureCode :: string

record wagerResponse =
  wgTransactionID :: string
  wgProviderID :: string
  wgExternalTransactionID :: string
  wgIdempotencyKey :: string
  wgWalletID :: string
  wgPlayerID :: string
  wgRoundID :: string
  wgGameID :: string
  wgKind :: string
  wgState :: string
  wgAmount :: string
  wgCurrency :: string
  wgReferenceExternalTransactionID :: string
  wgReferencedTransactionID :: string
  wgFailureCode :: string
  wgResultBalance :: "string option"
  wgCreatedAt :: string
  wgUpdatedAt :: string

record walletResponse =
  waID :: string
  waPlayerID :: string
  waBalance :: moneyDTO
  waVersion :: int64

record ledgerEntryResponse =
  ltID :: string
  ltTransactionID :: string
  ltDirection :: string
  ltAmount :: string
  ltBalanceBefore :: string
  ltBalanceAfter :: string
  ltCreatedAt :: string

record ledgerResponse =
  lrEntries :: "ledgerEntryResponse list"
  lrNextCursor :: string

record reconciliationResponse =
  rcWalletID :: string
  rcStoredBalance :: moneyDTO
  rcCalculatedBalance :: moneyDTO
  rcDifference :: moneyDTO
  rcConsistent :: bool
  rcCheckedEntries :: nat

text \<open>A body: \<^verbatim>\<open>{"error": ...}\<close>, a response struct, the health reports (overall, PostgreSQL, SQS),
  the text of the metrics, or the plain text \<open>ServeMux\<close> answers with.\<close>

datatype response_body =
    ErrorBody string
  | ProcessBody processWagerResponse
  | WagerBody wagerResponse
  | WalletBody walletResponse
  | LedgerBody ledgerResponse
  | ReconciliationBody reconciliationResponse
  | LiveBody string
  | ReadyBody string string string
  | MetricsBody string
  | PlainBody string

record http_response =
  rsStatus :: nat
  rsBody :: response_body

definition writeJSON :: "nat \<Rightarrow> response_body \<Rightarrow> http_response" where
  "writeJSON status value = \<lparr>rsStatus = status, rsBody = value\<rparr>"

record http_env =
  hService :: env
  hVerify :: "string \<Rightarrow> string option"
  hNewID :: uuid
  hPostgres :: bool
  hSQS :: bool

record Principal =
  ClientID :: string

type_synonym handler =
  "http_env \<Rightarrow> http_request \<Rightarrow> (string \<times> string) list \<Rightarrow> Principal option \<Rightarrow> database \<Rightarrow> Metrics
   \<Rightarrow> http_response \<times> database \<times> Metrics"

definition PathValue :: "(string \<times> string) list \<Rightarrow> string \<Rightarrow> string" where
  "PathValue vs name = stringValue (map_of vs name)"

section \<open>auth.go\<close>

definition internalClientID :: string where
  "internalClientID = ''wagering-internal''"

definition allowedProviderClients :: "string list" where
  "allowedProviderClients = [''provider-a'', ''provider-b'']"

definition isAllowedClient :: "string \<Rightarrow> bool" where
  "isAllowedClient clientID \<longleftrightarrow> clientID = internalClientID \<or> clientID \<in> set allowedProviderClients"

definition bearerToken :: "http_request \<Rightarrow> string option" where
  "bearerToken r =
     (case strings_Cut CHR '' '' (rqHeader r ''Authorization'') of
        None \<Rightarrow> None
      | Some (scheme, credential) \<Rightarrow>
          if \<not> equal_fold scheme ''Bearer'' then None
          else let token = strings_TrimSpace credential in if token = [] then None else Some token)"

record claims =
  clAuthorizedParty :: string
  clClientID :: string

definition claims_fields :: "(string \<times> claims decoder) list" where
  "claims_fields = [(''azp'', string_field clAuthorizedParty_update), (''client_id'', string_field clClientID_update)]"

text \<open>The client a request authenticates as, before it is checked against the allowed ones: \<open>None\<close>
  is any of the three failures.\<close>

definition authenticated_client :: "http_env \<Rightarrow> http_request \<Rightarrow> string option" where
  "authenticated_client H r =
     (case bearerToken r of
        None \<Rightarrow> None
      | Some token \<Rightarrow>
          (case hVerify H token of
             None \<Rightarrow> None
           | Some idToken \<Rightarrow>
               (case Unmarshal claims_fields idToken \<lparr>clAuthorizedParty = [], clClientID = []\<rparr> of
                  None \<Rightarrow> None
                | Some c \<Rightarrow> Some (if clAuthorizedParty c = [] then clClientID c else clAuthorizedParty c))))"

definition unauthorized :: http_response where
  "unauthorized = writeJSON StatusUnauthorized (ErrorBody ''unauthorized'')"

definition forbidden :: http_response where
  "forbidden = writeJSON StatusForbidden (ErrorBody ''forbidden'')"

definition Authenticate :: "handler \<Rightarrow> handler" where
  "Authenticate next_handler H r vs p d m =
     (case authenticated_client H r of
        None \<Rightarrow> (unauthorized, d, m)
      | Some clientID \<Rightarrow>
          if \<not> isAllowedClient clientID then (forbidden, d, m)
          else next_handler H r vs (Some \<lparr>ClientID = clientID\<rparr>) d m)"

definition ProviderOnly :: "handler \<Rightarrow> handler" where
  "ProviderOnly next_handler H r vs p d m =
     (case p of
        None \<Rightarrow> (unauthorized, d, m)
      | Some who \<Rightarrow>
          if ClientID who \<notin> set allowedProviderClients then (forbidden, d, m)
          else next_handler H r vs p d m)"

definition InternalOnly :: "handler \<Rightarrow> handler" where
  "InternalOnly next_handler H r vs p d m =
     (case p of
        None \<Rightarrow> (unauthorized, d, m)
      | Some who \<Rightarrow>
          if ClientID who \<noteq> internalClientID then (forbidden, d, m)
          else next_handler H r vs p d m)"

section \<open>Who gets through\<close>

definition provider_request :: "http_env \<Rightarrow> http_request \<Rightarrow> string \<Rightarrow> bool" where
  "provider_request H r p \<longleftrightarrow> authenticated_client H r = Some p \<and> p \<in> set allowedProviderClients"

definition internal_request :: "http_env \<Rightarrow> http_request \<Rightarrow> bool" where
  "internal_request H r \<longleftrightarrow> authenticated_client H r = Some internalClientID"

lemma internal_not_provider: "internalClientID \<notin> set allowedProviderClients"
  by (simp add: internalClientID_def allowedProviderClients_def)

lemma provider_guard:
  obtains (through) p where "provider_request H r p"
    "Authenticate (ProviderOnly next_handler) H r vs q d m = next_handler H r vs (Some \<lparr>ClientID = p\<rparr>) d m"
  | (refused) res where "Authenticate (ProviderOnly next_handler) H r vs q d m = (res, d, m)"
    "res = unauthorized \<or> res = forbidden" "\<nexists>p. provider_request H r p"
proof (cases "\<exists>p. provider_request H r p")
  case True
  then obtain p where "provider_request H r p" by blast
  then show thesis
    by (intro through [of p]) (simp_all add: Authenticate_def ProviderOnly_def provider_request_def isAllowedClient_def)
next
  case False
  then show thesis
    by (intro refused [of "fst (Authenticate (ProviderOnly next_handler) H r vs q d m)"])
      (auto simp: Authenticate_def ProviderOnly_def provider_request_def split: option.splits)
qed

lemma internal_guard:
  obtains (through) "internal_request H r"
    "Authenticate (InternalOnly next_handler) H r vs q d m = next_handler H r vs (Some \<lparr>ClientID = internalClientID\<rparr>) d m"
  | (refused) res where "Authenticate (InternalOnly next_handler) H r vs q d m = (res, d, m)"
    "res = unauthorized \<or> res = forbidden" "\<not> internal_request H r"
proof (cases "internal_request H r")
  case True
  then show thesis
    by (intro through) (simp_all add: Authenticate_def InternalOnly_def internal_request_def isAllowedClient_def)
next
  case False
  then show thesis
    by (intro refused [of "fst (Authenticate (InternalOnly next_handler) H r vs q d m)"])
      (auto simp: Authenticate_def InternalOnly_def internal_request_def split: option.splits)
qed

end
