(* ===== verification/Http_Wager.thy ===== *)
theory Http_Wager
  imports Http_Auth Wagering_Process
begin

text \<open>
  \<^verbatim>\<open>internal/infrastructure/httpapi/wager.go\<close>: the three provider endpoints. Logging is not
  modelled; the correlation id drawn for a command is \<open>hNewID\<close>.
\<close>

record processWagerRequest =
  pqProviderID :: string
  pqExternalTransactionID :: string
  pqPlayerID :: string
  pqWalletID :: string
  pqRoundID :: string
  pqGameID :: string
  pqKind :: string
  pqMoney :: moneyDTO
  pqReferenceExternalTransactionID :: string

definition zero_moneyDTO :: moneyDTO where
  "zero_moneyDTO = \<lparr>mdAmount = [], mdCurrency = []\<rparr>"

definition zero_processWagerRequest :: processWagerRequest where
  "zero_processWagerRequest =
     \<lparr>pqProviderID = [], pqExternalTransactionID = [], pqPlayerID = [], pqWalletID = [], pqRoundID = [],
      pqGameID = [], pqKind = [], pqMoney = zero_moneyDTO, pqReferenceExternalTransactionID = []\<rparr>"

definition moneyDTO_fields :: "(string \<times> moneyDTO decoder) list" where
  "moneyDTO_fields = [(''amount'', string_field mdAmount_update), (''currency'', string_field mdCurrency_update)]"

definition processWagerRequest_fields :: "(string \<times> processWagerRequest decoder) list" where
  "processWagerRequest_fields =
     [(''providerId'', string_field pqProviderID_update),
      (''externalTransactionId'', string_field pqExternalTransactionID_update),
      (''playerId'', string_field pqPlayerID_update),
      (''walletId'', string_field pqWalletID_update),
      (''roundId'', string_field pqRoundID_update),
      (''gameId'', string_field pqGameID_update),
      (''kind'', string_field pqKind_update),
      (''money'', struct_field pqMoney pqMoney_update (struct True moneyDTO_fields)),
      (''referenceExternalTransactionId'', string_field pqReferenceExternalTransactionID_update)]"

section \<open>Errors\<close>

text \<open>The texts of the sentinels, and \<^verbatim>\<open>Error()\<close>. The text of a driver's error is not modelled beyond
  its code; no response shows it.\<close>

fun sentinel_text :: "sentinel \<Rightarrow> string" where
  "sentinel_text ErrInvalidMoneyFormat = ''invalid money format''"
| "sentinel_text ErrCurrencyMismatch = ''currency mismatch''"
| "sentinel_text ErrMoneyOverflow = ''money overflow''"
| "sentinel_text ErrInsufficientFunds = ''insufficient funds''"
| "sentinel_text ErrInvalidAmount = ''amount must be greater than zero''"
| "sentinel_text ErrInvalidWalletID = ''wallet ID is required''"
| "sentinel_text ErrInvalidWalletPlayerID = ''wallet player ID is required''"
| "sentinel_text ErrInvalidWalletCurrency = ''wallet currency is required''"
| "sentinel_text ErrInvalidWalletBalance = ''wallet balance cannot be negative''"
| "sentinel_text ErrInvalidWalletVersion = ''wallet version must be positive''"
| "sentinel_text ErrInvalidWalletTimestamps = ''wallet timestamps are required''"
| "sentinel_text ErrWalletVersionOverflow = ''wallet version overflow''"
| "sentinel_text ErrInvalidWagerKind = ''invalid wager kind''"
| "sentinel_text ErrInvalidLossAmount = ''LOSS amount must be zero''"
| "sentinel_text ErrWagerReferenceRequired = ''reference external transaction ID is required''"
| "sentinel_text ErrWagerReferenceNotAllowed = ''reference external transaction ID is not allowed''"
| "sentinel_text ErrIdempotencyConflict = ''idempotency key already used with different payload''"
| "sentinel_text ErrExternalTransactionExists = ''external transaction already exists''"
| "sentinel_text ErrWagerWalletNotFound = ''wallet not found''"
| "sentinel_text ErrWalletPlayerMismatch = ''wallet does not belong to player''"
| "sentinel_text ErrReferenceMismatch = ''referenced transaction does not match reversal''"
| "sentinel_text ErrInvalidReferenceKind = ''invalid referenced transaction kind''"
| "sentinel_text ErrReferenceAmountMismatch = ''reversal amount must match referenced transaction''"
| "sentinel_text ErrWagerNotFound = ''wager transaction not found''"
| "sentinel_text ErrWalletAlreadyExists = ''wallet already exists''"
| "sentinel_text ErrWalletNotFound = ''wallet not found''"
| "sentinel_text ErrInvalidLedgerCursor = ''invalid ledger cursor''"
| "sentinel_text ErrPayloadConflict = ''message id already exists with different payload''"

fun error_text :: "error \<Rightarrow> string" where
  "error_text (Sentinel s) = sentinel_text s"
| "error_text (PlainError s) = s"
| "error_text (Wrapped context e) = context @ '': '' @ error_text e"
| "error_text (PgError code constr) = ''SQLSTATE '' @ code"

definition bad_request_errors :: "sentinel list" where
  "bad_request_errors =
     [ErrInvalidWagerKind, ErrInvalidAmount, ErrInvalidLossAmount, ErrWagerReferenceRequired,
      ErrWagerReferenceNotAllowed, ErrMoneyOverflow, ErrCurrencyMismatch]"

definition writeWagerError :: "error \<Rightarrow> http_response" where
  "writeWagerError err =
     (if errors_is err ErrIdempotencyConflict then writeJSON StatusConflict (ErrorBody ''idempotency conflict'')
      else if errors_is err ErrExternalTransactionExists
      then writeJSON StatusConflict (ErrorBody ''external transaction already exists'')
      else if errors_is err ErrWagerWalletNotFound then writeJSON StatusNotFound (ErrorBody ''wallet not found'')
      else if errors_is err ErrWalletPlayerMismatch
      then writeJSON StatusForbidden (ErrorBody ''wallet does not belong to player'')
      else if list_ex (errors_is err) bad_request_errors then writeJSON StatusBadRequest (ErrorBody (error_text err))
      else writeJSON StatusInternalServerError (ErrorBody ''failed to process wager''))"

definition writeWagerQueryError :: "error \<Rightarrow> http_response" where
  "writeWagerQueryError err =
     (if errors_is err ErrWagerNotFound then writeJSON StatusNotFound (ErrorBody ''wager transaction not found'')
      else writeJSON StatusInternalServerError (ErrorBody ''failed to query wager transaction''))"

section \<open>Process\<close>

text \<open>The checks of the decoded request, in their order; the command it becomes.\<close>

definition missing_field :: "processWagerRequest \<Rightarrow> bool" where
  "missing_field q \<longleftrightarrow>
     pqProviderID q = [] \<or> pqExternalTransactionID q = [] \<or> pqPlayerID q = [] \<or> pqWalletID q = []
     \<or> pqRoundID q = [] \<or> pqGameID q = [] \<or> pqKind q = [] \<or> mdAmount (pqMoney q) = [] \<or> mdCurrency (pqMoney q) = []"

definition wager_command :: "http_env \<Rightarrow> Principal \<Rightarrow> string \<Rightarrow> processWagerRequest \<Rightarrow> Money \<Rightarrow> ProcessCommand" where
  "wager_command H who idempotencyKey q amt =
     \<lparr>cmdIdempotencyKey = idempotencyKey, cmdCorrelationID = uuid_String (hService H) (hNewID H), cmdCausationID = [],
      cmdRequest =
        \<lparr>reqProviderID = ClientID who, reqExternalTransactionID = pqExternalTransactionID q,
         reqPlayerID = pqPlayerID q, reqWalletID = pqWalletID q, reqRoundID = pqRoundID q, reqGameID = pqGameID q,
         reqKind = pqKind q, reqAmount = amt,
         reqReferenceExternalTransactionID = pqReferenceExternalTransactionID q\<rparr>\<rparr>"

definition wager_checks_request ::
  "http_env \<Rightarrow> Principal \<Rightarrow> http_request \<Rightarrow> http_response + ProcessCommand" where
  "wager_checks_request H who r =
     (case Decode processWagerRequest_fields (rqBody r) zero_processWagerRequest of
        None \<Rightarrow> Inl (writeJSON StatusBadRequest (ErrorBody ''invalid request body''))
      | Some q \<Rightarrow>
          let idempotencyKey = rqHeader r ''Idempotency-Key'' in
          if strings_TrimSpace idempotencyKey = []
          then Inl (writeJSON StatusBadRequest (ErrorBody ''Idempotency-Key header is required''))
          else if missing_field q then Inl (writeJSON StatusBadRequest (ErrorBody ''missing required field''))
          else if pqProviderID q \<noteq> ClientID who
          then Inl (writeJSON StatusForbidden (ErrorBody ''provider does not match authenticated identity''))
          else if mdCurrency (pqMoney q) \<noteq> BRL
          then Inl (writeJSON StatusBadRequest (ErrorBody ''unsupported currency''))
          else (case ParseMoney (mdAmount (pqMoney q)) (mdCurrency (pqMoney q)) of
                  Inl _ \<Rightarrow> Inl (writeJSON StatusBadRequest (ErrorBody ''invalid amount''))
                | Inr amt \<Rightarrow> Inr (wager_command H who idempotencyKey q amt)))"

definition money_dto :: "Money \<Rightarrow> moneyDTO" where
  "money_dto m = \<lparr>mdAmount = Money_String m, mdCurrency = currency m\<rparr>"

definition process_response :: "ProcessResult \<Rightarrow> http_response" where
  "process_response result =
     writeJSON (if resIdempotentReplay result then StatusOK else StatusCreated)
       (ProcessBody \<lparr>prTransactionID = resTransactionID result, prStatus = resState result,
          prBalance = money_dto (resBalance result), prIdempotentReplay = resIdempotentReplay result,
          prFailureCode = resFailureCode result\<rparr>)"

definition WagerHandler_Process :: handler where
  "WagerHandler_Process H r vs p d m =
     (case p of
        None \<Rightarrow> (unauthorized, d, m)
      | Some who \<Rightarrow>
          (case wager_checks_request H who r of
             Inl refusal \<Rightarrow> (refusal, d, m)
           | Inr command \<Rightarrow>
               (case Service_Process (hService H) command (start_world d) m of
                  (Inl err, d', m') \<Rightarrow> (writeWagerError err, d', m')
                | (Inr result, d', m') \<Rightarrow> (process_response result, d', m'))))"

section \<open>Get\<close>

definition writeWagerResult :: "WagerResult \<Rightarrow> http_response" where
  "writeWagerResult result =
     writeJSON StatusOK (WagerBody
       \<lparr>wgTransactionID = wqTransactionID result, wgProviderID = wqProviderID result,
        wgExternalTransactionID = wqExternalTransactionID result, wgIdempotencyKey = wqIdempotencyKey result,
        wgWalletID = wqWalletID result, wgPlayerID = wqPlayerID result, wgRoundID = wqRoundID result,
        wgGameID = wqGameID result, wgKind = wqKind result, wgState = wqState result,
        wgAmount = Money_String (NewMoney (wqAmount result) (wqCurrency result)), wgCurrency = wqCurrency result,
        wgReferenceExternalTransactionID = wqReferenceExternalTransactionID result,
        wgReferencedTransactionID = wqReferencedTransactionID result, wgFailureCode = wqFailureCode result,
        wgResultBalance = map_option (\<lambda>b. Money_String (NewMoney b (wqCurrency result))) (wqResultBalance result),
        wgCreatedAt = format_rfc3339_nano (nanos (wqCreatedAt result)),
        wgUpdatedAt = format_rfc3339_nano (nanos (wqUpdatedAt result))\<rparr>)"

definition wager_query_response :: "(WagerResult \<times> world) result \<Rightarrow> http_response" where
  "wager_query_response res =
     (case res of Inl err \<Rightarrow> writeWagerQueryError err | Inr (result, _) \<Rightarrow> writeWagerResult result)"

definition WagerHandler_Get :: handler where
  "WagerHandler_Get H r vs p d m =
     (case p of
        None \<Rightarrow> (unauthorized, d, m)
      | Some who \<Rightarrow>
          (wager_query_response (GetForProvider (PathValue vs ''id'') (ClientID who) (hService H) (start_world d)), d, m))"

definition WagerHandler_GetByExternalTransactionID :: handler where
  "WagerHandler_GetByExternalTransactionID H r vs p d m =
     (case p of
        None \<Rightarrow> (unauthorized, d, m)
      | Some who \<Rightarrow>
          if PathValue vs ''providerId'' \<noteq> ClientID who
          then (writeJSON StatusForbidden (ErrorBody ''provider does not match authenticated identity''), d, m)
          else
            (wager_query_response (GetByExternalTransactionIDForProvider (PathValue vs ''externalTransactionId'')
               (ClientID who) (hService H) (start_world d)), d, m))"

end
