(* ===== verification/Http_Wallet.thy ===== *)
theory Http_Wallet
  imports Http_Wager
begin

text \<open>
  \<^verbatim>\<open>internal/infrastructure/httpapi/wallet.go\<close>: the internal endpoints of wallets.
\<close>

record createWalletRequest =
  cqPlayerID :: string
  cqInitialBalance :: moneyDTO

definition zero_createWalletRequest :: createWalletRequest where
  "zero_createWalletRequest = \<lparr>cqPlayerID = [], cqInitialBalance = zero_moneyDTO\<rparr>"

definition createWalletRequest_fields :: "(string \<times> createWalletRequest decoder) list" where
  "createWalletRequest_fields =
     [(''playerId'', string_field cqPlayerID_update),
      (''initialBalance'', struct_field cqInitialBalance cqInitialBalance_update (struct True moneyDTO_fields))]"

definition create_checks_request :: "http_request \<Rightarrow> http_response + CreateWalletCommand" where
  "create_checks_request r =
     (case Decode createWalletRequest_fields (rqBody r) zero_createWalletRequest of
        None \<Rightarrow> Inl (writeJSON StatusBadRequest (ErrorBody ''invalid request body''))
      | Some q \<Rightarrow>
          if cqPlayerID q = [] then Inl (writeJSON StatusBadRequest (ErrorBody ''playerId is required''))
          else if mdCurrency (cqInitialBalance q) \<noteq> BRL
          then Inl (writeJSON StatusBadRequest (ErrorBody ''unsupported currency''))
          else (case ParseMoney (mdAmount (cqInitialBalance q)) (mdCurrency (cqInitialBalance q)) of
                  Inl _ \<Rightarrow> Inl (writeJSON StatusBadRequest (ErrorBody ''invalid initial balance''))
                | Inr initialBalance \<Rightarrow> Inr \<lparr>cwPlayerID = cqPlayerID q, cwInitialBalance = initialBalance\<rparr>))"

definition create_response :: "string \<Rightarrow> CreateWalletResult result \<Rightarrow> http_response" where
  "create_response player res =
     (case res of
        Inl err \<Rightarrow>
          if errors_is err ErrWalletAlreadyExists then writeJSON StatusConflict (ErrorBody ''wallet already exists'')
          else writeJSON StatusInternalServerError (ErrorBody ''failed to create wallet'')
      | Inr result \<Rightarrow>
          writeJSON StatusCreated (WalletBody
            \<lparr>waID = cwrWalletID result, waPlayerID = player, waBalance = money_dto (cwrBalance result),
             waVersion = cwrVersion result\<rparr>))"

definition WalletHandler_Create :: handler where
  "WalletHandler_Create H r vs p d m =
     (case create_checks_request r of
        Inl refusal \<Rightarrow> (refusal, d, m)
      | Inr command \<Rightarrow>
          (case Wallet_Create (hService H) command d of
             (res, d') \<Rightarrow> (create_response (cwPlayerID command) res, d', m)))"

text \<open>The first two answers to a failed read.\<close>

definition wallet_error :: "error \<Rightarrow> string \<Rightarrow> http_response" where
  "wallet_error err failure =
     (if errors_is err ErrWalletNotFound then writeJSON StatusNotFound (ErrorBody ''wallet not found'')
      else writeJSON StatusInternalServerError (ErrorBody failure))"

definition WalletHandler_Get :: handler where
  "WalletHandler_Get H r vs p d m =
     ((case Wallet_Get (PathValue vs ''id'') (hService H) (start_world d) of
         Inl err \<Rightarrow> wallet_error err ''failed to get wallet''
       | Inr (result, _) \<Rightarrow>
           writeJSON StatusOK (WalletBody
             \<lparr>waID = wrWalletID result, waPlayerID = wrPlayerID result,
              waBalance = \<lparr>mdAmount = Money_String (NewMoney (wrBalance result) (wrCurrency result)),
                 mdCurrency = wrCurrency result\<rparr>,
              waVersion = wrVersion result\<rparr>)), d, m)"

section \<open>Ledger\<close>

definition ledger_limit :: "http_request \<Rightarrow> int option" where
  "ledger_limit r =
     (let rawLimit = rqQuery r ''limit'' in
      if rawLimit = [] then Some DefaultLedgerPageSize
      else (case ParseInt rawLimit of
              Inl _ \<Rightarrow> None
            | Inr parsedLimit \<Rightarrow> if sint parsedLimit \<le> 0 then None else Some (sint parsedLimit)))"

definition ledger_entry_response :: "LedgerEntryResult \<Rightarrow> ledgerEntryResponse" where
  "ledger_entry_response entry =
     \<lparr>ltID = leID entry, ltTransactionID = leTransactionID entry, ltDirection = leDirection entry,
      ltAmount = Money_String (NewMoney (leAmount entry) BRL),
      ltBalanceBefore = Money_String (NewMoney (leBalanceBefore entry) BRL),
      ltBalanceAfter = Money_String (NewMoney (leBalanceAfter entry) BRL),
      ltCreatedAt = format_rfc3339_nano (nanos (leCreatedAt entry))\<rparr>"

definition ledger_response :: "(LedgerPage \<times> world) result \<Rightarrow> http_response" where
  "ledger_response res =
     (case res of
        Inl err \<Rightarrow>
          if errors_is err ErrWalletNotFound then writeJSON StatusNotFound (ErrorBody ''wallet not found'')
          else if errors_is err ErrInvalidLedgerCursor then writeJSON StatusBadRequest (ErrorBody ''invalid cursor'')
          else writeJSON StatusInternalServerError (ErrorBody ''failed to get wallet ledger'')
      | Inr (page, _) \<Rightarrow>
          writeJSON StatusOK (LedgerBody
            \<lparr>lrEntries = map ledger_entry_response (lpEntries page), lrNextCursor = lpNextCursor page\<rparr>))"

definition WalletHandler_Ledger :: handler where
  "WalletHandler_Ledger H r vs p d m =
     (case ledger_limit r of
        None \<Rightarrow> (writeJSON StatusBadRequest (ErrorBody ''invalid limit''), d, m)
      | Some limit \<Rightarrow>
          (ledger_response (Wallet_LedgerPage (PathValue vs ''id'') limit (rqQuery r ''cursor'')
             (hService H) (start_world d)), d, m))"

section \<open>Reconcile\<close>

definition reconciliation_response :: "ReconciliationResult \<Rightarrow> http_response" where
  "reconciliation_response result =
     (let dto = (\<lambda>b. \<lparr>mdAmount = Money_String (NewMoney b (rrCurrency result)), mdCurrency = rrCurrency result\<rparr>) in
      writeJSON StatusOK (ReconciliationBody
        \<lparr>rcWalletID = rrWalletID result, rcStoredBalance = dto (rrStoredBalance result),
         rcCalculatedBalance = dto (rrCalculatedBalance result), rcDifference = dto (rrDifference result),
         rcConsistent = rrConsistent result, rcCheckedEntries = rrCheckedEntries result\<rparr>))"

definition WalletHandler_Reconcile :: handler where
  "WalletHandler_Reconcile H r vs p d m =
     (case Wallet_Reconcile (hService H) (PathValue vs ''id'') d m of
        (Inl err, d', m') \<Rightarrow> (wallet_error err ''failed to reconcile wallet'', d', m')
      | (Inr result, d', m') \<Rightarrow> (reconciliation_response result, d', m'))"

end
