(* ===== verification/Go_Float.thy ===== *)
theory Go_Float
  imports Go_Time
begin

text \<open>
  What \<^verbatim>\<open>WritePrometheus\<close> needs of \<^verbatim>\<open>float64\<close>: the conversion of an unsigned integer, a division and
  \<^verbatim>\<open>%.6f\<close>. A non-negative float is \<open>m * 2 ^ e\<close> with at most 53 bits in \<open>m\<close>; results are rounded to the nearest,
  ties to even, as IEEE 754 and \<^verbatim>\<open>strconv\<close> do. Exponents at the ends of the range do not occur.
\<close>

section \<open>Rounding\<close>

text \<open>The integer nearest to \<open>n / d\<close>, the even one of two.\<close>

definition round_even :: "nat \<Rightarrow> nat \<Rightarrow> nat" where
  "round_even n d =
     (let q = n div d; r = n mod d in
      if 2 * r < d then q else if d < 2 * r then Suc q else if even q then q else Suc q)"

fun bit_length :: "nat \<Rightarrow> nat" where
  "bit_length n = (if n = 0 then 0 else Suc (bit_length (n div 2)))"

declare bit_length.simps [simp del]

record float64 =
  mantissa :: nat
  exponent :: int

text \<open>\<open>n / (d * 2 ^ e)\<close> as a numerator and a denominator.\<close>

definition scale :: "nat \<Rightarrow> nat \<Rightarrow> int \<Rightarrow> nat \<times> nat" where
  "scale n d e = (n * 2 ^ nat (- e), d * 2 ^ nat e)"

text \<open>The exponent that leaves 53 bits before the point.\<close>

definition float_exponent :: "nat \<Rightarrow> nat \<Rightarrow> int" where
  "float_exponent n d =
     (let e = int (bit_length n) - int (bit_length d) - 53; (a, b) = scale n d e in
      if 2 ^ 53 * b \<le> a then e + 1 else e)"

text \<open>The float nearest to \<open>n / d\<close>.\<close>

definition float_of_ratio :: "nat \<Rightarrow> nat \<Rightarrow> float64" where
  "float_of_ratio n d =
     (if n = 0 then \<lparr>mantissa = 0, exponent = 0\<rparr>
      else let e = float_exponent n d; (a, b) = scale n d e in \<lparr>mantissa = round_even a b, exponent = e\<rparr>)"

definition float_of_nat :: "nat \<Rightarrow> float64" where
  "float_of_nat n = float_of_ratio n 1"

definition float_div_nat :: "float64 \<Rightarrow> nat \<Rightarrow> float64" where
  "float_div_nat x d = (case scale (mantissa x) d (- exponent x) of (a, b) \<Rightarrow> float_of_ratio a b)"

definition format_6f :: "float64 \<Rightarrow> string" where
  "format_6f x =
     (case scale (mantissa x * 10 ^ 6) 1 (- exponent x) of (a, b) \<Rightarrow>
        let n = round_even a b in show_nat (n div 10 ^ 6) @ ''.'' @ pad_nat 6 (n mod 10 ^ 6))"

section \<open>Exactness\<close>

lemma round_even_near:
  assumes "0 < d"
  shows "2 * \<bar>int (round_even n d) * int d - int n\<bar> \<le> int d"
proof -
  define q r where "q = n div d" and "r = n mod d"
  have n: "int n = int q * int d + int r"
    unfolding q_def r_def by (metis div_mult_mod_eq of_nat_add of_nat_mult)
  have "r < d" unfolding r_def using assms by simp
  moreover have "round_even n d = (if 2 * r < d then q else if d < 2 * r then Suc q else if even q then q else Suc q)"
    unfolding round_even_def Let_def q_def r_def by (rule refl)
  ultimately consider "round_even n d = q" "2 * r \<le> d" | "round_even n d = Suc q" "d \<le> 2 * r" "r < d"
    by (auto split: if_splits)
  then show ?thesis
  proof cases
    case 1
    then have "int (round_even n d) * int d - int n = - int r" unfolding n by simp
    with 1(2) show ?thesis by simp
  next
    case 2
    then have "int (round_even n d) * int d - int n = int d - int r" unfolding n by (simp add: distrib_right)
    with 2(2,3) show ?thesis by simp
  qed
qed

lemma round_even_unique:
  assumes "2 * \<bar>int k * int d - int n\<bar> < int d"
  shows "round_even n d = k"
proof -
  have d: "0 < d" using assms by (cases d) auto
  have near: "\<bar>x - y\<bar> < D" if "2 * \<bar>x - z\<bar> \<le> D" "2 * \<bar>y - z\<bar> < D" for x y z D :: int
  proof -
    have "2 * \<bar>x - y\<bar> \<le> 2 * \<bar>x - z\<bar> + 2 * \<bar>y - z\<bar>" using abs_triangle_ineq4 [of "x - z" "y - z"] by simp
    also have "\<dots> < D + D" by (rule add_le_less_mono [OF that])
    finally show ?thesis by simp
  qed
  have "\<bar>int (round_even n d) * int d - int k * int d\<bar> < int d"
    by (rule near [OF round_even_near [OF d, of n] assms])
  moreover have "int (round_even n d) * int d - int k * int d = (int (round_even n d) - int k) * int d"
    by (rule left_diff_distrib [symmetric])
  ultimately have "\<bar>int (round_even n d) - int k\<bar> * int d < 1 * int d" by (simp add: abs_mult)
  then have "\<bar>int (round_even n d) - int k\<bar> < 1" by (rule mult_right_less_imp_less) simp
  then show ?thesis by simp
qed

lemma bit_length_bounds: "n < 2 ^ bit_length n \<and> (0 < n \<longrightarrow> 2 ^ bit_length n \<le> 2 * n)"
proof (induction n rule: bit_length.induct)
  case (1 n)
  show ?case
  proof (cases "n = 0")
    case True
    then show ?thesis by (simp add: bit_length.simps)
  next
    case False
    with 1 have "n div 2 < 2 ^ bit_length (n div 2)" "0 < n div 2 \<longrightarrow> 2 ^ bit_length (n div 2) \<le> 2 * (n div 2)"
      by blast+
    moreover have "bit_length n = Suc (bit_length (n div 2))" using False by (simp add: bit_length.simps [of n])
    moreover have "n div 2 = 0 \<Longrightarrow> bit_length (n div 2) = 0" by (simp add: bit_length.simps)
    ultimately show ?thesis using False by (cases "n div 2 = 0") auto
  qed
qed

text \<open>The quotient at the chosen exponent has at least 53 bits.\<close>

lemma float_exponent_large:
  assumes "0 < n" "0 < d"
  shows "2 ^ 52 * snd (scale n d (float_exponent n d)) \<le> fst (scale n d (float_exponent n d))"
proof -
  define e where "e = int (bit_length n) - int (bit_length d) - 53"
  have bounds: "2 ^ bit_length n \<le> 2 * n" "d \<le> 2 ^ bit_length d"
    using bit_length_bounds [of n] bit_length_bounds [of d] assms by auto
  have base: "2 ^ 52 * snd (scale n d e) \<le> fst (scale n d e)"
  proof (cases "0 \<le> e")
    case True
    then have "bit_length n = Suc (bit_length d + 52 + nat e)" by (simp add: e_def)
    then have "2 ^ 52 * (2 ^ bit_length d * 2 ^ nat e) \<le> n" using bounds(1) by (simp add: power_add)
    moreover have "2 ^ 52 * (d * 2 ^ nat e) \<le> 2 ^ 52 * (2 ^ bit_length d * 2 ^ nat e)"
      using bounds(2) by (intro mult_le_mono) simp_all
    ultimately have "2 ^ 52 * (d * 2 ^ nat e) \<le> n" by (rule order_trans [rotated])
    then show ?thesis using True by (simp add: scale_def)
  next
    case False
    then have "bit_length n + nat (- e) = Suc (bit_length d + 52)" by (simp add: e_def)
    then have "2 * (2 ^ 52 * 2 ^ bit_length d) = (2 ^ bit_length n * 2 ^ nat (- e) :: nat)"
      by (simp only: power_add [symmetric] power_Suc [symmetric] add.commute)
    also have "\<dots> \<le> 2 * n * 2 ^ nat (- e)" using bounds(1) by (intro mult_le_mono) simp_all
    finally have "2 ^ 52 * 2 ^ bit_length d \<le> n * 2 ^ nat (- e)" by simp
    moreover have "2 ^ 52 * d \<le> 2 ^ 52 * 2 ^ bit_length d" using bounds(2) by (intro mult_le_mono) simp_all
    ultimately have "2 ^ 52 * d \<le> n * 2 ^ nat (- e)" by (rule order_trans [rotated])
    then show ?thesis using False by (simp add: scale_def)
  qed
  have next_exponent: "2 ^ 52 * snd (scale n d (e + 1)) \<le> fst (scale n d (e + 1))"
    if "2 ^ 53 * snd (scale n d e) \<le> fst (scale n d e)"
  proof (cases "0 \<le> e")
    case True
    then have "nat (e + 1) = Suc (nat e)" "nat (- e) = 0" "nat (- (e + 1)) = 0" by simp_all
    with that show ?thesis by (simp add: scale_def)
  next
    case False
    then have "nat (- e) = Suc (nat (- (e + 1)))" "nat e = 0" "nat (e + 1) = 0" by simp_all
    with that show ?thesis unfolding scale_def by simp
  qed
  show ?thesis
    using base next_exponent by (simp add: float_exponent_def e_def [symmetric] Let_def case_prod_unfold)
qed

lemma float_exponent_negative:
  assumes "0 < n" "0 < d" "n < 2 ^ 33 * d"
  shows "float_exponent n d \<le> - 20"
proof (rule ccontr)
  let ?e = "float_exponent n d"
  assume "\<not> ?thesis"
  then have s: "nat (- ?e) \<le> 19" by linarith
  have "2 ^ 52 * d \<le> 2 ^ 52 * snd (scale n d ?e)" by (simp add: scale_def)
  also have "\<dots> \<le> n * 2 ^ nat (- ?e)" using float_exponent_large [OF assms(1,2)] by (simp add: scale_def)
  also have "\<dots> \<le> n * 2 ^ 19" using power_increasing [OF s, of "2 :: nat"] by (intro mult_le_mono) simp_all
  finally show False using assms(3) by simp
qed

lemma float_of_nat_exact:
  assumes "k < 2 ^ 53" "x = float_of_nat k"
  shows "exponent x \<le> 0 \<and> mantissa x = k * 2 ^ nat (- exponent x)"
proof (cases "k = 0")
  case True
  then show ?thesis by (simp add: assms(2) float_of_nat_def float_of_ratio_def)
next
  case False
  have "2 ^ bit_length k < (2 ^ 54 :: nat)" using bit_length_bounds [of k] False assms(1) by simp
  then have "bit_length k < 54" by (rule power_less_imp_less_exp [rotated]) simp
  moreover have "bit_length 1 = 1" by (simp add: bit_length.simps)
  ultimately have e: "float_exponent k 1 \<le> 0" by (auto simp: float_exponent_def Let_def split: prod.splits)
  moreover have "round_even a 1 = a" for a by (simp add: round_even_def)
  ultimately show ?thesis
    using False by (simp add: assms(2) float_of_nat_def float_of_ratio_def Let_def scale_def)
qed

lemma format_6f_ratio:
  assumes "0 < n" "0 < d" and ratio: "n * 10 ^ 6 = k * d" and small: "k < 2 ^ 33 * 10 ^ 6"
  shows "format_6f (float_of_ratio n d) = show_nat (k div 10 ^ 6) @ ''.'' @ pad_nat 6 (k mod 10 ^ 6)"
proof -
  define e s m where "e = float_exponent n d" and "s = nat (- e)" and "m = round_even (n * 2 ^ s) d"
  have "n * 10 ^ 6 < 2 ^ 33 * 10 ^ 6 * d" unfolding ratio using small assms(2) by (intro mult_strict_right_mono)
  then have "n < 2 ^ 33 * d" by simp
  from float_exponent_negative [OF assms(1,2) this] have e: "e \<le> - 20" by (simp add: e_def)
  then have s: "20 \<le> s" "nat e = 0" by (simp_all add: s_def)
  have x: "float_of_ratio n d = \<lparr>mantissa = m, exponent = e\<rparr>"
    using assms(1) s(2) by (simp add: float_of_ratio_def Let_def e_def [symmetric] scale_def s_def [symmetric] m_def)
  have near: "2 * \<bar>int m * int d - int (n * 2 ^ s)\<bar> \<le> int d"
    unfolding m_def by (rule round_even_near [OF assms(2)])
  define A B where "A = int k * 2 ^ s - int m * 10 ^ 6" and "B = int m * int d - int (n * 2 ^ s)"
  have "A * int d = 10 ^ 6 * - B"
    using arg_cong [OF ratio, of int] by (simp add: A_def B_def algebra_simps)
  from arg_cong [OF this, of abs] have "\<bar>A\<bar> * int d = 10 ^ 6 * \<bar>B\<bar>" by (simp add: abs_mult)
  with near have "2 * \<bar>A\<bar> * int d \<le> 10 ^ 6 * int d" by (simp add: B_def)
  then have "2 * \<bar>A\<bar> \<le> 10 ^ 6" by (rule mult_right_le_imp_le) (use assms(2) in simp)
  also have "(10 ^ 6 :: int) < 2 ^ 20" by simp
  also have "\<dots> \<le> 2 ^ s" using s(1) by (intro power_increasing) simp_all
  finally have "round_even (m * 10 ^ 6) (2 ^ s) = k" by (intro round_even_unique) (simp add: A_def)
  with s(2) show ?thesis
    by (simp add: x format_6f_def scale_def s_def [symmetric])
qed

text \<open>Microseconds below \<open>2 ^ 33\<close> seconds, some 272 years, are printed exactly as seconds.\<close>

lemma format_micros:
  assumes "k < 2 ^ 33 * 10 ^ 6"
  shows "format_6f (float_div_nat (float_of_nat k) (10 ^ 6)) = show_nat (k div 10 ^ 6) @ ''.'' @ pad_nat 6 (k mod 10 ^ 6)"
proof (cases "k = 0")
  case True
  then show ?thesis
    by (simp add: float_of_nat_def float_of_ratio_def float_div_nat_def scale_def format_6f_def round_even_def)
next
  case False
  let ?x = "float_of_nat k"
  have "k < 2 ^ 53" using assms by simp
  then have x: "exponent ?x \<le> 0" "mantissa ?x = k * 2 ^ nat (- exponent ?x)" using float_of_nat_exact by blast+
  have "float_div_nat ?x (10 ^ 6) = float_of_ratio (mantissa ?x) (10 ^ 6 * 2 ^ nat (- exponent ?x))"
    using x(1) by (simp add: float_div_nat_def scale_def)
  then show ?thesis
    using False assms by (simp only:, intro format_6f_ratio) (simp_all add: x(2))
qed

end
