(* ===== verification/Prometheus.thy ===== *)
theory Prometheus
  imports Metrics Go_Float
begin

text \<open>
  \<^verbatim>\<open>Metrics.WritePrometheus\<close> of \<^verbatim>\<open>internal/observability/metrics.go\<close>: the text of the metrics endpoint. The writer
  may fail at any write (\<open>fails\<close> gives the error of the write at a position, if any).
\<close>

definition newline :: string where "newline = [CHR 0x0A]"

definition metric_counters :: "Metrics \<Rightarrow> (string \<times> uint64) list" where
  "metric_counters m =
     [(''wagering_sqs_messages_processed_total'', sqsMessagesProcessed m),
      (''wagering_sqs_errors_total'', sqsErrors m),
      (''wagering_sqs_retries_total'', sqsRetries m),
      (''wagering_outbox_events_published_total'', outboxEventsPublished m),
      (''wagering_outbox_errors_total'', outboxErrors m),
      (''wagering_outbox_retries_total'', outboxRetries m),
      (''wagering_wagers_processed_total'', wagersProcessed m),
      (''wagering_wagers_rejected_total'', wagersRejected m),
      (''wagering_wagers_pending_reference_total'', wagersPendingReference m),
      (''wagering_idempotent_replays_total'', idempotentReplays m),
      (''wagering_concurrency_conflicts_total'', concurrencyConflicts m),
      (''wagering_reconciliation_divergences_total'', reconciliationDivergences m)]"

definition show_uint :: "uint64 \<Rightarrow> string" where
  "show_uint v = show_nat (unat v)"

definition counter_text :: "string \<times> uint64 \<Rightarrow> string" where
  "counter_text c =
     ''# TYPE '' @ fst c @ '' counter'' @ newline @ fst c @ '' '' @ show_uint (snd c) @ newline"

definition summary_text :: "string \<Rightarrow> uint64 \<Rightarrow> uint64 \<Rightarrow> string" where
  "summary_text name count micros =
     ''# TYPE '' @ name @ '' summary'' @ newline
     @ name @ ''_count '' @ show_uint count @ newline
     @ name @ ''_sum '' @ format_6f (float_div_nat (float_of_nat (unat micros)) (10 ^ 6)) @ newline"

text \<open>The texts handed to the writer, one for each \<^verbatim>\<open>Fprintf\<close>.\<close>

definition metric_writes :: "Metrics \<Rightarrow> string list" where
  "metric_writes m =
     map counter_text (metric_counters m)
     @ [''# TYPE wagering_sqs_dlq_messages gauge'' @ newline
          @ ''wagering_sqs_dlq_messages '' @ show_uint (sqsDLQMessages m) @ newline,
        summary_text ''wagering_processing_duration_seconds'' (processingCount m) (processingDurationMicros m),
        summary_text ''wagering_outbox_publish_delay_seconds'' (outboxPublishedDelaySamples m) (outboxPublishedDelayMicros m)]"

fun write_all :: "(nat \<Rightarrow> error option) \<Rightarrow> nat \<Rightarrow> string list \<Rightarrow> error option \<times> string" where
  "write_all fails i [] = (None, [])"
| "write_all fails i (t # ts) =
     (case fails i of
        Some err \<Rightarrow> (Some err, [])
      | None \<Rightarrow> (case write_all fails (Suc i) ts of (err, rest) \<Rightarrow> (err, t @ rest)))"

definition WritePrometheus :: "(nat \<Rightarrow> error option) \<Rightarrow> Metrics \<Rightarrow> error option \<times> string" where
  "WritePrometheus fails m = write_all fails 0 (metric_writes m)"

section \<open>What is written\<close>

lemma write_all_prefix:
  "\<exists>n \<le> length ts. snd (write_all fails i ts) = concat (take n ts) \<and> (fst (write_all fails i ts) = None \<longleftrightarrow> n = length ts)"
proof (induction ts arbitrary: i)
  case Nil
  then show ?case by simp
next
  case (Cons t ts)
  show ?case
  proof (cases "fails i")
    case None
    obtain err rest where r: "write_all fails (Suc i) ts = (err, rest)" by (cases "write_all fails (Suc i) ts")
    from Cons.IH [of "Suc i"] obtain n where n: "n \<le> length ts" "rest = concat (take n ts)" "err = None \<longleftrightarrow> n = length ts"
      unfolding r by auto
    show ?thesis by (rule exI [of _ "Suc n"]) (use n in \<open>simp add: None r\<close>)
  next
    case (Some err)
    then show ?thesis by (intro exI [of _ 0]) simp
  qed
qed

lemma write_all_succeeds: "write_all (\<lambda>_. None) i ts = (None, concat ts)"
  by (induction ts arbitrary: i) simp_all

definition exact_seconds :: "nat \<Rightarrow> string" where
  "exact_seconds micros = show_nat (micros div 10 ^ 6) @ ''.'' @ pad_nat 6 (micros mod 10 ^ 6)"

definition exact_summary :: "string \<Rightarrow> uint64 \<Rightarrow> uint64 \<Rightarrow> string" where
  "exact_summary name count micros =
     ''# TYPE '' @ name @ '' summary'' @ newline
     @ name @ ''_count '' @ show_uint count @ newline
     @ name @ ''_sum '' @ exact_seconds (unat micros) @ newline"

text \<open>C35: the metrics endpoint tells the counters exactly. While the two sums of durations are below
  \<open>2 ^ 33\<close> seconds, the text of the endpoint is the twelve counters and the gauge in decimal and, for the
  two summaries, their count and the sum in seconds with exactly its six decimals: the way through
  \<^verbatim>\<open>float64\<close> loses nothing.\<close>

theorem metrics_text_exact:
  assumes "unat (processingDurationMicros m) < 2 ^ 33 * 10 ^ 6" "unat (outboxPublishedDelayMicros m) < 2 ^ 33 * 10 ^ 6"
  shows "WritePrometheus (\<lambda>_. None) m =
     (None, concat (map counter_text (metric_counters m))
        @ ''# TYPE wagering_sqs_dlq_messages gauge'' @ newline
        @ ''wagering_sqs_dlq_messages '' @ show_uint (sqsDLQMessages m) @ newline
        @ exact_summary ''wagering_processing_duration_seconds'' (processingCount m) (processingDurationMicros m)
        @ exact_summary ''wagering_outbox_publish_delay_seconds'' (outboxPublishedDelaySamples m) (outboxPublishedDelayMicros m))"
  using format_micros [OF assms(1)] format_micros [OF assms(2)]
  by (simp add: WritePrometheus_def write_all_succeeds metric_writes_def summary_text_def exact_summary_def exact_seconds_def)

lemma metrics_text_exact_witness:
  "\<exists>t. WritePrometheus (\<lambda>_. None) (ObserveProcessingDuration 1500000 NewMetrics) =
     (None, t @ exact_summary ''wagering_outbox_publish_delay_seconds'' 0 0)
   \<and> exact_seconds 1500000 = ''1.500000''"
proof -
  let ?m = "ObserveProcessingDuration 1500000 NewMetrics"
  have "unat (processingDurationMicros ?m) = 1500000" "unat (outboxPublishedDelayMicros ?m) = 0"
    by (simp_all add: ObserveProcessingDuration_def NewMetrics_def)
  then have small: "unat (processingDurationMicros ?m) < 2 ^ 33 * 10 ^ 6" "unat (outboxPublishedDelayMicros ?m) < 2 ^ 33 * 10 ^ 6"
    by (simp_all only:) simp_all
  have "\<exists>t. WritePrometheus (\<lambda>_. None) ?m =
      (None, t @ exact_summary ''wagering_outbox_publish_delay_seconds'' (outboxPublishedDelaySamples ?m) (outboxPublishedDelayMicros ?m))"
    unfolding metrics_text_exact [OF small] append.assoc [symmetric] by blast
  moreover have "exact_seconds 1500000 = ''1.500000''"
    by (simp add: exact_seconds_def pad_nat_def show_nat.simps digit_char_def char_of_def bit_0)
  ultimately show ?thesis by (simp add: ObserveProcessingDuration_def NewMetrics_def)
qed

end
