(* ===== verification/Http_Server.thy ===== *)
theory Http_Server
  imports Http_Wallet Prometheus
begin

text \<open>
  \<^verbatim>\<open>internal/infrastructure/httpapi/server.go\<close>, \<^verbatim>\<open>health.go\<close> and \<^verbatim>\<open>metrics.go\<close>: the
  health reports, the metrics endpoint and the routes with their guards. A request whose path
  \<open>ServeMux\<close> would redirect to its clean form is outside the model, as are the listener and its
  shutdown.
\<close>

section \<open>Health and metrics\<close>

definition HealthHandler_Live :: handler where
  "HealthHandler_Live H r vs p d m = (writeJSON StatusOK (LiveBody ''UP''), d, m)"

definition HealthHandler_Ready :: handler where
  "HealthHandler_Ready H r vs p d m =
     (let postgres = (if hPostgres H then ''UP'' else ''DOWN''); sqs = (if hSQS H then ''UP'' else ''DOWN'') in
      (if postgres \<noteq> ''UP'' \<or> sqs \<noteq> ''UP''
       then writeJSON StatusServiceUnavailable (ReadyBody ''DOWN'' postgres sqs)
       else writeJSON StatusOK (ReadyBody ''UP'' postgres sqs), d, m))"

definition MetricsHandler_ServeHTTP :: handler where
  "MetricsHandler_ServeHTTP H r vs p d m = 
     (\<lparr>rsStatus = StatusOK, rsBody = MetricsBody (snd (WritePrometheus (\<lambda>_. None) m))\<rparr>, d, m)"

section \<open>Routes\<close>

definition mux_patterns :: "(string \<times> segment list \<times> handler) list" where
  "mux_patterns =
     [(''POST'', [Lit ''wallets''], Authenticate (InternalOnly WalletHandler_Create)),
      (''GET'', [Lit ''wallets'', Wild ''id''], Authenticate (InternalOnly WalletHandler_Get)),
      (''GET'', [Lit ''wallets'', Wild ''id'', Lit ''ledger''], Authenticate (InternalOnly WalletHandler_Ledger)),
      (''POST'', [Lit ''wallets'', Wild ''id'', Lit ''reconciliation''],
         Authenticate (InternalOnly WalletHandler_Reconcile)),
      (''POST'', [Lit ''wagering'', Lit ''transactions''], Authenticate (ProviderOnly WagerHandler_Process)),
      (''GET'', [Lit ''wagering'', Lit ''transactions'', Wild ''id''], Authenticate (ProviderOnly WagerHandler_Get)),
      (''GET'', [Lit ''providers'', Wild ''providerId'', Lit ''wagering'', Lit ''transactions'',
          Wild ''externalTransactionId''],
         Authenticate (ProviderOnly WagerHandler_GetByExternalTransactionID)),
      (''GET'', [Lit ''health'', Lit ''live''], HealthHandler_Live),
      (''GET'', [Lit ''health'', Lit ''ready''], HealthHandler_Ready),
      (''GET'', [Lit ''metrics''], MetricsHandler_ServeHTTP)]"

definition serve_http :: "http_env \<Rightarrow> http_request \<Rightarrow> database \<Rightarrow> Metrics \<Rightarrow> http_response \<times> database \<times> Metrics" where
  "serve_http H r d m =
     (case serve_mux mux_patterns (rqMethod r) (rqPath r) of
        Matched handler vs \<Rightarrow> handler H r vs None d m
      | MethodNotAllowed \<Rightarrow> (\<lparr>rsStatus = StatusMethodNotAllowed, rsBody = PlainBody ''Method Not Allowed''\<rparr>, d, m)
      | NotFound \<Rightarrow> (\<lparr>rsStatus = StatusNotFound, rsBody = PlainBody ''404 page not found''\<rparr>, d, m))"

end
