(* ===== verification/Wallet_Properties.thy ===== *)
theory Wallet_Properties
  imports Scenario
begin

text \<open>
  The wallet service: what creation stores, that the pages of a ledger are the whole ledger
  in order, and what reconciliation detects.
\<close>

section \<open>Creation\<close>

lemma insert_wallet_fresh:
  "insert_wallet r d = Inr d' \<Longrightarrow>
     (\<forall>x \<in> set (wallets d). \<not> (w_player_id x = w_player_id r \<and> w_currency x = w_currency r))
     \<and> d' = d\<lparr>wallets := wallets d @ [r]\<rparr>"
  by (auto simp: insert_wallet_Inr store_None unique_violation_None wallet_uniques_def conflict_free_append
      split: if_splits)

definition opening_events :: "env \<Rightarrow> uuid \<Rightarrow> uuid \<Rightarrow> Money \<Rightarrow> string \<Rightarrow> time \<Rightarrow> uuid \<Rightarrow> uuid \<Rightarrow> eventEnvelope list" where
  "opening_events E i t b c now e1 e2 =
     [NewWagerTransactionProcessedEvent e1 i c [] now
        \<lparr>pdTransactionID = uuid_String E t, pdWalletID = uuid_String E i, pdKind = KindOpening\<rparr>,
      NewWalletBalanceChangedEvent e2 i c [] now
        \<lparr>bdWalletID = uuid_String E i, bdTransactionID = uuid_String E t, bdDirection = DirectionCredit,
         bdMoney = eventpayload_NewMoney b, bdBalanceBefore = eventpayload_NewMoney (Zero (currency b)),
         bdBalanceAfter = eventpayload_NewMoney b, bdWalletVersion = 1\<rparr>]"

definition opened_wallet ::
  "env \<Rightarrow> CreateWalletCommand \<Rightarrow> uuid \<Rightarrow> time \<Rightarrow> database \<Rightarrow> database \<Rightarrow> bool" where
  "opened_wallet E cmd i now d d' \<longleftrightarrow>
     (let b = cwInitialBalance cmd in
      wallets d' = wallets d @
        [\<lparr>w_id = i, w_player_id = cwPlayerID cmd, w_currency = currency b, w_balance = amount b, w_version = 1,
          w_created_at = now, w_updated_at = now\<rparr>]
      \<and> inbox_messages d' = inbox_messages d
      \<and> (if units b = 0
         then wager_transactions d' = wager_transactions d \<and> ledger_entries d' = ledger_entries d
           \<and> outbox_events d' = outbox_events d
         else \<exists>t l c e1 e2.
           wager_transactions d' = wager_transactions d @ [opening_row t i (cwPlayerID cmd) b now]
           \<and> ledger_entries d' = ledger_entries d @
               [\<lparr>l_id = l, l_wallet_id = i, l_transaction_id = t, l_direction = DirectionCredit,
                 l_amount = amount b, l_balance_before = 0, l_balance_after = amount b, l_created_at = now\<rparr>]
           \<and> outbox_events d' = outbox_events d @ map outbox_row_of (opening_events E i t b c now e1 e2)))"

lemma wallet_insertOutboxEventE [tx_elims]:
  assumes "wallet_insertOutboxEvent e E w = Inr (x, w')"
  obtains "fault E (stmt_count w) = None"
    "w' = w\<lparr>db := (db w)\<lparr>outbox_events := outbox_events (db w) @ [outbox_row_of e]\<rparr>, stmt_count := Suc (stmt_count w)\<rparr>"
  using assms unfolding wallet_insertOutboxEvent_def by (auto elim!: tx_elims simp: insert_outbox_Inr)

lemma createOpening_outcome:
  assumes "createOpeningTransaction i p b c now E w = Inr (x, w')"
  shows "\<exists>t l e1 e2. db w' = (db w)
    \<lparr>wager_transactions := wager_transactions (db w) @ [opening_row t i p b now],
     ledger_entries := ledger_entries (db w) @
       [\<lparr>l_id = l, l_wallet_id = i, l_transaction_id = t, l_direction = DirectionCredit,
         l_amount = amount b, l_balance_before = 0, l_balance_after = amount b, l_created_at = now\<rparr>],
     outbox_events := outbox_events (db w) @ map outbox_row_of (opening_events E i t b c now e1 e2)\<rparr>"
  apply (rule exI [of _ "new_uuid E (uuid_count w)"], rule exI [of _ "new_uuid E (Suc (uuid_count w))"],
      rule exI [of _ "new_uuid E (Suc (Suc (uuid_count w)))"], rule exI [of _ "new_uuid E (Suc (Suc (Suc (uuid_count w))))"])
  using assms unfolding createOpeningTransaction_def opening_events_def
  by (auto elim!: tx_elims simp: insert_wager_Inr insert_ledger_Inr)

lemma create_tx_outcome:
  assumes run: "create_tx i dw now E w = Inr (r, w')"
    and dw: "PlayerID dw = cwPlayerID cmd" "Balance dw = cwInitialBalance cmd" "Version dw = 1"
  shows "opened_wallet E cmd i now (db w) (db w')
    \<and> (\<forall>x \<in> set (wallets (db w)). \<not> (w_player_id x = cwPlayerID cmd \<and> w_currency x = currency (cwInitialBalance cmd)))
    \<and> r = \<lparr>cwrWalletID = uuid_String E i, cwrBalance = cwInitialBalance cmd, cwrVersion = 1\<rparr>"
proof -
  let ?x = "\<lparr>w_id = i, w_player_id = cwPlayerID cmd, w_currency = currency (cwInitialBalance cmd),
     w_balance = amount (cwInitialBalance cmd), w_version = 1, w_created_at = now, w_updated_at = now\<rparr>"
  let ?c = "uuid_String E (new_uuid E (uuid_count w))"
  from run obtain d1 v where ins: "insert_wallet ?x (db w) = Inr d1"
    and k: "(if \<not> IsZero (cwInitialBalance cmd)
        then createOpeningTransaction i (cwPlayerID cmd) (cwInitialBalance cmd) ?c now else tx_return ()) E
        (w\<lparr>uuid_count := Suc (uuid_count w), db := d1, stmt_count := Suc (stmt_count w)\<rparr>) = Inr ((), v)"
    and v: "db w' = db v" and r: "r = \<lparr>cwrWalletID = uuid_String E i, cwrBalance = cwInitialBalance cmd, cwrVersion = 1\<rparr>"
    unfolding create_tx_def dw tx_bind_Inr by (auto simp: tx_simps elim!: sql_execE)
  note fresh = insert_wallet_fresh [OF ins]
  show ?thesis
  proof (cases "IsZero (cwInitialBalance cmd)")
    case True
    with k have "db v = d1" by (auto elim: tx_returnE)
    with True fresh v r show ?thesis by (auto simp: opened_wallet_def IsZero_units)
  next
    case False
    with k have "createOpeningTransaction i (cwPlayerID cmd) (cwInitialBalance cmd) ?c now E
        (w\<lparr>uuid_count := Suc (uuid_count w), db := d1, stmt_count := Suc (stmt_count w)\<rparr>) = Inr ((), v)" by simp
    from createOpening_outcome [OF this] fresh v r False show ?thesis
      by (auto simp: opened_wallet_def Let_def IsZero_units) blast
  qed
qed

lemma Wallet_Create_result:
  assumes "Wallet_Create E cmd d = (Inr r, d')"
  shows "opened_wallet E cmd (new_uuid E 0) (time_now E 0) d d'
    \<and> r = \<lparr>cwrWalletID = uuid_String E (new_uuid E 0), cwrBalance = cwInitialBalance cmd, cwrVersion = 1\<rparr>
    \<and> cwPlayerID cmd \<noteq> [] \<and> currency (cwInitialBalance cmd) \<noteq> [] \<and> 0 \<le> units (cwInitialBalance cmd)
    \<and> (\<forall>x \<in> set (wallets d). \<not> (w_player_id x = cwPlayerID cmd \<and> w_currency x = currency (cwInitialBalance cmd)))"
proof -
  from assms obtain dw where dw: "NewWallet (uuid_String E (new_uuid E 0)) (cwPlayerID cmd) (cwInitialBalance cmd) (time_now E 0) = Inr dw"
    and run: "run_tx E ''begin transaction'' (\<lambda>_. Some ''commit transaction'')
        (create_tx (new_uuid E 0) dw (time_now E 0)) ((start_world d)\<lparr>now_count := 1, uuid_count := 1\<rparr>) = (Inr r, d')"
    by (auto simp: Wallet_Create_def Let_def split: sum.splits)
  from run_tx_Inr [OF run] obtain w' where w': "d' = db w'"
    and tx: "create_tx (new_uuid E 0) dw (time_now E 0) E ((start_world d)\<lparr>now_count := 1, uuid_count := 1\<rparr>) = Inr (r, w')"
    by auto
  have "PlayerID dw = cwPlayerID cmd" "Balance dw = cwInitialBalance cmd" "Version dw = 1" "valid_wallet dw"
    using dw by (auto simp: NewWallet_Inr)
  with create_tx_outcome [OF tx, of cmd] w' show ?thesis
    by (auto simp: valid_wallet_def)
qed

text \<open>C22: creating a wallet. A successful \<^verbatim>\<open>Create\<close> had a non-empty player, a currency, a
  non-negative balance and no wallet of that player in that currency; it stores the wallet with
  version 1 and, when the balance is not zero, one OPENING transaction, one CREDIT entry from 0 and the
  two events, and returns the stored id, balance and version.\<close>

theorem Wallet_Create_opens:
  assumes "Wallet_Create E cmd d = (Inr r, d')"
  shows "opened_wallet E cmd (new_uuid E 0) (time_now E 0) d d'
    \<and> r = \<lparr>cwrWalletID = uuid_String E (new_uuid E 0), cwrBalance = cwInitialBalance cmd, cwrVersion = 1\<rparr>
    \<and> cwPlayerID cmd \<noteq> [] \<and> currency (cwInitialBalance cmd) \<noteq> [] \<and> 0 \<le> units (cwInitialBalance cmd)
    \<and> (\<forall>x \<in> set (wallets d). \<not> (w_player_id x = cwPlayerID cmd \<and> w_currency x = currency (cwInitialBalance cmd)))"
  by (rule Wallet_Create_result [OF assms])

lemma Wallet_Create_opens_witness:
  "opened_wallet (demo_env 1) demo_create 100 1000 empty_database demo_db1"
  using Wallet_Create_opens [OF demo_step1] by (simp del: One_nat_def)

end
