(* ===== verification/Command_Properties.thy ===== *)
theory Command_Properties
  imports Scenario
begin

text \<open>
  What callers of \<^verbatim>\<open>Service.Process\<close> may rely on: the decision, exact replays, conflicts,
  atomicity and the counters. Each property is followed by a witness on the small history of
  \<open>Scenario\<close>.
\<close>

section \<open>The decision\<close>

lemma Service_Process_Inr:
  assumes "Service_Process E cmd w m = (Inr res, d', m')"
  obtains w' where "ProcessTx cmd E w = Inr (res, w')" "d' = db w'"
    "m' = ObserveProcessingDuration (elapsed E) (recordProcessResult res m)"
  using assms run_tx_Inr [of E "''begin transaction''" "\<lambda>_. Some ''commit wager transaction''" "ProcessTx cmd" w res]
  by (auto simp: Service_Process_def Let_def split: prod.splits sum.splits)

lemma ProcessTx_contract: "ProcessTx cmd E w = Inr r \<Longrightarrow> request_contract (cmdRequest cmd)"
  unfolding ProcessTx_def by (elim tx_bindE) (blast dest: process_begin_frame)

text \<open>C3: a wager command that succeeds met the contract of its kind and did exactly what the
  specification decides: it replayed the transaction stored under its provider and idempotency key,
  or, its external id being new and wallet, player and currency matching, it was stored as pending,
  refused with the failure code of \<open>verdict\<close>, or settled with the signed change of \<open>verdict\<close>, with
  the row, the balance, the ledger entry and the events of that outcome and nothing else. The counter
  of its outcome is incremented.\<close>

theorem Service_Process_decides:
  assumes "Service_Process E cmd w m = (Inr res, d', m')"
  shows "request_contract (cmdRequest cmd) \<and> command_result E cmd (db w) res d'
    \<and> m' = ObserveProcessingDuration (elapsed E) (recordProcessResult res m)"
  using assms by (elim Service_Process_Inr) (auto intro: ProcessTx_contract ProcessTx_result)

lemma Service_Process_decides_witness:
  "command_result (demo_env 3) demo_bet demo_db2 (demo_result 3 WagerStateProcessed 2000) demo_db3"
  using Service_Process_decides [OF demo_step3] by simp

section \<open>Retries\<close>

lemma Service_Process_retry:
  assumes first: "Service_Process E cmd w m = (Inr res, d', m')"
    and later: "extends_history d' d2" "schema_ok d2"
    and again: "cmdRequest cmd2 = cmdRequest cmd" "cmdIdempotencyKey cmd2 = cmdIdempotencyKey cmd"
    and env: "uuid_String E2 = uuid_String E" "begin_fault E2 = None" "commit_fault E2 = None" "fault E2 0 = None"
  shows "\<exists>res2. Service_Process E2 cmd2 (start_world d2) m2 =
      (Inr res2, d2, ObserveProcessingDuration (elapsed E2) (IncIdempotentReplays m2))
    \<and> same_answer res res2"
proof -
  from first obtain w' where run: "ProcessTx cmd E w = Inr (res, w')" and d': "d' = db w'"
    by (elim Service_Process_Inr)
  have contract: "request_contract (cmdRequest cmd2)" "cmdIdempotencyKey cmd2 \<noteq> []"
    using ProcessTx_contract [OF run] run again
    by (auto simp: ProcessTx_def process_begin_def elim!: tx_bindE tx_failE split: option.splits if_splits)
  from recorded_later [OF command_result_recorded [OF ProcessTx_result [OF run]] later [unfolded d'] again env(1)]
  obtain r2 res2 where st: "stored_for cmd2 (db (start_world d2)) = Some r2"
    and rep: "replay_of E2 (PayloadHash (cmdRequest cmd2)) r2 = Inr res2" and same: "same_answer res res2"
    by auto
  have "fault E2 (stmt_count (start_world d2)) = None" using env(4) by (simp add: start_world_def)
  from process_begin_stored [OF st contract this] rep
  have "\<exists>w2. ProcessTx cmd2 E2 (start_world d2) = Inr (res2, w2) \<and> db w2 = d2"
    by (simp add: ProcessTx_def tx_simps)
  with same env show ?thesis
    by (auto simp: Service_Process_def run_tx_def recordProcessResult_def same_answer_def)
qed

text \<open>C5: a retry is idempotent. After a command succeeded, the same request under the same
  idempotency key, sent again when the database has grown in any way operations can grow it, writes
  nothing, returns the same transaction id and is marked as a replay; once the transaction is no
  longer pending, state, balance and failure code are those of the first answer.\<close>

theorem retry_is_idempotent:
  assumes first: "Service_Process E cmd w m = (Inr res, d', m')"
    and later: "extends_history d' d2" "schema_ok d2"
    and again: "cmdRequest cmd2 = cmdRequest cmd" "cmdIdempotencyKey cmd2 = cmdIdempotencyKey cmd"
    and env: "uuid_String E2 = uuid_String E" "begin_fault E2 = None" "commit_fault E2 = None" "fault E2 0 = None"
  shows "\<exists>res2. Service_Process E2 cmd2 (start_world d2) m2 =
      (Inr res2, d2, ObserveProcessingDuration (elapsed E2) (IncIdempotentReplays m2))
    \<and> same_answer res res2"
  by (rule Service_Process_retry [OF assms])

lemma retry_is_idempotent_witness:
  "\<exists>res2. Service_Process (demo_env 5) demo_win (start_world demo_db4) NewMetrics =
      (Inr res2, demo_db4, ObserveProcessingDuration 5 (IncIdempotentReplays NewMetrics))
    \<and> same_answer (demo_result 2 WagerStateProcessed 5000) res2"
  using retry_is_idempotent [OF demo_step2 demo_history demo_schema(2), of demo_win "demo_env 5" NewMetrics]
  by (simp add: demo_env_def)

section \<open>Conflicts and duplicates\<close>

text \<open>C18: reusing an idempotency key for a different request is refused with
  \<^verbatim>\<open>ErrIdempotencyConflict\<close> and changes nothing.\<close>

theorem key_reuse_conflicts:
  assumes "stored_for cmd (db w) = Some r" "t_payload_hash r = Some h" "h \<noteq> PayloadHash (cmdRequest cmd)"
    and "request_contract (cmdRequest cmd)" "cmdIdempotencyKey cmd \<noteq> []"
    and "begin_fault E = None" "fault E (stmt_count w) = None"
  shows "Service_Process E cmd w m =
     (Inl (Sentinel ErrIdempotencyConflict), db w, ObserveProcessingDuration (elapsed E) m)"
proof -
  have "replay_of E (PayloadHash (cmdRequest cmd)) r = Inl (Sentinel ErrIdempotencyConflict)"
    using assms(2,3) by (simp add: replay_of_def)
  with process_begin_stored [OF assms(1,4,5,7)] have "ProcessTx cmd E w = Inl (Sentinel ErrIdempotencyConflict)"
    by (simp add: ProcessTx_def tx_simps)
  with assms(6) show ?thesis
    by (simp add: Service_Process_def run_tx_def recordConcurrencyConflict_def)
qed

lemma key_reuse_conflicts_witness:
  "Service_Process (demo_env 5) demo_bet (start_world
       (demo_db3\<lparr>wager_transactions := [(demo_row 3 demo_bet WagerStateProcessed 2000)\<lparr>t_payload_hash := Some ''x''\<rparr>]\<rparr>)) NewMetrics =
     (Inl (Sentinel ErrIdempotencyConflict),
      demo_db3\<lparr>wager_transactions := [(demo_row 3 demo_bet WagerStateProcessed 2000)\<lparr>t_payload_hash := Some ''x''\<rparr>]\<rparr>,
      ObserveProcessingDuration 5 NewMetrics)"
proof -
  have "''x'' \<noteq> PayloadHash r" for r
  proof
    assume "''x'' = PayloadHash r"
    from arg_cong [OF this, of length] show False by simp
  qed
  then show ?thesis
    using key_reuse_conflicts [of demo_bet "start_world (demo_db3\<lparr>wager_transactions :=
        [(demo_row 3 demo_bet WagerStateProcessed 2000)\<lparr>t_payload_hash := Some ''x''\<rparr>]\<rparr>)"
        "(demo_row 3 demo_bet WagerStateProcessed 2000)\<lparr>t_payload_hash := Some ''x''\<rparr>" "''x''" "demo_env 5" NewMetrics]
    by (simp add: stored_for_def idempotency_identity_def demo_bet_def demo_command_def demo_request_def demo_row_def
        command_row_def request_contract_def NewMoney_def units_def)
qed

text \<open>C13: an external transaction id takes effect at most once. A command whose provider already has
  a transaction with its external id never writes: it can succeed only as the replay of the
  transaction stored under its idempotency key.\<close>

theorem external_id_once:
  assumes "Service_Process E cmd w m = (Inr res, d', m')" "known_external (cmdRequest cmd) (db w)"
  shows "d' = db w \<and> resIdempotentReplay res
    \<and> (\<exists>r. stored_for cmd (db w) = Some r \<and> resTransactionID res = uuid_String E (t_id r))"
proof -
  from assms(1) obtain w' where "ProcessTx cmd E w = Inr (res, w')" "d' = db w'"
    by (elim Service_Process_Inr)
  with ProcessTx_result [of cmd E w res w'] assms(2) show ?thesis
    by (auto simp: command_result_def new_decision_def replay_of_Inr replay_result_def split: option.splits)
qed

lemma demo_replay:
  "Service_Process (demo_env 5) demo_bet (start_world demo_db3) m =
     (Inr ((demo_result 3 WagerStateProcessed 2000)\<lparr>resIdempotentReplay := True\<rparr>), demo_db3,
      ObserveProcessingDuration 5 (IncIdempotentReplays m))"
  by (simp add: process_evals demo_rows demo_result_def table_evals tx_evals wallet_evals replay_of_def)

lemma external_id_once_witness:
  "resIdempotentReplay ((demo_result 3 WagerStateProcessed 2000)\<lparr>resIdempotentReplay := True\<rparr>)
   \<and> (\<exists>r. stored_for demo_bet demo_db3 = Some r)"
proof -
  have "known_external (cmdRequest demo_bet) demo_db3"
    by (simp add: known_external_def external_identity_def demo_rows command_row_def)
  with external_id_once [OF demo_replay] show ?thesis by auto
qed

end
