(* ===== verification/Http_Effects.thy ===== *)
theory Http_Effects
  imports Http_Server Idempotency Wallet_Properties Command_Properties
begin

text \<open>
  What a request can do: only two endpoints reach an operation that writes, each behind its guard.
  The lemmas reduce \<open>serve_http\<close> to the operation it runs, for the properties of the API.
\<close>

section \<open>Programs that only read\<close>

interpretation unchanged: tx_relation "\<lambda>d d'. d' = d"
  by unfold_locales simp_all

lemma reconcile_tx_reads: "keeps (\<lambda>d d'. d' = d) (reconcile_tx i)"
  unfolding reconcile_tx_def loadReconciliationWallet_def loadReconciliationLedger_def
  by (intro unchanged.keeps_intros)

lemma Wallet_Reconcile_db: "Wallet_Reconcile E i d m = (res, d', m') \<Longrightarrow> d' = d"
  by (auto simp: Wallet_Reconcile_def split: option.splits prod.splits sum.splits
      dest: unchanged.run_tx_RD [OF _ reconcile_tx_reads])

section \<open>Requests\<close>

text \<open>The endpoint of a request, the operation behind it, and its guard.\<close>

definition create_endpoint :: "http_request \<Rightarrow> bool" where
  "create_endpoint r \<longleftrightarrow> rqMethod r = ''POST'' \<and> rqPath r = [''wallets'']"

definition process_endpoint :: "http_request \<Rightarrow> bool" where
  "process_endpoint r \<longleftrightarrow> rqMethod r = ''POST'' \<and> rqPath r = [''wagering'', ''transactions'']"

lemma match_path_Nil: "match_path [] path = Some vs \<longleftrightarrow> path = [] \<and> vs = []"
  by (cases path) auto

lemma match_path_Lit: "match_path (Lit l # ps) path = Some vs \<longleftrightarrow> (\<exists>ss. path = l # ss \<and> match_path ps ss = Some vs)"
  by (cases path) auto

lemma guarded_handlers:
  "Authenticate (InternalOnly next_handler) H r vs q d m = (res, d', m') \<Longrightarrow>
     (d' = d \<and> m' = m \<and> (res = unauthorized \<or> res = forbidden) \<and> \<not> internal_request H r) \<or>
     (internal_request H r \<and> next_handler H r vs (Some \<lparr>ClientID = internalClientID\<rparr>) d m = (res, d', m'))"
  "Authenticate (ProviderOnly next_handler) H r vs q d m = (res, d', m') \<Longrightarrow>
     (d' = d \<and> m' = m \<and> (res = unauthorized \<or> res = forbidden) \<and> (\<nexists>p. provider_request H r p)) \<or>
     (\<exists>p. provider_request H r p \<and> next_handler H r vs (Some \<lparr>ClientID = p\<rparr>) d m = (res, d', m'))"
  by (cases rule: internal_guard [of H r next_handler vs q d m]; auto)
    (cases rule: provider_guard [of H r next_handler vs q d m]; auto)

text \<open>A request that no handler answers, or that a guard refuses.\<close>

definition refused :: "http_response \<Rightarrow> bool" where
  "refused res \<longleftrightarrow> rsStatus res \<in> {StatusUnauthorized, StatusForbidden, StatusNotFound, StatusMethodNotAllowed}"

lemma refusals [simp]: "refused unauthorized" "refused forbidden"
  by (simp_all add: refused_def unauthorized_def forbidden_def writeJSON_def)

lemma mux_members:
  assumes "(verb, ps, h) \<in> set mux_patterns"
  obtains (create) "verb = ''POST''" "ps = [Lit ''wallets'']" "h = Authenticate (InternalOnly WalletHandler_Create)"
  | (internal) handler where "handler \<in> {WalletHandler_Get, WalletHandler_Ledger, WalletHandler_Reconcile}"
      "h = Authenticate (InternalOnly handler)"
  | (process) "verb = ''POST''" "ps = [Lit ''wagering'', Lit ''transactions'']"
      "h = Authenticate (ProviderOnly WagerHandler_Process)"
  | (provider) handler where "handler \<in> {WagerHandler_Get, WagerHandler_GetByExternalTransactionID}"
      "h = Authenticate (ProviderOnly handler)"
  | (open_endpoint) "ps \<in> {[Lit ''health'', Lit ''live''], [Lit ''health'', Lit ''ready''], [Lit ''metrics'']}"
      "h \<in> {HealthHandler_Live, HealthHandler_Ready, MetricsHandler_ServeHTTP}"
proof -
  from assms show thesis
    unfolding mux_patterns_def set_simps insert_iff prod.inject empty_iff
    apply (elim disjE conjE FalseE)
    subgoal by (rule that(1))
    subgoal by (rule that(2) [of WalletHandler_Get]) simp_all
    subgoal by (rule that(2) [of WalletHandler_Ledger]) simp_all
    subgoal by (rule that(2) [of WalletHandler_Reconcile]) simp_all
    subgoal by (rule that(3))
    subgoal by (rule that(4) [of WagerHandler_Get]) simp_all
    subgoal by (rule that(4) [of WagerHandler_GetByExternalTransactionID]) simp_all
    by (rule that(5); simp)+
qed

text \<open>The handler of a matched request runs for the right client, or the request is refused.\<close>

lemma matched_cases:
  assumes mem: "(verb, ps, h) \<in> set mux_patterns" and run: "h H r vs None d m = (res, d', m')"
  obtains (refusal) "d' = d" "m' = m" "refused res"
  | (create) "verb = ''POST''" "ps = [Lit ''wallets'']" "internal_request H r"
      "WalletHandler_Create H r vs (Some \<lparr>ClientID = internalClientID\<rparr>) d m = (res, d', m')"
  | (internal) handler where "handler \<in> {WalletHandler_Get, WalletHandler_Ledger, WalletHandler_Reconcile}"
      "internal_request H r" "handler H r vs (Some \<lparr>ClientID = internalClientID\<rparr>) d m = (res, d', m')"
  | (process) p where "verb = ''POST''" "ps = [Lit ''wagering'', Lit ''transactions'']" "provider_request H r p"
      "WagerHandler_Process H r vs (Some \<lparr>ClientID = p\<rparr>) d m = (res, d', m')"
  | (provider) handler p where "handler \<in> {WagerHandler_Get, WagerHandler_GetByExternalTransactionID}"
      "provider_request H r p" "handler H r vs (Some \<lparr>ClientID = p\<rparr>) d m = (res, d', m')"
  | (open_endpoint) "ps \<in> {[Lit ''health'', Lit ''live''], [Lit ''health'', Lit ''ready''], [Lit ''metrics'']}"
      "d' = d" "m' = m"
  using mem
proof (cases rule: mux_members)
  case create
  with guarded_handlers(1) [OF run [unfolded create(3)]] that(1,2) show thesis by (metis refusals)
next
  case (internal handler)
  with guarded_handlers(1) [OF run [unfolded internal(2)]] that(1,3) show thesis by (metis refusals)
next
  case process
  with guarded_handlers(2) [OF run [unfolded process(3)]] that(1,4) show thesis by (metis refusals)
next
  case (provider handler)
  with guarded_handlers(2) [OF run [unfolded provider(2)]] that(1,5) show thesis by (metis refusals)
next
  case open_endpoint
  with run that(6) show thesis
    by (auto simp: HealthHandler_Live_def HealthHandler_Ready_def MetricsHandler_ServeHTTP_def Let_def)
qed

section \<open>Effects\<close>

lemma serve_http_cases:
  assumes "serve_http H r d m = (res, d', m')"
  obtains (nobody) "d' = d" "m' = m" "refused res"
  | (matched) verb ps h vs where "(verb, ps, h) \<in> set mux_patterns" "match_method verb (rqMethod r)"
      "match_path ps (rqPath r) = Some vs" "h H r vs None d m = (res, d', m')"
proof (cases "serve_mux mux_patterns (rqMethod r) (rqPath r)")
  case (Matched h vs)
  with serve_mux_Matched [OF Matched] assms that(2) show thesis by (auto simp: serve_http_def)
qed (use assms that(1) in \<open>auto simp: serve_http_def refused_def\<close>)

lemma readers_keep_database:
  "handler \<in> {WalletHandler_Get, WalletHandler_Ledger, WalletHandler_Reconcile, WagerHandler_Get,
     WagerHandler_GetByExternalTransactionID} \<Longrightarrow> handler H r vs p d m = (res, d', m') \<Longrightarrow> d' = d"
  by (auto simp: WalletHandler_Get_def WalletHandler_Ledger_def WalletHandler_Reconcile_def WagerHandler_Get_def
      WagerHandler_GetByExternalTransactionID_def Wallet_Reconcile_db split: option.splits prod.splits sum.splits if_splits)

definition wager_answer :: "ProcessResult result \<Rightarrow> http_response" where
  "wager_answer x = (case x of Inl err \<Rightarrow> writeWagerError err | Inr result \<Rightarrow> process_response result)"

lemma WagerHandler_Process_cases:
  assumes "WagerHandler_Process H r vs (Some \<lparr>ClientID = p\<rparr>) d m = (res, d', m')"
  obtains (invalid) "wager_checks_request H \<lparr>ClientID = p\<rparr> r = Inl res" "d' = d" "m' = m"
  | (valid) cmd x where "wager_checks_request H \<lparr>ClientID = p\<rparr> r = Inr cmd"
      "Service_Process (hService H) cmd (start_world d) m = (x, d', m')" "res = wager_answer x"
  using assms by (auto simp: WagerHandler_Process_def wager_answer_def split: sum.splits prod.splits)

lemma serve_http_effect:
  assumes "serve_http H r d m = (res, d', m')"
  obtains (silent) "d' = d"
  | (create) cmd x where "internal_request H r" "create_endpoint r" "create_checks_request r = Inr cmd"
      "Wallet_Create (hService H) cmd d = (x, d')" "res = create_response (cwPlayerID cmd) x"
  | (process) p cmd x where "provider_request H r p" "process_endpoint r"
      "wager_checks_request H \<lparr>ClientID = p\<rparr> r = Inr cmd"
      "Service_Process (hService H) cmd (start_world d) m = (x, d', m')" "res = wager_answer x"
  using assms
proof (cases rule: serve_http_cases)
  case nobody
  with that(1) show thesis by simp
next
  case (matched verb ps h vs)
  from matched(1,4) show thesis
  proof (cases rule: matched_cases)
    case create
    have "create_endpoint r"
      using create(1,2) matched(2,3) by (auto simp: create_endpoint_def match_method_def match_path_Nil match_path_Lit)
    with create(3,4) that(1,2) show thesis
      by (auto simp: WalletHandler_Create_def split: sum.splits prod.splits)
  next
    case (process p)
    have e: "process_endpoint r"
      using process(1,2) matched(2,3) by (auto simp: process_endpoint_def match_method_def match_path_Nil match_path_Lit)
    from process(4) show thesis
    proof (cases rule: WagerHandler_Process_cases)
      case invalid
      with that(1) show thesis by simp
    next
      case (valid cmd x)
      with that(3) process(3) e show thesis by blast
    qed
  next
    case (internal handler)
    with readers_keep_database [of handler] that(1) show thesis by blast
  next
    case (provider handler p)
    with readers_keep_database [of handler] that(1) show thesis by blast
  qed (use that(1) in simp_all)
qed

text \<open>A request that meets its route and guard runs its handler.\<close>

lemma serve_process:
  assumes "process_endpoint r" "provider_request H r p"
  shows "serve_http H r d m = WagerHandler_Process H r [] (Some \<lparr>ClientID = p\<rparr>) d m"
proof -
  have "serve_http H r d m = Authenticate (ProviderOnly WagerHandler_Process) H r [] None d m"
    using assms(1) by (simp add: process_endpoint_def serve_http_def serve_mux_def mux_patterns_def match_method_def)
  with assms(2) show ?thesis
    by (simp add: Authenticate_def ProviderOnly_def provider_request_def isAllowedClient_def)
qed

lemma serve_create:
  assumes "create_endpoint r" "internal_request H r"
  shows "serve_http H r d m = WalletHandler_Create H r [] (Some \<lparr>ClientID = internalClientID\<rparr>) d m"
proof -
  have "serve_http H r d m = Authenticate (InternalOnly WalletHandler_Create) H r [] None d m"
    using assms(1) by (simp add: create_endpoint_def serve_http_def serve_mux_def mux_patterns_def match_method_def)
  with assms(2) show ?thesis
    by (simp add: Authenticate_def InternalOnly_def internal_request_def isAllowedClient_def)
qed

end
