(* ===== verification/Http_Scenario.thy ===== *)
theory Http_Scenario
  imports Http_Effects Consumer_Properties
begin

text \<open>
  Requests of a small history, evaluated by the simplifier: the internal client creates a wallet,
  \<^verbatim>\<open>provider-a\<close> wins 50.00 on it. The witnesses of the properties of the API use them.
\<close>

definition demo_claims :: "string \<Rightarrow> string option" where
  "demo_claims token =
     (if token = ''a'' then Some (print (PObject [(''azp'', PString ''provider-a'')]))
      else if token = ''i'' then Some (print (PObject [(''client_id'', PString ''wagering-internal'')])) else None)"

definition demo_http :: "nat \<Rightarrow> http_env" where
  "demo_http k = \<lparr>hService = demo_env k, hVerify = demo_claims, hNewID = 7, hPostgres = True, hSQS = True\<rparr>"

definition demo_headers :: "string \<Rightarrow> string \<Rightarrow> string \<Rightarrow> string" where
  "demo_headers token key name =
     (if name = ''Authorization'' then ''Bearer '' @ token else if name = ''Idempotency-Key'' then key else [])"

definition demo_create_request :: http_request where
  "demo_create_request =
     \<lparr>rqMethod = ''POST'', rqPath = [''wallets''], rqHeader = demo_headers ''i'' [], rqQuery = (\<lambda>_. []),
      rqBody = print (PObject [(''playerId'', PString ''a''),
        (''initialBalance'', PObject [(''amount'', PString ''0.00''), (''currency'', PString ''BRL'')])])\<rparr>"

definition demo_win_request :: http_request where
  "demo_win_request =
     \<lparr>rqMethod = ''POST'', rqPath = [''wagering'', ''transactions''], rqHeader = demo_headers ''a'' ''w'', rqQuery = (\<lambda>_. []),
      rqBody = print (PObject
        [(''providerId'', PString ''provider-a''), (''externalTransactionId'', PString ''w''), (''playerId'', PString ''a''),
         (''walletId'', PString ''100''), (''roundId'', PString ''r''), (''gameId'', PString ''g''), (''kind'', PString ''WIN''),
         (''money'', PObject [(''amount'', PString ''50.00''), (''currency'', PString ''BRL'')])])\<rparr>"

lemma demo_http_simps [simp]: "hService (demo_http k) = demo_env k" "hVerify (demo_http k) = demo_claims"
  "hNewID (demo_http k) = 7"
  by (simp_all add: demo_http_def)

lemma demo_uuid_texts: "uuid_String (demo_env k) = (\<lambda>u. show_nat (unat u))"
  by (rule ext) simp

lemma trim_plain: "prefix_size space_texts s = 0 \<Longrightarrow> prefix_size (map rev space_texts) (rev s) = 0 \<Longrightarrow> strings_TrimSpace s = s"
  by (simp add: strings_TrimSpace_def trim_left.simps Let_def)

lemma demo_tokens: "strings_TrimSpace ''a'' = ''a''" "strings_TrimSpace ''i'' = ''i''" "strings_TrimSpace ''w'' = ''w''"
  by (rule trim_plain; simp add: prefix_size_def space_texts_def)+

lemma bearer_demo:
  "strings_TrimSpace token = token \<Longrightarrow> token \<noteq> [] \<Longrightarrow> rqHeader r = demo_headers token key \<Longrightarrow> bearerToken r = Some token"
  by (simp add: bearerToken_def demo_headers_def strings_Cut_def equal_fold_def)

lemma demo_clients:
  "rqHeader r = demo_headers ''a'' key \<Longrightarrow> authenticated_client (demo_http k) r = Some ''provider-a''"
  "rqHeader r = demo_headers ''i'' key \<Longrightarrow> authenticated_client (demo_http k) r = Some ''wagering-internal''"
  using bearer_demo [OF demo_tokens(1), of r key] bearer_demo [OF demo_tokens(2), of r key]
  by (simp_all add: authenticated_client_def demo_claims_def claims_fields_def decode_evals
      del: print.simps json_escape.simps unquote.simps)

lemma demo_create_checked:
  "create_checks_request demo_create_request = Inr demo_create"
proof -
  have "money_text ''0.00'' ''0'' ''00''" by (simp add: money_text_def allDigits_def digit_eval)
  from ParseMoney_text [OF this, of BRL] have "ParseMoney ''0.00'' ''BRL'' = Inr (NewMoney 0 BRL)"
    by (simp add: read_nat_def digit_eval BRL_def)
  moreover have "Decode createWalletRequest_fields (rqBody demo_create_request) zero_createWalletRequest =
      Some \<lparr>cqPlayerID = ''a'', cqInitialBalance = \<lparr>mdAmount = ''0.00'', mdCurrency = ''BRL''\<rparr>\<rparr>"
    using parse_first_print [of _ "[]"]
    by (simp add: demo_create_request_def Decode_def decoded_def createWalletRequest_fields_def moneyDTO_fields_def
        zero_createWalletRequest_def zero_moneyDTO_def decode_evals del: print.simps json_escape.simps unquote.simps)
  ultimately show ?thesis
    by (simp add: create_checks_request_def demo_create_def BRL_def)
qed

definition demo_a_win :: ProcessCommand where
  "demo_a_win =
     \<lparr>cmdIdempotencyKey = ''w'', cmdCorrelationID = ''7'', cmdCausationID = [],
      cmdRequest =
        \<lparr>reqProviderID = ''provider-a'', reqExternalTransactionID = ''w'', reqPlayerID = ''a'', reqWalletID = ''100'',
         reqRoundID = ''r'', reqGameID = ''g'', reqKind = WagerKindWin, reqAmount = NewMoney 5000 BRL,
         reqReferenceExternalTransactionID = []\<rparr>\<rparr>"

lemma demo_win_checked:
  "wager_checks_request (demo_http k) \<lparr>ClientID = ''provider-a''\<rparr> demo_win_request = Inr demo_a_win"
proof -
  have "money_text ''50.00'' ''50'' ''00''" by (simp add: money_text_def allDigits_def digit_eval)
  from ParseMoney_text [OF this, of BRL] have "ParseMoney ''50.00'' ''BRL'' = Inr (NewMoney 5000 BRL)"
    by (simp add: read_nat_def digit_eval BRL_def)
  moreover have "Decode processWagerRequest_fields (rqBody demo_win_request) zero_processWagerRequest =
      Some \<lparr>pqProviderID = ''provider-a'', pqExternalTransactionID = ''w'', pqPlayerID = ''a'', pqWalletID = ''100'',
        pqRoundID = ''r'', pqGameID = ''g'', pqKind = ''WIN'', pqMoney = \<lparr>mdAmount = ''50.00'', mdCurrency = ''BRL''\<rparr>,
        pqReferenceExternalTransactionID = []\<rparr>"
    using parse_first_print [of _ "[]"]
    by (simp add: demo_win_request_def Decode_def decoded_def processWagerRequest_fields_def moneyDTO_fields_def
        zero_processWagerRequest_def zero_moneyDTO_def decode_evals del: print.simps json_escape.simps unquote.simps)
  moreover have "show_nat 7 = ''7''" by code_simp
  moreover have "rqHeader demo_win_request ''Idempotency-Key'' = ''w''"
    by (simp add: demo_win_request_def demo_headers_def)
  ultimately show ?thesis
    by (simp add: wager_checks_request_def missing_field_def wager_command_def demo_a_win_def Let_def
        demo_tokens BRL_def WagerKindWin_def)
qed

lemma demo_win_run:
  "\<exists>res d' m'. Service_Process (demo_env 2) demo_a_win (start_world demo_db1) m = (Inr res, d', m')
     \<and> \<not> resIdempotentReplay res \<and> inbox_messages d' = []"
  by (simp add: process_evals demo_rows demo_a_win_def table_evals tx_evals wallet_evals)

lemma demo_requests: "create_endpoint demo_create_request" "process_endpoint demo_win_request"
  "internal_request (demo_http k) demo_create_request" "provider_request (demo_http k) demo_win_request ''provider-a''"
  by (simp_all add: demo_create_request_def demo_win_request_def create_endpoint_def process_endpoint_def internal_request_def
      provider_request_def demo_clients internalClientID_def allowedProviderClients_def del: print.simps)

lemma demo_serve_create:
  "serve_http (demo_http 1) demo_create_request empty_database m =
     (\<lparr>rsStatus = 201, rsBody = WalletBody \<lparr>waID = ''100'', waPlayerID = ''a'', waBalance = money_dto (NewMoney 0 BRL),
        waVersion = 1\<rparr>\<rparr>, demo_db1, m)"
proof -
  have "cwPlayerID demo_create = ''a''" by (simp add: demo_create_def)
  then show ?thesis
    by (simp add: serve_create demo_requests WalletHandler_Create_def demo_create_checked demo_step1
        create_response_def writeJSON_def statuses del: One_nat_def)
qed

lemma demo_serve_win:
  obtains b result d' m' where
    "serve_http (demo_http 2) demo_win_request demo_db1 m = (\<lparr>rsStatus = 201, rsBody = ProcessBody b\<rparr>, d', m')"
    "Service_Process (demo_env 2) demo_a_win (start_world demo_db1) m = (Inr result, d', m')" "\<not> resIdempotentReplay result"
    "inbox_messages d' = []"
proof -
  from demo_win_run [of m] obtain res d' m' where
    run: "Service_Process (demo_env 2) demo_a_win (start_world demo_db1) m = (Inr res, d', m')"
      "\<not> resIdempotentReplay res" "inbox_messages d' = []" by blast
  then have "serve_http (demo_http 2) demo_win_request demo_db1 m = (process_response res, d', m')"
    by (simp add: serve_process [OF demo_requests(2,4)] WagerHandler_Process_def demo_win_checked)
  with run that show thesis by (simp add: process_response_def writeJSON_def statuses)
qed

lemma demo_db1_ok: "schema_ok demo_db1"
proof -
  have "reachable (demo_system demo_db1)"
    by (rule reachable_in.step [OF reachable_in.initial demo_steps(1)])
  then show ?thesis using reachable_inv by (fastforce simp: sys_inv_def)
qed

lemma demo_win_ok:
  "Service_Process (demo_env 2) demo_a_win (start_world demo_db1) m = (x, d', m') \<Longrightarrow> schema_ok d'"
  using schema.Service_Process_R [of "start_world demo_db1" "demo_env 2" demo_a_win m] demo_db1_ok demo_laws
  by (simp add: keeps_schema_def)

end
