(* ===== verification/Http_Properties.thy ===== *)
theory Http_Properties
  imports Http_Scenario
begin

text \<open>
  What clients of the HTTP API may rely on: who can write and read what, what the status codes of
  a wager command mean for the database, that a retried request is answered from the stored
  transaction, and that a created wallet can be read.
\<close>

section \<open>Writes\<close>

text \<open>What a new transaction of a command is, whatever its outcome.\<close>

definition new_row :: "env \<Rightarrow> ProcessCommand \<Rightarrow> ProcessResult \<Rightarrow> wager_row \<Rightarrow> bool" where
  "new_row E cmd res r \<longleftrightarrow>
     t_provider_id r = Some (reqProviderID (cmdRequest cmd))
     \<and> t_external_transaction_id r = Some (reqExternalTransactionID (cmdRequest cmd))
     \<and> t_idempotency_key r = Some (cmdIdempotencyKey cmd)
     \<and> t_payload_hash r = Some (PayloadHash (cmdRequest cmd))
     \<and> t_kind r = reqKind (cmdRequest cmd) \<and> t_amount r = amount (reqAmount (cmdRequest cmd))
     \<and> resTransactionID res = uuid_String E (t_id r) \<and> resState res = t_state r
     \<and> resFailureCode res = coalesce (t_failure_code r)
     \<and> t_result_balance r = Some (amount (resBalance res)) \<and> \<not> resIdempotentReplay res"

lemma decided_new_row:
  assumes "decided E c (PayloadHash (cmdRequest c)) wallet v d res d'"
  shows "\<exists>r. wager_transactions d' = wager_transactions d @ [r] \<and> new_row E c res r"
proof (cases v)
  case Await
  with assms show ?thesis by (auto simp: decided_def pending_outcome_def new_row_def coalesce_def)
next
  case (Refuse f ref)
  with assms show ?thesis by (auto simp: decided_def rejected_outcome_def new_row_def coalesce_def)
next
  case (Settle ref delta)
  with assms show ?thesis by (auto simp: decided_def processed_outcome_def new_row_def coalesce_def Let_def)
qed

lemma command_rows:
  assumes "command_result E cmd d res d'"
  shows "(resIdempotentReplay res \<and> d' = d \<and> (\<exists>r. stored_for cmd d = Some r
        \<and> t_payload_hash r = Some (PayloadHash (cmdRequest cmd)) \<and> res = replay_result E r))
     \<or> (stored_for cmd d = None
        \<and> (\<exists>r. wager_transactions d' = wager_transactions d @ [r] \<and> new_row E cmd res r))"
proof (cases "stored_for cmd d")
  case (Some r)
  with assms show ?thesis by (auto simp: command_result_def replay_of_Inr replay_result_def)
next
  case None
  with assms obtain wallet c where "correlated E cmd c"
      "decided E c (PayloadHash (cmdRequest cmd)) wallet (verdict E (cmdRequest cmd) (Balance wallet) d) d res d'"
    by (auto simp: command_result_def new_decision_def)
  with decided_new_row [of E c wallet "verdict E (cmdRequest cmd) (Balance wallet) d" d res d'] correlated_simps [of E cmd c]
  have "\<exists>r. wager_transactions d' = wager_transactions d @ [r] \<and> new_row E c res r" "\<And>r. new_row E c res r \<longleftrightarrow> new_row E cmd res r"
    by (simp_all add: new_row_def)
  with None show ?thesis by auto
qed

lemma Service_Process_db:
  assumes "Service_Process E cmd w m = (x, d', m')"
  shows "d' = db w \<or> (\<exists>res. command_result E cmd (db w) res d')"
  using assms run_tx_db [of E "''begin transaction''" "\<lambda>_. Some ''commit wager transaction''" "ProcessTx cmd" w]
  by (auto simp: Service_Process_def Let_def split: prod.splits dest: ProcessTx_result)

lemma Service_Process_own_rows:
  assumes "Service_Process E cmd w m = (x, d', m')" "q \<noteq> reqProviderID (cmdRequest cmd)"
  shows "own_rows q d' = own_rows q (db w)"
  using Service_Process_db [OF assms(1)] assms(2)
  by (auto dest!: command_rows simp: own_rows_def new_row_def)

lemma Wallet_Create_db:
  assumes "Wallet_Create E cmd d = (x, d')"
  shows "d' = d \<or> opened_wallet E cmd (new_uuid E 0) (time_now E 0) d d'"
proof (cases "NewWallet (uuid_String E (new_uuid E 0)) (cwPlayerID cmd) (cwInitialBalance cmd) (time_now E 0)")
  case (Inl e)
  with assms show ?thesis by (simp add: Wallet_Create_def Let_def)
next
  case (Inr dw)
  let ?w = "(start_world d)\<lparr>now_count := 1, uuid_count := 1\<rparr>"
  have dw: "PlayerID dw = cwPlayerID cmd" "Balance dw = cwInitialBalance cmd" "Version dw = 1"
    using Inr by (auto simp: NewWallet_Inr)
  show ?thesis
    using run_tx_db [of E "''begin transaction''" "\<lambda>_. Some ''commit transaction''"
        "create_tx (new_uuid E 0) dw (time_now E 0)" ?w] assms
    by (auto simp: Wallet_Create_def Let_def Inr dest!: create_tx_outcome [OF _ dw])
qed

lemma Wallet_Create_own_rows: "Wallet_Create E cmd d = (x, d') \<Longrightarrow> own_rows q d' = own_rows q d"
  by (drule Wallet_Create_db) (auto simp: opened_wallet_def Let_def own_rows_def opening_row_def split: if_splits)

text \<open>The provider of a checked command is the authenticated client.\<close>

lemma wager_checks_Inr:
  assumes "wager_checks_request H who r = Inr cmd"
  obtains q amt where "Decode processWagerRequest_fields (rqBody r) zero_processWagerRequest = Some q"
    "ParseMoney (mdAmount (pqMoney q)) BRL = Inr amt" "cmd = wager_command H who (rqHeader r ''Idempotency-Key'') q amt"
    "pqProviderID q = ClientID who" "strings_TrimSpace (rqHeader r ''Idempotency-Key'') \<noteq> []" "\<not> missing_field q"
  using assms by (auto simp: wager_checks_request_def Let_def split: option.splits if_splits sum.splits)

lemma wager_checks_provider:
  "wager_checks_request H who r = Inr cmd \<Longrightarrow> reqProviderID (cmdRequest cmd) = ClientID who
     \<and> cmdIdempotencyKey cmd = rqHeader r ''Idempotency-Key''"
  by (elim wager_checks_Inr) (simp add: wager_command_def)

text \<open>What a wallet is, whatever its balance.\<close>

definition wallet_keys :: "database \<Rightarrow> (uuid \<times> string \<times> string \<times> time) list" where
  "wallet_keys d = map (\<lambda>x. (w_id x, w_player_id x, w_currency x, w_created_at x)) (wallets d)"

lemma Service_Process_wallet_keys:
  assumes "Service_Process E cmd w m = (x, d', m')"
  shows "wallet_keys d' = wallet_keys (db w)"
proof -
  have "wallet_keys d2 = wallet_keys d1" if "decided E c h wallet v d1 res d2" for c h wallet v d1 res d2
    using that
    by (cases v) (auto simp: decided_def pending_outcome_def rejected_outcome_def processed_outcome_def wallet_keys_def
        Let_def map_update_rows split: if_splits)
  then have "wallet_keys d2 = wallet_keys d1" if "command_result E cmd d1 res d2" for d1 res d2
    using that by (auto simp: command_result_def new_decision_def split: option.splits)
  with Service_Process_db [OF assms] show ?thesis by auto
qed

text \<open>C17: whoever changes something is entitled to. When a request changes the stored transactions of a
  provider, it is a wager request authenticated as that provider; when it adds or changes a wallet other
  than by moving its balance, it is a creation authenticated as the internal client; and nothing of
  the database changes but by one of these two kinds of request.\<close>

theorem own_requests_only:
  assumes "serve_http H r d m = (res, d', m')"
  shows "(own_rows p d' \<noteq> own_rows p d \<longrightarrow> provider_request H r p \<and> process_endpoint r)
    \<and> (wallet_keys d' \<noteq> wallet_keys d \<longrightarrow> internal_request H r \<and> create_endpoint r)
    \<and> (d' \<noteq> d \<longrightarrow> (internal_request H r \<and> create_endpoint r) \<or> (\<exists>q. provider_request H r q \<and> process_endpoint r))"
  using assms
proof (cases rule: serve_http_effect)
  case (create cmd x)
  then show ?thesis by (simp add: Wallet_Create_own_rows)
next
  case (process q cmd x)
  with Service_Process_own_rows [OF process(4), of p] wager_checks_provider [OF process(3)]
    Service_Process_wallet_keys [OF process(4)] show ?thesis by auto
qed simp

lemma demo_win_own:
  assumes "Service_Process (demo_env 2) demo_a_win (start_world demo_db1) m = (Inr result, d', m')" "\<not> resIdempotentReplay result"
  shows "own_rows ''provider-a'' d' \<noteq> own_rows ''provider-a'' demo_db1"
proof -
  from assms(1) have "command_result (demo_env 2) demo_a_win demo_db1 result d'"
    by (auto elim!: Service_Process_Inr dest!: ProcessTx_result)
  from command_rows [OF this] assms(2) show ?thesis
    by (auto simp: own_rows_def new_row_def demo_a_win_def)
qed

lemma own_requests_only_witness:
  "internal_request (demo_http 1) demo_create_request
   \<and> (\<exists>res d' m'. serve_http (demo_http 2) demo_win_request demo_db1 NewMetrics = (res, d', m')
     \<and> own_rows ''provider-a'' d' \<noteq> own_rows ''provider-a'' demo_db1
     \<and> provider_request (demo_http 2) demo_win_request ''provider-a'')"
proof -
  have "wallet_keys demo_db1 \<noteq> wallet_keys empty_database"
    by (simp add: wallet_keys_def demo_db1_def empty_database_def)
  with own_requests_only [OF demo_serve_create [of NewMetrics]] have first: "internal_request (demo_http 1) demo_create_request"
    by blast
  obtain b result d' m' where run: "serve_http (demo_http 2) demo_win_request demo_db1 NewMetrics =
      (\<lparr>rsStatus = 201, rsBody = ProcessBody b\<rparr>, d', m')"
    and "Service_Process (demo_env 2) demo_a_win (start_world demo_db1) NewMetrics = (Inr result, d', m')" "\<not> resIdempotentReplay result"
    by (rule demo_serve_win)
  then have own: "own_rows ''provider-a'' d' \<noteq> own_rows ''provider-a'' demo_db1" using demo_win_own by blast
  from own_requests_only [OF run, of "''provider-a''"] first run own show ?thesis by blast
qed

text \<open>C16: a request of nobody changes nothing. Without a token the verifier accepts for an allowed
  client, every request is refused and leaves database and metrics as they were, except the three
  open endpoints, which only read.\<close>

theorem strangers_are_refused:
  assumes "serve_http H r d m = (res, d', m')" "\<not> internal_request H r" "\<nexists>p. provider_request H r p"
  shows "d' = d \<and> m' = m \<and> (rsStatus res \<in> {401, 403, 404, 405}
    \<or> rqPath r \<in> {[''health'', ''live''], [''health'', ''ready''], [''metrics'']})"
  using assms(1)
proof (cases rule: serve_http_cases)
  case nobody
  then show ?thesis by (simp add: refused_def statuses)
next
  case (matched verb ps h vs)
  from matched(1,4) show ?thesis
  proof (cases rule: matched_cases)
    case refusal
    then show ?thesis by (simp add: refused_def statuses)
  next
    case open_endpoint
    with matched(3) show ?thesis by (auto simp: match_path_Lit match_path_Nil)
  qed (use assms(2,3) in auto)
qed

lemma strangers_are_refused_witness:
  "snd (serve_http (demo_http 2) (demo_win_request\<lparr>rqHeader := \<lambda>_. []\<rparr>) demo_db1 NewMetrics) = (demo_db1, NewMetrics)"
proof -
  let ?r = "demo_win_request\<lparr>rqHeader := \<lambda>_. []\<rparr>"
  obtain res d' m' where run: "serve_http (demo_http 2) ?r demo_db1 NewMetrics = (res, d', m')"
    by (cases "serve_http (demo_http 2) ?r demo_db1 NewMetrics") auto
  have "authenticated_client (demo_http 2) ?r = None"
    by (simp add: authenticated_client_def bearerToken_def strings_Cut_def)
  then have "\<not> internal_request (demo_http 2) ?r" "\<nexists>p. provider_request (demo_http 2) ?r p"
    by (simp_all add: internal_request_def provider_request_def)
  from strangers_are_refused [OF run this] run show ?thesis by simp
qed

section \<open>Reads\<close>

lemma provider_denied:
  "provider_request H r p \<Longrightarrow> Authenticate (InternalOnly next_handler) H r vs q d m = (forbidden, d, m)"
  by (auto simp: provider_request_def Authenticate_def InternalOnly_def isAllowedClient_def internalClientID_def
      allowedProviderClients_def)

lemma provider_admitted:
  "provider_request H r p \<Longrightarrow>
     Authenticate (ProviderOnly next_handler) H r vs q d m = next_handler H r vs (Some \<lparr>ClientID = p\<rparr>) d m"
  by (simp add: provider_request_def Authenticate_def ProviderOnly_def isAllowedClient_def)

lemma wager_query_response_cong:
  "map_sum id fst x = map_sum id fst y \<Longrightarrow> wager_query_response x = wager_query_response y"
  by (cases x; cases y) (auto simp: wager_query_response_def)

lemma provider_reads_own:
  assumes "own_rows p d1 = own_rows p d2" "handler \<in> {WagerHandler_Get, WagerHandler_GetByExternalTransactionID}"
  shows "fst (handler H r vs (Some \<lparr>ClientID = p\<rparr>) d1 m) = fst (handler H r vs (Some \<lparr>ClientID = p\<rparr>) d2 m)"
  using assms(2) GetForProvider_own [OF assms(1), THEN wager_query_response_cong]
    GetByExternal_own [OF assms(1), THEN wager_query_response_cong]
  by (auto simp: WagerHandler_Get_def WagerHandler_GetByExternalTransactionID_def)

text \<open>C15: providers are isolated. What a provider reads depends only on its own transactions: on two
  databases that agree on them, every request it can send with \<^verbatim>\<open>GET\<close> (or \<^verbatim>\<open>HEAD\<close>) gets the same
  answer, whatever other providers' transactions, wallets, ledgers and events hold.\<close>

theorem providers_are_isolated:
  assumes "provider_request H r p" "rqMethod r \<in> {''GET'', ''HEAD''}" "own_rows p d1 = own_rows p d2"
  shows "fst (serve_http H r d1 m) = fst (serve_http H r d2 m)"
proof (cases "serve_mux mux_patterns (rqMethod r) (rqPath r)")
  case (Matched h vs)
  from serve_mux_Matched [OF this] obtain verb ps where mem: "(verb, ps, h) \<in> set mux_patterns"
    and "match_method verb (rqMethod r)" by blast
  then have get: "verb \<noteq> ''POST''" using assms(2) by (auto simp: match_method_def)
  from mem have "fst (h H r vs None d1 m) = fst (h H r vs None d2 m)"
  proof (cases rule: mux_members)
    case (provider handler)
    with provider_reads_own [OF assms(3)] show ?thesis by (simp add: provider_admitted [OF assms(1)])
  next
    case open_endpoint
    then show ?thesis
      by (auto simp: HealthHandler_Live_def HealthHandler_Ready_def MetricsHandler_ServeHTTP_def Let_def)
  qed (use get provider_denied [OF assms(1)] in simp_all)
  with Matched show ?thesis by (simp add: serve_http_def)
qed (simp_all add: serve_http_def)

lemma providers_are_isolated_witness:
  "fst (serve_http (demo_http 2) (demo_win_request\<lparr>rqMethod := ''GET'', rqPath := [''wagering'', ''transactions'', ''300'']\<rparr>) demo_db3 NewMetrics) =
   fst (serve_http (demo_http 2) (demo_win_request\<lparr>rqMethod := ''GET'', rqPath := [''wagering'', ''transactions'', ''300'']\<rparr>) demo_db4 NewMetrics)"
proof (rule providers_are_isolated)
  show "provider_request (demo_http 2) (demo_win_request\<lparr>rqMethod := ''GET'', rqPath := [''wagering'', ''transactions'', ''300'']\<rparr>) ''provider-a''"
    by (simp add: provider_request_def demo_win_request_def demo_clients allowedProviderClients_def del: print.simps)
  show "own_rows ''provider-a'' demo_db3 = own_rows ''provider-a'' demo_db4"
    by (simp add: own_rows_def demo_rows command_row_def)
qed simp

section \<open>Statuses\<close>

text \<open>The body reports a stored transaction.\<close>

definition reports :: "env \<Rightarrow> wager_row \<Rightarrow> processWagerResponse \<Rightarrow> bool" where
  "reports E row b \<longleftrightarrow>
     prTransactionID b = uuid_String E (t_id row) \<and> prStatus b = t_state row
     \<and> prFailureCode b = coalesce (t_failure_code row)
     \<and> mdAmount (prBalance b) = Money_String (NewMoney (case t_result_balance row of None \<Rightarrow> 0 | Some x \<Rightarrow> x) BRL)"

lemma Money_String_amount: "amount x = amount y \<Longrightarrow> Money_String x = Money_String y"
  by (simp add: Money_String_def)

lemma process_response_status: "rsStatus (process_response res) = (if resIdempotentReplay res then 200 else 201)"
  by (simp add: process_response_def writeJSON_def statuses)

lemma process_response_body:
  "rsBody (process_response res) = ProcessBody b \<longleftrightarrow>
     b = \<lparr>prTransactionID = resTransactionID res, prStatus = resState res, prBalance = money_dto (resBalance res),
          prIdempotentReplay = resIdempotentReplay res, prFailureCode = resFailureCode res\<rparr>"
  by (auto simp: process_response_def writeJSON_def)

lemma new_row_reports:
  "new_row E cmd res row \<Longrightarrow> rsBody (process_response res) = ProcessBody b \<Longrightarrow> reports E row b"
  by (auto simp: new_row_def reports_def process_response_body money_dto_def NewMoney_def intro: Money_String_amount)

lemma replay_reports:
  "res = replay_result E row \<Longrightarrow> rsBody (process_response res) = ProcessBody b \<Longrightarrow> reports E row b"
  by (auto simp: replay_result_def reports_def process_response_body money_dto_def NewMoney_def intro: Money_String_amount
      split: option.splits)

lemma error_statuses:
  "rsStatus (writeWagerError err) \<notin> {200, 201}" "\<exists>t. rsBody (writeWagerError err) = ErrorBody t"
  by (auto simp: writeWagerError_def writeJSON_def statuses)

lemma check_statuses:
  "wager_checks_request H who r = Inl res \<Longrightarrow> rsStatus res \<notin> {200, 201} \<and> (\<exists>t. rsBody res = ErrorBody t)"
  by (auto simp: wager_checks_request_def Let_def writeJSON_def statuses split: option.splits if_splits sum.splits)

text \<open>The documented status codes: of a request that is not a command, and of what becomes of a command.\<close>

definition foreign_provider :: "string \<Rightarrow> http_request \<Rightarrow> bool" where
  "foreign_provider p r \<longleftrightarrow>
     (case Decode processWagerRequest_fields (rqBody r) zero_processWagerRequest of
        None \<Rightarrow> False
      | Some q \<Rightarrow> strings_TrimSpace (rqHeader r ''Idempotency-Key'') \<noteq> [] \<and> \<not> missing_field q \<and> pqProviderID q \<noteq> p)"

fun cause :: "error \<Rightarrow> sentinel option" where
  "cause (Sentinel s) = Some s"
| "cause (Wrapped _ e) = cause e"
| "cause (PgError _ _) = None"
| "cause (PlainError _) = None"

fun documented_status :: "sentinel \<Rightarrow> nat" where
  "documented_status ErrIdempotencyConflict = 409"
| "documented_status ErrExternalTransactionExists = 409"
| "documented_status ErrWagerWalletNotFound = 404"
| "documented_status ErrWalletPlayerMismatch = 403"
| "documented_status ErrInvalidWagerKind = 400"
| "documented_status ErrInvalidAmount = 400"
| "documented_status ErrInvalidLossAmount = 400"
| "documented_status ErrWagerReferenceRequired = 400"
| "documented_status ErrWagerReferenceNotAllowed = 400"
| "documented_status ErrMoneyOverflow = 400"
| "documented_status ErrCurrencyMismatch = 400"
| "documented_status _ = 500"

definition outcome_status :: "ProcessResult result \<Rightarrow> nat" where
  "outcome_status x =
     (case x of
        Inl e \<Rightarrow> (case cause e of None \<Rightarrow> 500 | Some s \<Rightarrow> documented_status s)
      | Inr result \<Rightarrow> if resIdempotentReplay result then 200 else 201)"

lemma errors_is_cause: "errors_is e s \<longleftrightarrow> cause e = Some s"
  by (induction e) auto

lemma writeWagerError_status:
  "rsStatus (writeWagerError e) = (case cause e of None \<Rightarrow> 500 | Some s \<Rightarrow> documented_status s)"
proof (cases "cause e")
  case None
  then show ?thesis
    by (simp add: writeWagerError_def errors_is_cause bad_request_errors_def writeJSON_def statuses)
next
  case (Some s)
  then show ?thesis
    by (cases s) (simp_all add: writeWagerError_def errors_is_cause bad_request_errors_def writeJSON_def statuses)
qed

lemma wager_answer_status: "rsStatus (wager_answer x) = outcome_status x"
  by (cases x) (simp_all add: wager_answer_def outcome_status_def writeWagerError_status process_response_status)

lemma wager_refusal_status:
  "wager_checks_request H \<lparr>ClientID = p\<rparr> r = Inl res \<Longrightarrow> rsStatus res = (if foreign_provider p r then 403 else 400)"
  by (auto simp: wager_checks_request_def foreign_provider_def Let_def writeJSON_def statuses
      split: option.splits if_splits sum.splits)

lemma process_status_codes:
  assumes "serve_http H r d m = (res, d', m')" "process_endpoint r" "provider_request H r p"
  shows "case wager_checks_request H \<lparr>ClientID = p\<rparr> r of
       Inl _ \<Rightarrow> d' = d \<and> m' = m \<and> rsStatus res = (if foreign_provider p r then 403 else 400)
     | Inr cmd \<Rightarrow> rsStatus res = outcome_status (fst (Service_Process (hService H) cmd (start_world d) m))"
proof -
  have "WagerHandler_Process H r [] (Some \<lparr>ClientID = p\<rparr>) d m = (res, d', m')"
    using assms(1) serve_process [OF assms(2,3)] by simp
  then show ?thesis
    by (cases rule: WagerHandler_Process_cases) (simp_all add: wager_refusal_status wager_answer_status)
qed

text \<open>C27: the status of a wager request tells what happened, as documented. A request that is not a command
  changes nothing and gets 400, or 403 when it names another provider than the authenticated one. A
  command gets 201 when it is new and 200 when it is a replay; its error gets 409 for a reused idempotency
  key or a known external transaction, 404 for an unknown wallet, 403 for another player's wallet, 400
  for an invalid kind, amount, reference or currency and an overflow, and 500 for any other. With
  201 exactly one transaction of the provider was added, under the key of the request, and the body
  reports it; with 200 nothing changed and the body reports the transaction stored earlier under that
  key; with any other status nothing changed, when no commit fails after it took effect.\<close>

theorem process_statuses:
  assumes "serve_http H r d m = (res, d', m')" "process_endpoint r" "provider_request H r p"
    and "unambiguous (hService H)"
  shows "(case rsBody res of
       ProcessBody b \<Rightarrow>
         (rsStatus res = 201 \<and> \<not> prIdempotentReplay b
            \<and> (\<exists>row. own_rows p d' = own_rows p d @ [row] \<and> t_idempotency_key row = Some (rqHeader r ''Idempotency-Key'')
                 \<and> reports (hService H) row b))
         \<or> (rsStatus res = 200 \<and> prIdempotentReplay b \<and> d' = d
            \<and> (\<exists>row \<in> set (own_rows p d). t_idempotency_key row = Some (rqHeader r ''Idempotency-Key'')
                 \<and> reports (hService H) row b))
     | ErrorBody t \<Rightarrow> rsStatus res \<notin> {200, 201} \<and> d' = d
     | _ \<Rightarrow> False)
    \<and> (case wager_checks_request H \<lparr>ClientID = p\<rparr> r of
       Inl _ \<Rightarrow> d' = d \<and> m' = m \<and> rsStatus res = (if foreign_provider p r then 403 else 400)
     | Inr cmd \<Rightarrow> rsStatus res = outcome_status (fst (Service_Process (hService H) cmd (start_world d) m)))"
proof (rule conjI [OF _ process_status_codes [OF assms(1-3)]])
  have "WagerHandler_Process H r [] (Some \<lparr>ClientID = p\<rparr>) d m = (res, d', m')"
    using assms(1) serve_process [OF assms(2,3)] by simp
  then show "case rsBody res of
       ProcessBody b \<Rightarrow>
         (rsStatus res = 201 \<and> \<not> prIdempotentReplay b
            \<and> (\<exists>row. own_rows p d' = own_rows p d @ [row] \<and> t_idempotency_key row = Some (rqHeader r ''Idempotency-Key'')
                 \<and> reports (hService H) row b))
         \<or> (rsStatus res = 200 \<and> prIdempotentReplay b \<and> d' = d
            \<and> (\<exists>row \<in> set (own_rows p d). t_idempotency_key row = Some (rqHeader r ''Idempotency-Key'')
                 \<and> reports (hService H) row b))
     | ErrorBody t \<Rightarrow> rsStatus res \<notin> {200, 201} \<and> d' = d
     | _ \<Rightarrow> False"
  proof (cases rule: WagerHandler_Process_cases)
    case invalid
    with check_statuses show ?thesis by fastforce
  next
    case (valid cmd x)
    note prov = wager_checks_provider [OF valid(1)]
    show ?thesis
    proof (cases x)
      case (Inl err)
      with valid(2) assms(4) have "d' = d"
        using run_tx_Inl [of "hService H" "''begin transaction''" "\<lambda>_. Some ''commit wager transaction''" "ProcessTx cmd" "start_world d"]
        by (auto simp: Service_Process_def Let_def unambiguous_def split: prod.splits sum.splits)
      with error_statuses [of err] valid(3) Inl show ?thesis by (auto simp: wager_answer_def)
    next
      case (Inr result)
      with valid(2) have "command_result (hService H) cmd d result d'"
        by (auto elim!: Service_Process_Inr dest!: ProcessTx_result)
      from command_rows [OF this] valid(3) Inr prov show ?thesis
        using new_row_reports [of "hService H" cmd result] replay_reports [of result "hService H"] stored_for_identity [of cmd d]
        by (auto simp: wager_answer_def process_response_status own_rows_def new_row_def idempotency_identity_def
            process_response_def writeJSON_def statuses)
    qed
  qed
qed

lemma process_statuses_witness:
  "\<exists>b d' m' row. serve_http (demo_http 2) demo_win_request demo_db1 NewMetrics = (\<lparr>rsStatus = 201, rsBody = ProcessBody b\<rparr>, d', m')
     \<and> own_rows ''provider-a'' d' = own_rows ''provider-a'' demo_db1 @ [row] \<and> reports (demo_env 2) row b"
proof -
  obtain b d' m' where run: "serve_http (demo_http 2) demo_win_request demo_db1 NewMetrics =
      (\<lparr>rsStatus = 201, rsBody = ProcessBody b\<rparr>, d', m')"
    using demo_serve_win [of NewMetrics] by metis
  from process_statuses [OF run demo_requests(2,4)] run show ?thesis by (auto simp: demo_calm)
qed

section \<open>Retries\<close>

lemma process_success:
  assumes "serve_http H r d m = (res, d', m')" "process_endpoint r" "provider_request H r p" "rsBody res = ProcessBody b"
  obtains cmd result where "wager_checks_request H \<lparr>ClientID = p\<rparr> r = Inr cmd"
    "Service_Process (hService H) cmd (start_world d) m = (Inr result, d', m')" "res = process_response result"
proof -
  have "WagerHandler_Process H r [] (Some \<lparr>ClientID = p\<rparr>) d m = (res, d', m')"
    using assms(1) serve_process [OF assms(2,3)] by simp
  then show thesis
  proof (cases rule: WagerHandler_Process_cases)
    case invalid
    with check_statuses [OF invalid(1)] assms(4) show thesis by auto
  next
    case (valid cmd x)
    show thesis
    proof (cases x)
      case (Inl err)
      with valid(3) error_statuses(2) [of err] assms(4) show thesis by (auto simp: wager_answer_def)
    next
      case (Inr result)
      with valid that show thesis by (simp add: wager_answer_def)
    qed
  qed
qed

text \<open>Only the correlation id of a command depends on the environment.\<close>

lemma wager_checks_again:
  assumes "wager_checks_request H who r = Inr cmd"
  shows "\<exists>cmd2. wager_checks_request H2 who r = Inr cmd2 \<and> cmdRequest cmd2 = cmdRequest cmd
     \<and> cmdIdempotencyKey cmd2 = cmdIdempotencyKey cmd"
  using assms by (auto simp: wager_checks_request_def wager_command_def Let_def split: option.splits if_splits sum.splits)

text \<open>The answers to a request and to its retry.\<close>

definition same_body :: "processWagerResponse \<Rightarrow> processWagerResponse \<Rightarrow> bool" where
  "same_body b b2 \<longleftrightarrow> prTransactionID b2 = prTransactionID b \<and> prIdempotentReplay b2
     \<and> (prStatus b \<noteq> WagerStatePendingReference \<longrightarrow> b2 = b\<lparr>prIdempotentReplay := True\<rparr>)"

lemma same_answer_body:
  assumes "same_answer result result2" "rsBody (process_response result) = ProcessBody b"
  shows "\<exists>b2. process_response result2 = \<lparr>rsStatus = 200, rsBody = ProcessBody b2\<rparr> \<and> same_body b b2"
  using assms by (auto simp: same_answer_def same_body_def process_response_def writeJSON_def statuses)

text \<open>C28: a retried request is answered from the first. When the same request is sent again after any
  further operations, by the same client, with the same body and key, and no statement fails, the answer
  is 200, the database is not changed, and the body names the same transaction; unless the first answer
  was that the transaction waits for its reference, the whole body is the same but for the replay flag.\<close>

theorem retried_request_replays:
  assumes first: "serve_http H r d m = (res, d', m')" "process_endpoint r" "provider_request H r p"
      "rsBody res = ProcessBody b"
    and later: "extends_history d' d2" "schema_ok d2"
    and again: "provider_request H2 r p" "uuid_String (hService H2) = uuid_String (hService H)" "calm (hService H2)"
  shows "\<exists>b2 m3. serve_http H2 r d2 m2 = (\<lparr>rsStatus = 200, rsBody = ProcessBody b2\<rparr>, d2, m3) \<and> same_body b b2"
proof -
  from first obtain cmd result where chk: "wager_checks_request H \<lparr>ClientID = p\<rparr> r = Inr cmd"
    and run: "Service_Process (hService H) cmd (start_world d) m = (Inr result, d', m')"
    and res: "res = process_response result" by (elim process_success)
  from wager_checks_again [OF chk, of H2] obtain cmd2 where chk2: "wager_checks_request H2 \<lparr>ClientID = p\<rparr> r = Inr cmd2"
    and same: "cmdRequest cmd2 = cmdRequest cmd" "cmdIdempotencyKey cmd2 = cmdIdempotencyKey cmd" by blast
  from Service_Process_retry [OF run later same again(2), of m2] again(3) obtain result2 m3 where
    run2: "Service_Process (hService H2) cmd2 (start_world d2) m2 = (Inr result2, d2, m3)"
    and ans: "same_answer result result2" by (auto simp: calm_def)
  from same_answer_body [OF ans] res first(4) show ?thesis
    using run2 chk2 by (auto simp: serve_process [OF first(2) again(1)] WagerHandler_Process_def)
qed

lemma retried_request_replays_witness:
  "\<exists>b b2 d' m' m3. serve_http (demo_http 2) demo_win_request demo_db1 NewMetrics = (\<lparr>rsStatus = 201, rsBody = ProcessBody b\<rparr>, d', m')
     \<and> serve_http (demo_http 5) demo_win_request d' m' = (\<lparr>rsStatus = 200, rsBody = ProcessBody b2\<rparr>, d', m3) \<and> same_body b b2"
proof -
  obtain b result d' m' where run: "serve_http (demo_http 2) demo_win_request demo_db1 NewMetrics =
      (\<lparr>rsStatus = 201, rsBody = ProcessBody b\<rparr>, d', m')"
    and srv: "Service_Process (demo_env 2) demo_a_win (start_world demo_db1) NewMetrics = (Inr result, d', m')"
    by (rule demo_serve_win)
  from retried_request_replays [OF run demo_requests(2,4) _ extends_history_refl demo_win_ok [OF srv] demo_requests(4), of b 5 m'] run
  show ?thesis by (fastforce simp: demo_calm demo_uuid_texts)
qed

section \<open>Wallets\<close>

lemma serve_wallet_get:
  assumes "internal_request H r" "rqMethod r = ''GET''" "rqPath r = [''wallets'', i]" "i \<noteq> []"
  shows "serve_http H r d m = WalletHandler_Get H r [(''id'', i)] (Some \<lparr>ClientID = internalClientID\<rparr>) d m"
proof -
  have "serve_http H r d m = Authenticate (InternalOnly WalletHandler_Get) H r [(''id'', i)] None d m"
    using assms(2-4) by (simp add: serve_http_def serve_mux_def mux_patterns_def match_method_def)
  with assms(1) show ?thesis
    by (simp add: Authenticate_def InternalOnly_def internal_request_def isAllowedClient_def)
qed

text \<open>C29: a created wallet can be read. After \<^verbatim>\<open>POST /wallets\<close> answered with a wallet, the status was
  201 and \<^verbatim>\<open>GET /wallets/{id}\<close> with the id of the answer gives 200 and the same body.\<close>

theorem created_wallet_is_readable:
  assumes "serve_http H r d m = (res, d', m')" "create_endpoint r" "internal_request H r" "rsBody res = WalletBody b"
    and "schema_ok d" "uuid_laws (hService H)"
    and "internal_request H2 r2" "rqMethod r2 = ''GET''" "rqPath r2 = [''wallets'', waID b]"
    and "uuid_String (hService H2) = uuid_String (hService H)" "uuid_Parse (hService H2) = uuid_Parse (hService H)"
      "calm (hService H2)"
  shows "rsStatus res = 201 \<and> serve_http H2 r2 d' m2 = (\<lparr>rsStatus = 200, rsBody = WalletBody b\<rparr>, d', m2)"
proof -
  let ?E = "hService H"
  from assms(1) obtain cmd x where cr: "Wallet_Create ?E cmd d = (x, d')" and res: "res = create_response (cwPlayerID cmd) x"
    using assms(4) unfolding serve_create [OF assms(2,3)]
    by (auto simp: WalletHandler_Create_def create_checks_request_def Let_def writeJSON_def
        split: sum.splits prod.splits option.splits if_splits)
  then obtain c where x: "x = Inr c" using assms(4) by (cases x) (auto simp: create_response_def writeJSON_def split: if_splits)
  let ?u = "new_uuid ?E 0"
  let ?row = "\<lparr>w_id = ?u, w_player_id = cwPlayerID cmd, w_currency = currency (cwInitialBalance cmd),
      w_balance = amount (cwInitialBalance cmd), w_version = 1, w_created_at = time_now ?E 0, w_updated_at = time_now ?E 0\<rparr>"
  from Wallet_Create_result [OF cr [unfolded x]] have open_w: "wallets d' = wallets d @ [?row]"
    and c: "c = \<lparr>cwrWalletID = uuid_String ?E ?u, cwrBalance = cwInitialBalance cmd, cwrVersion = 1\<rparr>"
    by (auto simp: opened_wallet_def Let_def)
  have b: "b = \<lparr>waID = uuid_String ?E ?u, waPlayerID = cwPlayerID cmd, waBalance = money_dto (cwInitialBalance cmd), waVersion = 1\<rparr>"
    "rsStatus res = 201"
    using assms(4) by (simp_all add: res x c create_response_def writeJSON_def statuses)
  have "schema_ok d'"
    using schema.Wallet_Create_R [of d ?E cmd] assms(5,6) by (simp add: cr keeps_schema_def)
  then have find: "List.find (\<lambda>r. w_id r = ?u) (wallets d') = Some ?row"
    using find_wallet [of d' ?row] by (simp add: open_w)
  have u: "uuid_Parse (hService H2) (uuid_String ?E ?u) = Some ?u" "uuid_String ?E ?u \<noteq> []"
    using assms(6,11) by (simp_all add: uuid_laws_simps)
  have "serve_http H2 r2 d' m2 = WalletHandler_Get H2 r2 [(''id'', uuid_String ?E ?u)] (Some \<lparr>ClientID = internalClientID\<rparr>) d' m2"
    using assms(7-9) u(2) b by (intro serve_wallet_get) simp_all
  then show ?thesis
    using u find assms(10,12) b
    by (simp add: WalletHandler_Get_def PathValue_def stringValue_def Wallet_Get_def parse_or_not_found_def tx_bind_def
        tx_map_err_def sql_read_def sql_def calm_def tx_simps start_world_def scan_wallet_result_def writeJSON_def statuses
        money_dto_def replay_of_balance)
qed

lemma created_wallet_is_readable_witness:
  "serve_http (demo_http 3) (demo_create_request\<lparr>rqMethod := ''GET'', rqPath := [''wallets'', ''100'']\<rparr>) demo_db1 NewMetrics =
     (\<lparr>rsStatus = 200, rsBody = WalletBody \<lparr>waID = ''100'', waPlayerID = ''a'', waBalance = money_dto (NewMoney 0 BRL),
        waVersion = 1\<rparr>\<rparr>, demo_db1, NewMetrics)"
proof -
  let ?r = "demo_create_request\<lparr>rqMethod := ''GET'', rqPath := [''wallets'', ''100'']\<rparr>"
  have "reachable (demo_system empty_database)" by (rule reachable_in.initial)
  then have "schema_ok empty_database" using reachable_inv by (fastforce simp: sys_inv_def)
  moreover have "internal_request (demo_http 3) ?r"
    by (simp add: internal_request_def demo_create_request_def demo_clients internalClientID_def del: print.simps)
  ultimately show ?thesis
    using created_wallet_is_readable [OF demo_serve_create demo_requests(1,3), of "\<lparr>waID = ''100'', waPlayerID = ''a'',
        waBalance = money_dto (NewMoney 0 BRL), waVersion = 1\<rparr>" "demo_http 3" ?r NewMetrics]
      demo_laws by (simp add: demo_calm demo_uuid_texts)
qed

end
