(* ===== verification/Carried_Out.thy ===== *)
theory Carried_Out
  imports Consumer_Properties Command_Properties
begin

text \<open>
  What a completed message stands for: a command whose transaction is stored. The invariant of
  the inbox, kept by every request and every turn of a worker.
\<close>

section \<open>Carried out\<close>

text \<open>The transaction of a command is stored: under its provider and key, with the hash of its request.\<close>

definition carried_out :: "ProcessCommand \<Rightarrow> database \<Rightarrow> bool" where
  "carried_out cmd d \<longleftrightarrow>
     (\<exists>r \<in> set (wager_transactions d).
        idempotency_identity (reqProviderID (cmdRequest cmd)) (cmdIdempotencyKey cmd) r
        \<and> t_payload_hash r = Some (PayloadHash (cmdRequest cmd)))"

lemma carried_out_history:
  assumes "extends_history d d'" "carried_out cmd d"
  shows "carried_out cmd d'"
proof -
  from assms(2) obtain r where r: "r \<in> set (wager_transactions d)"
      "idempotency_identity (reqProviderID (cmdRequest cmd)) (cmdIdempotencyKey cmd) r"
      "t_payload_hash r = Some (PayloadHash (cmdRequest cmd))"
    by (auto simp: carried_out_def)
  from assms(1) r(1) obtain r' where "r' \<in> set (wager_transactions d')" "wager_evolves r r'"
    unfolding extends_history_def by (blast dest: growsD)
  with r(2,3) show ?thesis
    by (auto simp: carried_out_def wager_evolves_def same_request_def idempotency_identity_def)
qed

lemma ProcessTx_carries_out: "ProcessTx cmd E w = Inr (res, w') \<Longrightarrow> carried_out cmd (db w')"
  using command_result_recorded [OF ProcessTx_result]
  by (fastforce simp: recorded_def carried_out_def replay_of_Inr)

section \<open>Completed messages\<close>

definition stands_for :: "inbox_row \<Rightarrow> string \<Rightarrow> decodedCommand \<Rightarrow> bool" where
  "stands_for x body command \<longleftrightarrow>
     decodeCommand body = Inr command \<and> i_message_id x = cmMessageID (dcMessage command)
     \<and> i_payload_hash x = inbox_PayloadHash body"

abbreviation command_in :: "string \<Rightarrow> decodedCommand \<Rightarrow> ProcessCommand" where
  "command_in body command \<equiv> mpCommand (consumer_command body command)"

definition backed :: "database \<Rightarrow> bool" where
  "backed d \<longleftrightarrow>
     (\<forall>x \<in> set (inbox_messages d). i_completed_at x \<noteq> None \<longrightarrow>
        (\<exists>body command. stands_for x body command \<and> carried_out (command_in body command) d))"

lemma backed_empty: "backed empty_database"
  by (simp add: backed_def empty_database_def)

lemma backed_mono:
  "backed d \<Longrightarrow> inbox_messages d' = inbox_messages d \<Longrightarrow> extends_history d d' \<Longrightarrow> backed d'"
  unfolding backed_def using carried_out_history by metis

text \<open>The transactions of the services leave the inbox alone.\<close>

interpretation same_inbox: wager_contract "\<lambda>d d'. inbox_messages d' = inbox_messages d"
  by unfold_locales (auto simp: insert_wallet_Inr insert_wager_Inr insert_ledger_Inr insert_outbox_Inr
      update_wallet_Inr Let_def update_outbox_def dest!: update_pending_Inr)

lemma Register_backed:
  assumes "Register c i p E w = Inr (b, w1)" "backed (db w)"
  shows "backed (db w1)"
proof -
  have "extends_history (db w) (db w1)" using history.keeps_Register assms(1) by (rule keepsD)
  moreover have "\<forall>x \<in> set (inbox_messages (db w1)). x \<in> set (inbox_messages (db w)) \<or> i_completed_at x = None"
    using assms(1) unfolding Register_def Let_def
    by (elim tx_bindE) (auto elim!: tx_elims simp: insert_inbox_def split: if_splits option.splits)
  ultimately show ?thesis
    using assms(2) carried_out_history unfolding backed_def by metis
qed

lemma Complete_backed:
  assumes run: "Complete c (cmMessageID (dcMessage command)) E w = Inr (u, w1)" and ok: "schema_ok (db w)"
    and b: "backed (db w)" and dec: "decodeCommand body = Inr command" and co: "carried_out (command_in body command) (db w)"
    and x: "x \<in> set (inbox_messages (db w))" "inbox_key c (cmMessageID (dcMessage command)) x"
      "i_payload_hash x = inbox_PayloadHash body"
  shows "backed (db w1)"
proof -
  let ?i = "cmMessageID (dcMessage command)"
  let ?p = "\<lambda>r. inbox_key c ?i r \<and> i_completed_at r = None" and ?f = "\<lambda>r. r\<lparr>i_completed_at := Some (db_now E)\<rparr>"
  have m: "inbox_messages (db w1) = update_rows ?p ?f (inbox_messages (db w))"
    using run unfolding Complete_def by (elim tx_bindE) (auto elim!: tx_elims simp: update_inbox_def split: if_splits)
  have h: "extends_history (db w) (db w1)" using history.keeps_Complete run by (rule keepsD)
  have "stands_for y body command" if "y \<in> set (inbox_messages (db w))" "inbox_key c ?i y" for y
    using that x inbox_key_unique [OF ok x(1,2)] inbox_key_unique [OF ok that] dec
    by (auto simp: stands_for_def inbox_key_def)
  then have new: "stands_for (?f y) body command" if "y \<in> set (inbox_messages (db w))" "inbox_key c ?i y" for y
    using that by (simp add: stands_for_def)
  show ?thesis
    unfolding backed_def m set_update_rows
    using b new co h carried_out_history unfolding backed_def by blast
qed

lemma message_tx_backed:
  assumes run: "message_tx (consumer_command body command) E w = Inr (res, w')" and dec: "decodeCommand body = Inr command"
    and ok: "schema_ok (db w)" and b: "backed (db w)"
  shows "backed (db w')"
proof -
  let ?cmd = "consumer_command body command"
  let ?c = "mpConsumerName ?cmd" and ?i = "mpMessageID ?cmd" and ?p = "mpRawPayload ?cmd"
  from run obtain replay w1 where reg: "Register ?c ?i ?p E w = Inr (replay, w1)"
    and rest: "replay \<and> db w' = db w1 \<or>
      (\<exists>result w2 u. ProcessTx (mpCommand ?cmd) E w1 = Inr (result, w2) \<and> Complete ?c ?i E w2 = Inr (u, w'))"
    unfolding message_tx_def
    by (elim tx_bindE) (auto simp: tx_bind_Inr tx_return_def tx_map_err_Inr split: if_splits)
  note b1 = Register_backed [OF reg b]
  have ok1: "schema_ok (db w1)" using keepsD [OF schema.keeps_Register reg] ok by (simp add: keeps_schema_def)
  from rest show ?thesis
  proof (elim disjE exE conjE)
    assume "db w' = db w1"
    with b1 show ?thesis by simp
  next
    fix result w2 u
    assume p: "ProcessTx (mpCommand ?cmd) E w1 = Inr (result, w2)" and c: "Complete ?c ?i E w2 = Inr (u, w')"
    have same: "inbox_messages (db w2) = inbox_messages (db w1)" by (rule keepsD [OF same_inbox.keeps_ProcessTx p])
    have b2: "backed (db w2)" by (rule backed_mono [OF b1 same keepsD [OF history.keeps_ProcessTx p]])
    have ok2: "schema_ok (db w2)" using keepsD [OF schema.keeps_ProcessTx p] ok1 by (simp add: keeps_schema_def)
    from Register_Inr [OF reg] obtain x where "x \<in> set (inbox_messages (db w2))" "inbox_key ?c ?i x"
        "i_payload_hash x = inbox_PayloadHash body"
      by (auto simp: same consumer_command_def Let_def)
    with c ok2 b2 dec ProcessTx_carries_out [OF p] show ?thesis
      by (intro Complete_backed [of ?c command E w2 u w' body x]) (simp_all add: consumer_command_def Let_def)
  qed
qed

interpretation backed_inbox: message_processor
  "\<lambda>E cmd d m. MessageProcessor_Process E cmd (start_world d) m" "\<lambda>d. schema_ok d \<and> backed d" uuid_laws unambiguous calm completed
proof (unfold_locales, goal_cases)
  case (1 d E body command m res d' m')
  have "d' = d \<or> (\<exists>r w'. message_tx (consumer_command body command) E (start_world d) = Inr (r, w') \<and> d' = db w')"
    using 1(4) run_tx_db [of E "''begin message transaction''" message_commit "message_tx (consumer_command body command)" "start_world d"]
    by (auto simp: MessageProcessor_Process_def Let_def split: prod.splits if_splits)
  then have "backed d'" using message_tx_backed [OF _ 1(3)] 1(1) by auto
  moreover have "schema_ok d'" using inbox.inv_step [OF _ 1(2-4)] 1(1) by simp
  ultimately show ?case by simp
next
  case 2 then show ?case by (rule inbox.completes)
next
  case 3 then show ?case by (rule inbox.fails)
next
  case 4 then show ?case by (rule inbox.complete_step)
next
  case (5 d E cmd m) then show ?case using inbox.replays [of d E cmd m] by simp
qed

lemma consume_backed:
  "consume received delete ctx es d m = (r, acts, d', m') \<Longrightarrow> schema_ok d \<Longrightarrow> backed d \<Longrightarrow> (\<And>i. uuid_laws (es i)) \<Longrightarrow> backed d'"
  using backed_inbox.ConsumeOnce_inv [of received delete ctx es d m r acts d' m'] by (simp add: consume_def)

text \<open>A message whose delivery completed it stands for a stored transaction.\<close>

lemma committed_carried_out:
  assumes "committed d message" "backed d"
  shows "\<exists>body command body0 command0. command_of message = Some (body, command)
     \<and> decodeCommand body0 = Inr command0 \<and> cmMessageID (dcMessage command0) = cmMessageID (dcMessage command)
     \<and> sha256_hex body0 = sha256_hex body \<and> carried_out (command_in body0 command0) d"
proof -
  from assms(1) obtain body command x where c: "command_of message = Some (body, command)"
      "x \<in> set (inbox_messages d)" "inbox_key defaultConsumerName (cmMessageID (dcMessage command)) x"
      "i_payload_hash x = inbox_PayloadHash body" "i_completed_at x \<noteq> None"
    by (auto simp: committed_def completed_def)
  with assms(2) obtain body0 command0 where "stands_for x body0 command0" "carried_out (command_in body0 command0) d"
    unfolding backed_def by blast
  with c show ?thesis by (fastforce simp: stands_for_def inbox_PayloadHash_def inbox_key_def)
qed

text \<open>A first delivery carries out its own command, which met the contract of its kind.\<close>

lemma first_delivery_carries_out:
  assumes run: "consume (Inr [message]) delete ctx es d m = (r, acts, d', m')" "DeleteMessage h \<in> set acts"
    and msg: "command_of message = Some (body, command)"
    and fresh: "\<forall>x \<in> set (inbox_messages d). \<not> inbox_key defaultConsumerName (cmMessageID (dcMessage command)) x"
  shows "carried_out (command_in body command) d' \<and> request_contract (cmdRequest (command_in body command))"
proof -
  let ?p = "\<lambda>E cmd d m. MessageProcessor_Process E cmd (start_world d) m" and ?cmd = "consumer_command body command"
  obtain ok e a d1 m1 where one: "processMessage ?p delete (es 0) message d (recordRetry message m) = ((ok, e), a, d1, m1)"
    by (metis surj_pair)
  with run have "DeleteMessage h \<in> set a" "d' = d1"
    using inbox.no_delete_after_failure
    by (auto simp: consume_def ConsumeOnceWithContexts_def Let_def split: option.splits)
  with one msg obtain res where "?p (es 0) ?cmd d (recordRetry message m) = (Inr res, d', m1)"
    by (auto elim!: processMessage_cases)
  then obtain w' where tx: "message_tx ?cmd (es 0) (start_world d) = Inr (res, w')" "d' = db w'"
    by (auto simp: MessageProcessor_Process_def Let_def message_commit_def split: prod.splits if_splits dest!: run_tx_Inr)
  from tx(1) obtain replay w1 where reg: "Register (mpConsumerName ?cmd) (mpMessageID ?cmd) (mpRawPayload ?cmd) (es 0) (start_world d) = Inr (replay, w1)"
    and rest: "replay \<or> (\<exists>result w2 u. ProcessTx (mpCommand ?cmd) (es 0) w1 = Inr (result, w2)
         \<and> Complete (mpConsumerName ?cmd) (mpMessageID ?cmd) (es 0) w2 = Inr (u, w'))"
    unfolding message_tx_def
    by (elim tx_bindE) (auto simp: tx_bind_Inr tx_return_def tx_map_err_Inr split: if_splits)
  have "\<not> replay"
    using reg fresh unfolding Register_def Let_def
    by (elim tx_bindE) (auto elim!: tx_elims simp: insert_inbox_def inbox_key_def consumer_command_def Let_def start_world_def
        split: if_splits option.splits)
  with rest obtain result w2 u where p: "ProcessTx (mpCommand ?cmd) (es 0) w1 = Inr (result, w2)"
    and c: "Complete (mpConsumerName ?cmd) (mpMessageID ?cmd) (es 0) w2 = Inr (u, w')" by blast
  show ?thesis
    using carried_out_history [OF keepsD [OF history.keeps_Complete c] ProcessTx_carries_out [OF p]] tx(2)
      ProcessTx_contract [OF p] by simp
qed

end
