(* ===== verification/Channel_Properties.thy ===== *)
theory Channel_Properties
  imports Http_Properties Carried_Out
begin

text \<open>
  The two channels together: a command that arrives over HTTP and over the queue takes effect once.
\<close>

section \<open>One command over both channels\<close>

text \<open>A registered message whose command is stored already: only the inbox changes.\<close>

lemma Complete_fresh:
  assumes "\<forall>x \<in> set (inbox_messages d0). \<not> inbox_key c i x" "inbox_key c i r" "i_completed_at r = None" "calm E"
    and "db w = d0\<lparr>inbox_messages := inbox_messages d0 @ [r]\<rparr>"
  shows "\<exists>w'. Complete c i E w = Inr ((), w')
     \<and> db w' = d0\<lparr>inbox_messages := inbox_messages d0 @ [r\<lparr>i_completed_at := Some (db_now E)\<rparr>]\<rparr>"
proof -
  have old: "filter (\<lambda>r. inbox_key c i r \<and> i_completed_at r = None) (inbox_messages d0) = []"
    "update_rows (\<lambda>r. inbox_key c i r \<and> i_completed_at r = None) f (inbox_messages d0) = inbox_messages d0" for f
    using assms(1) by (auto simp: filter_empty_conv update_rows_def intro: map_idI)
  have "update_inbox (\<lambda>r. inbox_key c i r \<and> i_completed_at r = None) f (db w) =
      (1, d0\<lparr>inbox_messages := inbox_messages d0 @ [f r]\<rparr>)" for f
    using assms(2,3) old by (simp add: update_inbox_def assms(5)) (simp add: update_rows_def)
  then show ?thesis
    using assms(4) by (simp add: Complete_def calm_def tx_bind_def tx_map_err_def sql_def tx_simps)
qed

lemma message_of_stored_command:
  assumes st: "stored_for (mpCommand cmd) d2 = Some row" "replay_of E (PayloadHash (cmdRequest (mpCommand cmd))) row = Inr res"
    and contract: "request_contract (cmdRequest (mpCommand cmd))" "cmdIdempotencyKey (mpCommand cmd) \<noteq> []"
    and fresh: "\<forall>x \<in> set (inbox_messages d2). \<not> inbox_key (mpConsumerName cmd) (mpMessageID cmd) x"
    and names: "mpConsumerName cmd \<noteq> []" "mpMessageID cmd \<noteq> []" "mpRawPayload cmd \<noteq> []"
      "characters (mpConsumerName cmd) \<le> 100" "characters (mpMessageID cmd) \<le> 255" and calm: "calm E"
  shows "\<exists>r m3. MessageProcessor_Process E cmd (start_world d2) m =
     (Inr \<lparr>mrResult = res, mrInboxReplay = False, mrIdempotentReplay = resIdempotentReplay res\<rparr>,
      d2\<lparr>inbox_messages := inbox_messages d2 @ [r]\<rparr>, m3)"
proof -
  let ?r = "\<lparr>i_consumer_name = mpConsumerName cmd, i_message_id = mpMessageID cmd,
    i_payload_hash = inbox_PayloadHash (mpRawPayload cmd), i_received_at = db_now E, i_completed_at = None\<rparr>"
  let ?d = "d2\<lparr>inbox_messages := inbox_messages d2 @ [?r]\<rparr>"
  have nf: "fault E n = None" for n using calm by (simp add: calm_def)
  have "insert_inbox ?r d2 = Inr (1, ?d)"
    using fresh names(4,5) by (auto simp: insert_inbox_def inbox_key_def inbox_widths_def)
  then have reg: "\<exists>w1. Register (mpConsumerName cmd) (mpMessageID cmd) (mpRawPayload cmd) E (start_world d2) = Inr (False, w1)
      \<and> db w1 = ?d"
    by (simp add: Register_def Let_def start_world_def tx_bind_def tx_map_err_def sql_def nf tx_simps)
  then obtain w1 where w1: "Register (mpConsumerName cmd) (mpMessageID cmd) (mpRawPayload cmd) E (start_world d2) = Inr (False, w1)"
    "db w1 = ?d" by blast
  have "stored_for (mpCommand cmd) (db w1) = Some row" using st(1) by (simp add: w1(2) stored_for_def)
  from process_begin_stored [OF this contract, of E] nf st(2)
  have "\<exists>w2. ProcessTx (mpCommand cmd) E w1 = Inr (res, w2) \<and> db w2 = ?d"
    by (simp add: ProcessTx_def tx_simps w1(2))
  then obtain w2 where w2: "ProcessTx (mpCommand cmd) E w1 = Inr (res, w2)" "db w2 = ?d" by blast
  from Complete_fresh [OF fresh _ _ calm w2(2)] obtain w3 where
    w3: "Complete (mpConsumerName cmd) (mpMessageID cmd) E w2 = Inr ((), w3)"
    "db w3 = d2\<lparr>inbox_messages := inbox_messages d2 @ [?r\<lparr>i_completed_at := Some (db_now E)\<rparr>]\<rparr>"
    by (auto simp: inbox_key_def)
  have "message_tx cmd E (start_world d2) =
      Inr (\<lparr>mrResult = res, mrInboxReplay = False, mrIdempotentReplay = resIdempotentReplay res\<rparr>, w3)"
    by (simp add: message_tx_def tx_bind_def tx_map_err_def tx_return_def w1(1) w2(1) w3(1))
  with w3(2) names calm show ?thesis
    by (auto simp: MessageProcessor_Process_def run_tx_def message_commit_def calm_def start_world_def)
qed

lemma queue_after_http:
  assumes http: "serve_http H r d m = (res, d', m')" "process_endpoint r" "provider_request H r p" "rsBody res = ProcessBody b"
      "wager_checks_request H \<lparr>ClientID = p\<rparr> r = Inr cmd"
    and later: "extends_history d' d2" "schema_ok d2"
    and message: "command_of message = Some (body, command)" "msgReceiptHandle message = Some h" "delete h = None"
    and same: "cmdRequest (command_in body command) = cmdRequest cmd"
      "wdIdempotencyKey (cmData (dcMessage command)) = cmdIdempotencyKey cmd"
    and fresh: "\<forall>x \<in> set (inbox_messages d2). \<not> inbox_key defaultConsumerName (cmMessageID (dcMessage command)) x"
      "characters (cmMessageID (dcMessage command)) \<le> 255"
    and env: "uuid_String (es 0) = uuid_String (hService H)" "calm (es 0)"
      "receiveErr ctx AfterReceive = None" "receiveErr ctx (BeforeMessage 0) = None"
  shows "\<exists>row m3. consume (Inr [message]) delete ctx es d2 m2 =
     ((1, None), [DeleteMessage h], d2\<lparr>inbox_messages := inbox_messages d2 @ [row]\<rparr>, m3)"
proof -
  let ?mc = "consumer_command body command"
  from http obtain result where run: "Service_Process (hService H) cmd (start_world d) m = (Inr result, d', m')"
    by (elim process_success) auto
  then obtain w' where tx: "ProcessTx cmd (hService H) (start_world d) = Inr (result, w')" and d': "d' = db w'"
    by (elim Service_Process_Inr)
  have key: "cmdIdempotencyKey (mpCommand ?mc) = cmdIdempotencyKey cmd"
    using same(2) by (simp add: consumer_command_def Let_def)
  from recorded_later [OF command_result_recorded [OF ProcessTx_result [OF tx]] later [unfolded d'] same(1) key env(1)]
  obtain row res2 where st: "stored_for (mpCommand ?mc) d2 = Some row"
    "replay_of (es 0) (PayloadHash (cmdRequest (mpCommand ?mc))) row = Inr res2" by blast
  have contract: "request_contract (cmdRequest (mpCommand ?mc))" using ProcessTx_contract [OF tx] same(1) by simp
  have body: "msgBody message = Some body" "decodeCommand body = Inr command"
    using message(1) by (auto simp: command_of_def split: option.splits sum.splits)
  have nonempty: "cmdIdempotencyKey (mpCommand ?mc) \<noteq> []" "cmMessageID (dcMessage command) \<noteq> []" "body \<noteq> []"
    using decodeCommand_named [OF body(2)] body(2)
    by (auto simp: decodeCommand_Inr command_checks_def Let_def consumer_command_def)
  from message_of_stored_command [OF st contract nonempty(1) _ _ _ _ _ _ env(2), of "recordRetry message m2"] fresh nonempty(2,3)
  obtain r' m3 where "MessageProcessor_Process (es 0) ?mc (start_world d2) (recordRetry message m2) =
     (Inr \<lparr>mrResult = res2, mrInboxReplay = False, mrIdempotentReplay = resIdempotentReplay res2\<rparr>,
      d2\<lparr>inbox_messages := inbox_messages d2 @ [r']\<rparr>, m3)"
    by (auto simp: consumer_command_def Let_def defaultConsumerName_def)
  then show ?thesis
    using body message(2,3) env(3,4)
    by (intro exI [of _ r'] exI [of _ m3]) (simp add: consume_def ConsumeOnceWithContexts_def processMessage_def Let_def)
qed

lemma http_after_queue:
  assumes http: "process_endpoint r" "provider_request H r p" "wager_checks_request H \<lparr>ClientID = p\<rparr> r = Inr cmd"
    and queue: "consume (Inr [message]) delete ctx es d m = (x, acts, d', m')" "DeleteMessage h \<in> set acts"
      "command_of message = Some (body, command)"
      "\<forall>x \<in> set (inbox_messages d). \<not> inbox_key defaultConsumerName (cmMessageID (dcMessage command)) x"
    and later: "extends_history d' d2" "schema_ok d2"
    and same: "cmdRequest (command_in body command) = cmdRequest cmd"
      "wdIdempotencyKey (cmData (dcMessage command)) = cmdIdempotencyKey cmd" and calm: "calm (hService H)"
  shows "\<exists>b m3. serve_http H r d2 m2 = (\<lparr>rsStatus = 200, rsBody = ProcessBody b\<rparr>, d2, m3) \<and> prIdempotentReplay b
     \<and> (\<exists>row \<in> set (own_rows p d2). t_idempotency_key row = Some (rqHeader r ''Idempotency-Key'') \<and> reports (hService H) row b)"
proof -
  let ?E = "hService H"
  have key: "cmdIdempotencyKey (command_in body command) = cmdIdempotencyKey cmd"
    using same(2) by (simp add: consumer_command_def Let_def)
  from first_delivery_carries_out [OF queue] carried_out_history [OF later(1)]
  have "carried_out cmd d2" and contract: "request_contract (cmdRequest cmd)"
    by (auto simp: carried_out_def key same(1))
  then obtain row where row: "row \<in> set (wager_transactions d2)"
      "idempotency_identity (reqProviderID (cmdRequest cmd)) (cmdIdempotencyKey cmd) row"
      "t_payload_hash row = Some (PayloadHash (cmdRequest cmd))"
    by (auto simp: carried_out_def)
  have "strings_TrimSpace [] = []" by (rule trim_plain; code_simp)
  moreover from http(3) have "strings_TrimSpace (rqHeader r ''Idempotency-Key'') \<noteq> []" by (rule wager_checks_Inr)
  ultimately have nonempty: "cmdIdempotencyKey cmd \<noteq> []" using wager_checks_provider [OF http(3)] by auto
  have st: "stored_for cmd (db (start_world d2)) = Some row"
    using find_identity [OF later(2) row(1,2)] by (simp add: stored_for_def)
  from process_begin_stored [OF st contract nonempty, of ?E] row(3) calm
  have "\<exists>w2. ProcessTx cmd ?E (start_world d2) = Inr (replay_result ?E row, w2) \<and> db w2 = d2"
    by (simp add: ProcessTx_def tx_simps replay_of_Inr [THEN iffD2] calm_def)
  then obtain m3 where run: "Service_Process ?E cmd (start_world d2) m2 = (Inr (replay_result ?E row), d2, m3)"
    using calm by (auto simp: Service_Process_def run_tx_def calm_def)
  let ?res = "process_response (replay_result ?E row)"
  obtain b where b: "?res = \<lparr>rsStatus = 200, rsBody = ProcessBody b\<rparr>" "prIdempotentReplay b"
    by (auto simp: process_response_def writeJSON_def statuses replay_result_def)
  have "serve_http H r d2 m2 = (?res, d2, m3)"
    using run by (simp add: serve_process [OF http(1,2)] WagerHandler_Process_def http(3))
  with b row replay_reports [of _ ?E row b] wager_checks_provider [OF http(3)] show ?thesis
    by (auto simp: own_rows_def idempotency_identity_def)
qed

text \<open>C14: a command sent over both channels takes effect once, whichever comes first. A request and a
  message carry the same command under the same idempotency key. If the request was answered with a
  transaction, then after any further operations the new message, with an id of at most 255 characters, is
  acknowledged, and of the whole database only the inbox changes: no balance, transaction, ledger entry
  or event. If the new message was run and deleted, then after any further operations the request is
  answered with 200 and the stored transaction, marked as a replay, and the database is not changed.
  Neither is assumed to succeed the second time: only that no statement fails there.\<close>

theorem both_channels_once:
  assumes http: "process_endpoint r" "provider_request H r p" "wager_checks_request H \<lparr>ClientID = p\<rparr> r = Inr cmd"
    and message: "command_of message = Some (body, command)" "msgReceiptHandle message = Some h"
    and same: "cmdRequest (command_in body command) = cmdRequest cmd"
      "wdIdempotencyKey (cmData (dcMessage command)) = cmdIdempotencyKey cmd"
    and later: "extends_history d' d2" "schema_ok d2"
  shows "(serve_http H r d m = (res, d', m') \<and> rsBody res = ProcessBody b0
      \<and> (\<forall>x \<in> set (inbox_messages d2). \<not> inbox_key defaultConsumerName (cmMessageID (dcMessage command)) x)
      \<and> characters (cmMessageID (dcMessage command)) \<le> 255 \<and> delete h = None
      \<and> uuid_String (es 0) = uuid_String (hService H) \<and> calm (es 0)
      \<and> receiveErr ctx AfterReceive = None \<and> receiveErr ctx (BeforeMessage 0) = None
    \<longrightarrow> (\<exists>row m3. consume (Inr [message]) delete ctx es d2 m2 =
           ((1, None), [DeleteMessage h], d2\<lparr>inbox_messages := inbox_messages d2 @ [row]\<rparr>, m3)))
   \<and> (consume (Inr [message]) delete ctx es d m = (x, acts, d', m') \<and> DeleteMessage h \<in> set acts
      \<and> (\<forall>x \<in> set (inbox_messages d). \<not> inbox_key defaultConsumerName (cmMessageID (dcMessage command)) x)
      \<and> calm (hService H)
    \<longrightarrow> (\<exists>b m3. serve_http H r d2 m2 = (\<lparr>rsStatus = 200, rsBody = ProcessBody b\<rparr>, d2, m3) \<and> prIdempotentReplay b
           \<and> (\<exists>row \<in> set (own_rows p d2). t_idempotency_key row = Some (rqHeader r ''Idempotency-Key'')
                \<and> reports (hService H) row b)))"
proof (intro conjI impI; elim conjE)
  assume a: "serve_http H r d m = (res, d', m')" "rsBody res = ProcessBody b0"
    "\<forall>x \<in> set (inbox_messages d2). \<not> inbox_key defaultConsumerName (cmMessageID (dcMessage command)) x"
    "characters (cmMessageID (dcMessage command)) \<le> 255" "delete h = None"
    "uuid_String (es 0) = uuid_String (hService H)" "calm (es 0)"
    "receiveErr ctx AfterReceive = None" "receiveErr ctx (BeforeMessage 0) = None"
  show "\<exists>row m3. consume (Inr [message]) delete ctx es d2 m2 =
      ((1, None), [DeleteMessage h], d2\<lparr>inbox_messages := inbox_messages d2 @ [row]\<rparr>, m3)"
    by (rule queue_after_http [where delete = delete and es = es, OF a(1) http(1,2) a(2) http(3) later message a(5) same a(3,4,6-9)])
next
  assume a: "consume (Inr [message]) delete ctx es d m = (x, acts, d', m')" "DeleteMessage h \<in> set acts"
    "\<forall>x \<in> set (inbox_messages d). \<not> inbox_key defaultConsumerName (cmMessageID (dcMessage command)) x"
    "calm (hService H)"
  show "\<exists>b m3. serve_http H r d2 m2 = (\<lparr>rsStatus = 200, rsBody = ProcessBody b\<rparr>, d2, m3) \<and> prIdempotentReplay b
      \<and> (\<exists>row \<in> set (own_rows p d2). t_idempotency_key row = Some (rqHeader r ''Idempotency-Key'')
           \<and> reports (hService H) row b)"
    by (rule http_after_queue [OF http a(1,2) message(1) a(3) later same a(4)])
qed

section \<open>The win of the small history, sent again as a message\<close>

definition demo_a_decoded :: decodedCommand where
  "demo_a_decoded =
     \<lparr>dcMessage = \<lparr>cmMessageID = ''n'', cmType = ''WagerTransactionRequested'', cmOccurredAt = ''2025-01-02T03:04:05Z'',
        cmData =
          \<lparr>wdIdempotencyKey = ''w'', wdProviderID = ''provider-a'', wdExternalTransactionID = ''w'', wdPlayerID = ''a'',
           wdWalletID = ''100'', wdRoundID = ''r'', wdGameID = ''g'', wdKind = WagerKindWin,
           wdMoney = \<lparr>dtoAmount = ''50.00'', dtoCurrency = BRL\<rparr>, wdReferenceExternalTransactionID = []\<rparr>\<rparr>,
      dcMoney = NewMoney 5000 BRL\<rparr>"

definition demo_a_body :: string where
  "demo_a_body = print (PObject
     [(''messageId'', PString ''n''), (''type'', PString ''WagerTransactionRequested''),
      (''occurredAt'', PString ''2025-01-02T03:04:05Z''),
      (''data'', PObject
        [(''idempotencyKey'', PString ''w''), (''providerId'', PString ''provider-a''), (''externalTransactionId'', PString ''w''),
         (''playerId'', PString ''a''), (''walletId'', PString ''100''), (''roundId'', PString ''r''),
         (''gameId'', PString ''g''), (''kind'', PString ''WIN''),
         (''money'', PObject [(''amount'', PString ''50.00''), (''currency'', PString ''BRL'')])])])"

lemma demo_a_decode: "decodeCommand demo_a_body = Inr demo_a_decoded"
proof -
  have "Unmarshal message_fields demo_a_body zero_CommandMessage = Some (dcMessage demo_a_decoded)"
    by (simp add: demo_a_body_def demo_a_decoded_def decode_evals BRL_def WagerKindWin_def
        del: print.simps json_escape.simps unquote.simps)
  moreover have "money_text ''50.00'' ''50'' ''00''" by (simp add: money_text_def allDigits_def digit_eval)
  from ParseMoney_text [OF this, of BRL] have "ParseMoney ''50.00'' BRL = Inr (NewMoney 5000 BRL)"
    by (simp add: read_nat_def digit_eval)
  ultimately show ?thesis
    unfolding decodeCommand_Inr
    using demo_times by (simp add: demo_a_decoded_def command_checks_def wagerTransactionRequestedType_def BRL_def WagerKindWin_def)
qed

definition demo_a_message :: sqs_message where
  "demo_a_message = \<lparr>msgMessageId = None, msgReceiptHandle = Some ''h'', msgBody = Some demo_a_body, msgAttributes = (\<lambda>_. [])\<rparr>"

text \<open>The message, run first.\<close>

lemma demo_a_run:
  "\<exists>r d' m'. MessageProcessor_Process (demo_env 2) (consumer_command demo_a_body demo_a_decoded) (start_world demo_db1) m
     = (Inr r, d', m')"
  using decodeCommand_named [OF demo_a_decode]
  by (simp add: MessageProcessor_Process_def message_tx_def Register_def Complete_def insert_inbox_def inbox_widths_def update_inbox_def
      inbox_key_def message_commit_def consumer_command_def defaultConsumerName_def demo_a_decoded_def
      process_evals demo_rows table_evals tx_evals wallet_evals)

lemma demo_a_consumed:
  obtains d' m' where "consume (Inr [demo_a_message]) (\<lambda>_. None) live (\<lambda>_. demo_env 2) demo_db1 m
      = ((1, None), [DeleteMessage ''h''], d', m')" "schema_ok d'"
proof -
  obtain r d' m' where "MessageProcessor_Process (demo_env 2) (consumer_command demo_a_body demo_a_decoded) (start_world demo_db1)
      (recordRetry demo_a_message m) = (Inr r, d', m')"
    using demo_a_run by blast
  then have run: "consume (Inr [demo_a_message]) (\<lambda>_. None) live (\<lambda>_. demo_env 2) demo_db1 m
      = ((1, None), [DeleteMessage ''h''], d', m')"
    by (simp add: consume_def ConsumeOnceWithContexts_def live_def demo_a_message_def processMessage_def demo_a_decode Let_def)
  moreover have "schema_ok d'" using consume_schema [OF run demo_db1_ok] demo_laws by blast
  ultimately show thesis by (rule that)
qed

lemma demo_a_same:
  "command_of demo_a_message = Some (demo_a_body, demo_a_decoded)" "msgReceiptHandle demo_a_message = Some ''h''"
  "cmdRequest (command_in demo_a_body demo_a_decoded) = cmdRequest demo_a_win"
  "wdIdempotencyKey (cmData (dcMessage demo_a_decoded)) = cmdIdempotencyKey demo_a_win"
  by (simp_all add: command_of_def demo_a_message_def demo_a_decode)
    (simp_all add: consumer_command_def demo_a_decoded_def demo_a_win_def)

text \<open>Once over HTTP first, once over the queue first.\<close>

lemma both_channels_once_witness:
  "(\<exists>b d' m' row m3. serve_http (demo_http 2) demo_win_request demo_db1 NewMetrics = (\<lparr>rsStatus = 201, rsBody = ProcessBody b\<rparr>, d', m')
     \<and> consume (Inr [demo_a_message]) (\<lambda>_. None) live (\<lambda>_. demo_env 5) d' m' =
         ((1, None), [DeleteMessage ''h''], d'\<lparr>inbox_messages := inbox_messages d' @ [row]\<rparr>, m3))
   \<and> (\<exists>d' m' b m3. consume (Inr [demo_a_message]) (\<lambda>_. None) live (\<lambda>_. demo_env 2) demo_db1 NewMetrics =
         ((1, None), [DeleteMessage ''h''], d', m')
     \<and> serve_http (demo_http 5) demo_win_request d' m' = (\<lparr>rsStatus = 200, rsBody = ProcessBody b\<rparr>, d', m3)
     \<and> prIdempotentReplay b)"
proof -
  note once = both_channels_once [OF demo_requests(2,4) demo_win_checked demo_a_same extends_history_refl]
  obtain b result d' m' where run: "serve_http (demo_http 2) demo_win_request demo_db1 NewMetrics =
      (\<lparr>rsStatus = 201, rsBody = ProcessBody b\<rparr>, d', m')"
    and srv: "Service_Process (demo_env 2) demo_a_win (start_world demo_db1) NewMetrics = (Inr result, d', m')"
    and inbox: "inbox_messages d' = []"
    by (rule demo_serve_win)
  have "characters (cmMessageID (dcMessage demo_a_decoded)) \<le> 255" by (simp add: demo_a_decoded_def)
  with once [OF demo_win_ok [OF srv], of 2 demo_db1 NewMetrics "\<lparr>rsStatus = 201, rsBody = ProcessBody b\<rparr>" m' b "\<lambda>_. None"
      "\<lambda>_. demo_env 5" live m'] run inbox
  have http_first: "\<exists>row m3. consume (Inr [demo_a_message]) (\<lambda>_. None) live (\<lambda>_. demo_env 5) d' m' =
         ((1, None), [DeleteMessage ''h''], d'\<lparr>inbox_messages := inbox_messages d' @ [row]\<rparr>, m3)"
    by (simp add: live_def demo_calm demo_uuid_texts)
  obtain d1 m1 where first: "consume (Inr [demo_a_message]) (\<lambda>_. None) live (\<lambda>_. demo_env 2) demo_db1 NewMetrics
      = ((1, None), [DeleteMessage ''h''], d1, m1)" and ok: "schema_ok d1"
    by (rule demo_a_consumed)
  have "inbox_messages demo_db1 = []" by (simp add: demo_rows empty_database_def)
  then have "\<exists>b m3. serve_http (demo_http 5) demo_win_request d1 m1 = (\<lparr>rsStatus = 200, rsBody = ProcessBody b\<rparr>, d1, m3)
      \<and> prIdempotentReplay b \<and> (\<exists>row \<in> set (own_rows ''provider-a'' d1).
          t_idempotency_key row = Some (rqHeader demo_win_request ''Idempotency-Key'') \<and> reports (hService (demo_http 5)) row b)"
    using first by (intro both_channels_once [where d = demo_db1 and m = NewMetrics and x = "(1, None)"
        and acts = "[DeleteMessage ''h'']" and delete = "\<lambda>_. None" and es = "\<lambda>_. demo_env 2" and ctx = live,
        OF demo_requests(2,4) demo_win_checked demo_a_same extends_history_refl ok, THEN conjunct2, THEN mp])
      (simp add: demo_calm)
  with first run http_first show ?thesis by blast
qed

end
