(* ===== verification/Resolver_Properties.thy ===== *)
theory Resolver_Properties
  imports Scenario
begin

text \<open>
  What one pass of \<^verbatim>\<open>PendingReferenceResolver.ResolveOne\<close> guarantees: the decision it takes,
  that an expired transaction never moves money, and when a retry happens.
\<close>

section \<open>One pass\<close>

lemma pending_requires:
  assumes ok: "schema_ok d" and pr: "pending_of E d r p" and ref: "reqReferenceExternalTransactionID (pnRequest p) \<noteq> []"
  shows "requiresReferenceResolution (pnRequest p)"
proof -
  have r: "r \<in> set (wager_transactions d)" using pr by (simp add: pending_of_def)
  have "t_kind r \<noteq> KindOpening" using pending_kind [OF ok pr] by simp
  with wager_row_checks(3) [OF ok r] scan_pending_Inr [of E r p] pr ref show ?thesis
    by (auto simp: pending_of_def reference_applicability_def requiresReferenceResolution_def coalesce_def)
qed

lemma resolve_pending_result:
  assumes run: "resolve_pending p E w = Inr (out, w')"
    and ok: "schema_ok (db w)" and pr: "pending_of E (db w) r p"
  shows "\<exists>wallet now. wallet_of E (reqWalletID (pnRequest p)) (db w) wallet \<and> now = time_now E (now_count w)
    \<and> resolved E p wallet now
        (if is_expired p now then Refuse ''REFERENCE_EXPIRED'' None
         else verdict E (pnRequest p) (Balance wallet) (db w)) (db w) out (db w')"
proof -
  define v where "v = w\<lparr>stmt_count := Suc (stmt_count w), now_count := Suc (now_count w)\<rparr>"
  then have v: "db v = db w" by simp
  define now where now: "now = time_now E (now_count w)"
  from run obtain wallet x where x: "x \<in> set (wallets (db w))"
      "pg_uuid_in E (reqWalletID (pnRequest p)) = Some (w_id x)" "scan_wallet E x = Inr wallet"
    and k: "(if is_expired p now
      then reject_and_commit ''commit expired pending reference'' p wallet ''REFERENCE_EXPIRED'' now None
      else resolve_reference p wallet now) E v = Inr (out, w')"
    unfolding resolve_pending_def v_def now by (elim tx_bindE lockWalletE time_NowE) auto
  have wal: "wallet_of E (reqWalletID (pnRequest p)) (db w) wallet" using x by (auto simp: wallet_of_def)
  show ?thesis
  proof (cases "is_expired p now")
    case True
    then have "reject_and_commit ''commit expired pending reference'' p wallet ''REFERENCE_EXPIRED'' now None E v = Inr (out, w')"
      using k by simp
    from reject_outcome [OF this] True wal now v show ?thesis by (auto simp: resolved_def)
  next
    case False
    then have run: "resolve_reference p wallet now E v = Inr (out, w')" using k by simp
    then have "reqReferenceExternalTransactionID (pnRequest p) \<noteq> []"
      unfolding resolve_reference_def by (elim tx_bindE findReferencedTransactionE)
    from resolve_reference_verdict [OF run refl pending_requires [OF ok pr this]] False wal now v
    show ?thesis by auto
  qed
qed

text \<open>A pass over the database \<open>d\<close> with outcome \<open>out\<close>.\<close>

definition resolver_pass :: "env \<Rightarrow> world \<Rightarrow> resolve_outcome \<Rightarrow> database \<Rightarrow> bool" where
  "resolver_pass E w out d' \<longleftrightarrow>
     (case due_row E (db w) of
        None \<Rightarrow> out = NothingDue \<and> d' = db w
      | Some r \<Rightarrow> \<exists>p wallet now. scan_pending E r = Inr p \<and> now = time_now E (now_count w)
          \<and> wallet_of E (reqWalletID (pnRequest p)) (db w) wallet
          \<and> resolved E p wallet now
              (if is_expired p now then Refuse ''REFERENCE_EXPIRED'' None
               else verdict E (pnRequest p) (Balance wallet) (db w)) (db w) out d')"

lemma resolve_tx_result:
  assumes run: "resolve_tx E w = Inr (out, w')" and ok: "schema_ok (db w)"
  shows "resolver_pass E w out (db w')"
proof -
  from run consider "due_row E (db w) = None" "out = NothingDue" "db w' = db w"
    | r p v where "v = w\<lparr>stmt_count := Suc (stmt_count w)\<rparr>" "due_row E (db w) = Some r" "scan_pending E r = Inr p"
        "resolve_pending p E v = Inr (out, w')"
    unfolding resolve_tx_def findDuePendingReference_def
    by (auto elim!: tx_bindE sql_readE tx_returnE simp: res_bind_eq_Inr split: option.splits)
  then show ?thesis
  proof cases
    case (2 r p v)
    have "pending_of E (db v) r p"
      using due_row_pending [OF 2(2)] 2(1,3) by (simp add: pending_of_def is_due_def)
    with resolve_pending_result [OF 2(4), of r] ok 2 show ?thesis by (auto simp: resolver_pass_def)
  qed (simp add: resolver_pass_def)
qed

lemma resolved_not_nothing: "resolved E p wallet now v d out d' \<Longrightarrow> out \<noteq> NothingDue"
  by (auto simp: resolved_def retry_outcome_def refused_outcome_def resolved_outcome_def split: verdict.splits)

lemma ResolveOne_pass:
  assumes run: "ResolveOne E w m = (Inr b, d', m')" and ok: "schema_ok (db w)"
  shows "\<exists>out. resolver_pass E w out d' \<and> b = (out \<noteq> NothingDue) \<and> m' = resolve_metrics out m"
proof -
  from run obtain out where r: "run_tx E ''begin pending reference transaction'' resolve_commit resolve_tx w = (Inr out, d')"
    and b: "b = (out \<noteq> NothingDue)" "m' = resolve_metrics out m"
    by (auto simp: ResolveOne_def split: prod.splits sum.splits)
  from run_tx_Inr [OF r] obtain w' where w': "resolve_tx E w = Inr (out, w')"
    and d': "d' = (if resolve_commit out = None then db w else db w')" by blast
  from resolve_tx_result [OF w' ok] have pass: "resolver_pass E w out (db w')" .
  then have "resolve_commit out = None \<Longrightarrow> db w' = db w"
    by (cases out) (auto simp: resolver_pass_def dest: resolved_not_nothing split: option.splits)
  then have "d' = db w'" using d' by auto
  with pass b show ?thesis by blast
qed

section \<open>Properties\<close>

text \<open>C10: the resolver takes the decision of the synchronous handler. A pass that succeeds on the
  oldest due pending transaction rejects it without a movement when it expired; otherwise it applies
  the same \<open>verdict\<close> function of request, balance and stored transactions as \<open>Service.Process\<close>:
  rescheduled, refused with its failure code, or settled with its signed change, with rows, ledger
  entry and events of that outcome. With nothing due it changes nothing.\<close>

theorem ResolveOne_decides:
  assumes "ResolveOne E w m = (Inr b, d', m')" "schema_ok (db w)"
  shows "\<exists>out. resolver_pass E w out d' \<and> b = (out \<noteq> NothingDue) \<and> m' = resolve_metrics out m"
  using assms by (rule ResolveOne_pass)

text \<open>The pending REFUND of the history, found unknown again and later expired.\<close>

lemma demo_retry:
  "\<exists>d'. ResolveOne (demo_env 6000) (start_world demo_db4) m = (Inr True, d', m)"
  by (simp add: ResolveOne_def resolve_tx_def resolve_pending_def findDuePendingReference_def due_row_def is_due_def
      scan_pending_def is_expired_def resolve_reference_def schedulePendingReferenceRetry_def exec_update_pending_def
      update_pending_def is_pending_def reschedule_row_def
      process_evals demo_rows table_evals tx_evals wallet_evals)

lemma is_expired_of: "pnReferenceExpiresAt p = Some e \<Longrightarrow> is_expired p now \<longleftrightarrow> e \<le> now"
  by (auto simp: is_expired_def)

text \<open>C8: the time to live is terminal. A pass over a pending transaction whose expiry has been
  reached never moves money: no balance and no ledger entry changes, even when its reference has
  arrived meanwhile; the row becomes REJECTED with \<^verbatim>\<open>REFERENCE_EXPIRED\<close>, the rejection is counted
  and announced by one event.\<close>

theorem expired_never_moves_money:
  assumes run: "ResolveOne E w m = (Inr b, d', m')" and ok: "schema_ok (db w)"
    and due: "due_row E (db w) = Some r" and ttl: "t_reference_expires_at r = Some e" "e \<le> time_now E (now_count w)"
  shows "wallets d' = wallets (db w) \<and> ledger_entries d' = ledger_entries (db w)
    \<and> (\<exists>r' \<in> set (wager_transactions d'). t_id r' = t_id r \<and> t_state r' = WagerStateRejected
         \<and> t_failure_code r' = Some ''REFERENCE_EXPIRED'')
    \<and> length (outbox_events d') = Suc (length (outbox_events (db w))) \<and> m' = IncWagersRejected m"
proof -
  from ResolveOne_pass [OF run ok] obtain out where pass: "resolver_pass E w out d'" and m': "m' = resolve_metrics out m"
    by blast
  from pass due obtain p wallet now where p: "scan_pending E r = Inr p" and now: "now = time_now E (now_count w)"
    and res: "resolved E p wallet now
        (if is_expired p now then Refuse ''REFERENCE_EXPIRED'' None
         else verdict E (pnRequest p) (Balance wallet) (db w)) (db w) out d'"
    by (auto simp: resolver_pass_def)
  note s = scan_pending_Inr [OF p]
  have "is_expired p now" using s ttl now by (simp add: is_expired_of)
  with res have ref: "refused_outcome E p wallet now ''REFERENCE_EXPIRED'' None (db w) out d'"
    by (simp add: resolved_def)
  have "r \<in> set (wager_transactions (db w))" "is_pending (pnID p) r"
    using due_row_pending [OF due] s by (simp_all add: is_due_def is_pending_def)
  then have "reject_row ''REFERENCE_EXPIRED'' (amount (Balance wallet)) None now r \<in> set (wager_transactions d')"
    using ref by (auto simp: refused_outcome_def set_update_rows)
  then have "\<exists>r' \<in> set (wager_transactions d'). t_id r' = t_id r \<and> t_state r' = WagerStateRejected
      \<and> t_failure_code r' = Some ''REFERENCE_EXPIRED''"
    by (rule bexI [rotated]) (simp add: reject_row_def)
  with ref m' show ?thesis by (auto simp: refused_outcome_def)
qed

lemmas resolver_evals = ResolveOne_def resolve_tx_def resolve_pending_def findDuePendingReference_def due_row_def is_due_def
  scan_pending_def is_expired_def resolve_reference_def schedulePendingReferenceRetry_def exec_update_pending_def
  reject_and_commit_def rejectPendingReference_def reject_row_def
  update_pending_def is_pending_def reschedule_row_def

lemma demo_expired:
  "\<exists>d'. ResolveOne (demo_env 400000) (start_world demo_db4) m = (Inr True, d', IncWagersRejected m)"
  by (simp add: resolver_evals process_evals demo_rows table_evals tx_evals wallet_evals)

lemma demo_due: "due_row (demo_env 400000) demo_db4 = Some demo_pending_row"
  by (simp add: due_row_def is_due_def demo_rows command_row_def)

lemma expired_never_moves_money_witness:
  "\<exists>d' m'. ResolveOne (demo_env 400000) (start_world demo_db4) NewMetrics = (Inr True, d', m')
     \<and> wallets d' = wallets demo_db4 \<and> ledger_entries d' = ledger_entries demo_db4"
proof -
  obtain d' where d': "ResolveOne (demo_env 400000) (start_world demo_db4) NewMetrics = (Inr True, d', IncWagersRejected NewMetrics)"
    using demo_expired by blast
  have "t_reference_expires_at demo_pending_row = Some 300004000" by (simp add: demo_pending_row_def)
  from expired_never_moves_money [OF d' _ _ this] demo_schema demo_due d' show ?thesis
    by (simp add: start_world_def)
qed

lemma ResolveOne_decides_witness:
  "\<exists>out d'. resolver_pass (demo_env 6000) (start_world demo_db4) out d' \<and> out \<noteq> NothingDue"
  using demo_retry [of NewMetrics] ResolveOne_decides [of "demo_env 6000" "start_world demo_db4" NewMetrics True]
    demo_schema by fastforce

text \<open>A retry of a pending transaction that has not expired is scheduled strictly later than
  now, within 60 seconds, not after its expiry, and not before the earlier of its expiry and 5 seconds
  from now; only that row changes, by one more attempt.\<close>

theorem retry_within_time_to_live:
  assumes run: "schedulePendingReferenceRetry p now E w = Inr (x, w')" and "\<not> is_expired p now"
  shows "\<exists>t. now < t \<and> t \<le> now + Minute
     \<and> (case pnReferenceExpiresAt p of None \<Rightarrow> now + 5 * Second \<le> t | Some e \<Rightarrow> t \<le> e \<and> min e (now + 5 * Second) \<le> t)
     \<and> db w' = (db w)\<lparr>wager_transactions := update_rows (is_pending (pnID p))
          (reschedule_row (pnReferenceAttempts p + 1) t now) (wager_transactions (db w))\<rparr>"
proof (rule exI [of _ "retry_at p now"], intro conjI)
  let ?b = "referenceRetryBackoff (pnReferenceAttempts p + 1)"
  have b: "5 * Second \<le> ?b" "?b \<le> Minute"
    using reference_backoff.lower [of "pnReferenceAttempts p + 1"] reference_backoff.upper [of "pnReferenceAttempts p + 1"]
    by (simp_all add: referenceRetryDelay_def maxReferenceRetryDelay_def)
  have s: "0 < Second" by (simp add: Second_def)
  show "now < retry_at p now" "retry_at p now \<le> now + Minute"
    "case pnReferenceExpiresAt p of None \<Rightarrow> now + 5 * Second \<le> retry_at p now
       | Some e \<Rightarrow> retry_at p now \<le> e \<and> min e (now + 5 * Second) \<le> retry_at p now"
    using b s assms(2) by (auto simp: retry_at_def Let_def is_expired_def split: option.splits)
  have "tx_bind (schedulePendingReferenceRetry p now) (\<lambda>_. tx_return (RetryScheduled [])) E w = Inr (RetryScheduled [], w')"
    using run by (simp add: tx_bind_Inr tx_simps)
  from schedule_outcome [OF this]
  show "db w' = (db w)\<lparr>wager_transactions := update_rows (is_pending (pnID p))
          (reschedule_row (pnReferenceAttempts p + 1) (retry_at p now) now) (wager_transactions (db w))\<rparr>"
    by (simp add: retry_outcome_def)
qed

definition demo_pending :: pendingReferenceTransaction where
  "demo_pending = \<lparr>pnID = 400, pnRequest = cmdRequest demo_refund, pnReferenceAttempts = 0,
     pnReferenceExpiresAt = Some 300004000, pnCorrelationID = ''c'', pnCausationID = []\<rparr>"

lemma retry_within_time_to_live_witness:
  "\<exists>w' t. schedulePendingReferenceRetry demo_pending 6000000 (demo_env 6000) (start_world demo_db4) = Inr ((), w')
     \<and> 6000000 < t \<and> t \<le> 6000000 + Minute"
proof -
  have "\<exists>w'. schedulePendingReferenceRetry demo_pending 6000000 (demo_env 6000) (start_world demo_db4) = Inr ((), w')"
    by (simp add: resolver_evals process_evals demo_pending_def demo_rows table_evals tx_evals wallet_evals)
  moreover have "\<not> is_expired demo_pending 6000000" by (simp add: is_expired_def demo_pending_def)
  ultimately show ?thesis using retry_within_time_to_live by blast
qed

end
