(* ===== verification/Announcements.thy ===== *)
theory Announcements
  imports "HOL-Library.Multiset" Command_Properties Resolver_Properties Wallet_Properties
begin

text \<open>
  The transactional outbox: the stored events and the stored facts never drift apart. The
  \<^verbatim>\<open>WalletBalanceChanged\<close> events are the ledger, entry by entry and in its order, and the
  transactions announced as processed or rejected are the processed and the rejected ones, each
  announced once.
\<close>

section \<open>The correspondence\<close>

text \<open>Events carry UUIDs as texts; they name what the database reads from them: \<open>R\<close> is its \<^verbatim>\<open>uuid\<close> input.\<close>

definition of_type :: "string \<Rightarrow> outbox_row \<Rightarrow> bool" where
  "of_type T e \<longleftrightarrow> o_event_type e = T"

abbreviation balance_changed :: string where "balance_changed \<equiv> ''WalletBalanceChanged''"
abbreviation processed_type :: string where "processed_type \<equiv> ''WagerTransactionProcessed''"
abbreviation rejected_type :: string where "rejected_type \<equiv> ''WagerTransactionRejected''"

definition tells_amount :: "event_money \<Rightarrow> int64 \<Rightarrow> bool" where
  "tells_amount e a \<longleftrightarrow> e = eventpayload_NewMoney (NewMoney a (evCurrency e))"

definition announces :: "(string \<Rightarrow> uuid option) \<Rightarrow> outbox_row \<Rightarrow> ledger_row \<Rightarrow> bool" where
  "announces R e l \<longleftrightarrow>
     o_occurred_at e = l_created_at l
     \<and> (\<exists>b. Data (o_payload e) = BalanceChangedData b
          \<and> R (bdTransactionID b) = Some (l_transaction_id l)
          \<and> R (bdWalletID b) = Some (l_wallet_id l)
          \<and> bdDirection b = l_direction l
          \<and> tells_amount (bdMoney b) (l_amount l)
          \<and> tells_amount (bdBalanceBefore b) (l_balance_before l)
          \<and> tells_amount (bdBalanceAfter b) (l_balance_after l))"

definition names_transaction :: "(string \<Rightarrow> uuid option) \<Rightarrow> outbox_row \<Rightarrow> uuid \<Rightarrow> bool" where
  "names_transaction R e i \<longleftrightarrow>
     (case Data (o_payload e) of
        ProcessedData x \<Rightarrow> R (pdTransactionID x) = Some i
      | RejectedData x \<Rightarrow> R (rdTransactionID x) = Some i
      | _ \<Rightarrow> False)"

definition in_state :: "WagerState \<Rightarrow> database \<Rightarrow> uuid multiset" where
  "in_state S d = mset (map t_id (filter (\<lambda>r. t_state r = S) (wager_transactions d)))"

definition announced_as :: "(string \<Rightarrow> uuid option) \<Rightarrow> string \<Rightarrow> WagerState \<Rightarrow> database \<Rightarrow> bool" where
  "announced_as R T S d \<longleftrightarrow>
     (\<exists>ids. list_all2 (names_transaction R) (filter (of_type T) (outbox_events d)) ids \<and> mset ids = in_state S d)"

definition announced :: "(string \<Rightarrow> uuid option) \<Rightarrow> database \<Rightarrow> bool" where
  "announced R d \<longleftrightarrow>
     list_all2 (announces R) (filter (of_type balance_changed) (outbox_events d)) (ledger_entries d)
     \<and> announced_as R processed_type WagerStateProcessed d
     \<and> announced_as R rejected_type WagerStateRejected d"

section \<open>Steps that keep it\<close>

definition adds_named :: "(string \<Rightarrow> uuid option) \<Rightarrow> string \<Rightarrow> WagerState \<Rightarrow> outbox_row list \<Rightarrow> database \<Rightarrow> database \<Rightarrow> bool" where
  "adds_named R T S es d d' \<longleftrightarrow>
     (\<exists>ids. list_all2 (names_transaction R) (filter (of_type T) es) ids \<and> in_state S d' = in_state S d + mset ids)"

definition announcing :: "(string \<Rightarrow> uuid option) \<Rightarrow> database \<Rightarrow> database \<Rightarrow> bool" where
  "announcing R d d' \<longleftrightarrow>
     (\<exists>es ls. outbox_events d' = outbox_events d @ es \<and> ledger_entries d' = ledger_entries d @ ls
        \<and> list_all2 (announces R) (filter (of_type balance_changed) es) ls
        \<and> adds_named R processed_type WagerStateProcessed es d d'
        \<and> adds_named R rejected_type WagerStateRejected es d d')"

lemma announced_as_step:
  assumes "announced_as R T S d" "adds_named R T S es d d'" "outbox_events d' = outbox_events d @ es"
  shows "announced_as R T S d'"
proof -
  from assms(1,2) obtain ids ids' where
    "list_all2 (names_transaction R) (filter (of_type T) (outbox_events d)) ids" "mset ids = in_state S d"
    "list_all2 (names_transaction R) (filter (of_type T) es) ids'" "in_state S d' = in_state S d + mset ids'"
    by (auto simp: announced_as_def adds_named_def)
  with assms(3) show ?thesis
    unfolding announced_as_def by (intro exI [of _ "ids @ ids'"]) (simp add: list_all2_appendI)
qed

lemma announcing_keeps: "announcing R d d' \<Longrightarrow> announced R d \<Longrightarrow> announced R d'"
  by (auto simp: announcing_def announced_def list_all2_appendI intro: announced_as_step)

lemma announcingI:
  assumes "outbox_events d' = outbox_events d @ es" "ledger_entries d' = ledger_entries d @ ls"
    and "list_all2 (announces R) (filter (of_type balance_changed) es) ls"
    and "list_all2 (names_transaction R) (filter (of_type processed_type) es) ps"
    and "in_state WagerStateProcessed d' = in_state WagerStateProcessed d + mset ps"
    and "list_all2 (names_transaction R) (filter (of_type rejected_type) es) rs"
    and "in_state WagerStateRejected d' = in_state WagerStateRejected d + mset rs"
  shows "announcing R d d'"
  using assms unfolding announcing_def adds_named_def by blast

text \<open>Only three tables matter.\<close>

definition same_facts :: "database \<Rightarrow> database \<Rightarrow> bool" where
  "same_facts d d' \<longleftrightarrow> outbox_events d' = outbox_events d \<and> ledger_entries d' = ledger_entries d
     \<and> wager_transactions d' = wager_transactions d"

interpretation facts: tx_relation same_facts
  by unfold_locales (auto simp: same_facts_def)

lemma announcing_same_facts:
  "same_facts d1 d \<Longrightarrow> announcing R d d' \<Longrightarrow> same_facts d' d2 \<Longrightarrow> announcing R d1 d2"
  by (simp add: announcing_def same_facts_def adds_named_def in_state_def)

lemma announcing_refl: "announcing R d d"
  by (rule announcingI [where es = "[]" and ls = "[]" and ps = "[]" and rs = "[]"]) simp_all

lemma announcing_facts: "same_facts d d' \<Longrightarrow> announcing R d d'"
  by (rule announcing_same_facts [OF _ announcing_refl]) (auto simp: same_facts_def)

section \<open>What the operations announce\<close>

lemma outbox_row_of_simps [simp]:
  "of_type T (outbox_row_of e) \<longleftrightarrow> EventTypeValue e = T"
  "o_payload (outbox_row_of e) = e" "o_occurred_at (outbox_row_of e) = OccurredAtValue e"
  by (simp_all add: of_type_def outbox_row_of_def)

lemma tells_amount_of [simp]: "tells_amount (eventpayload_NewMoney m) a \<longleftrightarrow> Money_String m = Money_String (NewMoney a (currency m))"
  by (simp add: tells_amount_def eventpayload_NewMoney_def)

lemma Money_String_NewMoney [simp]: "Money_String (NewMoney (amount m) c) = Money_String m"
  by (simp add: Money_String_def NewMoney_def)

lemma processed_events_announce:
  assumes "reads R E" "pg_uuid_in E (ID wallet) = Some v" "kind \<noteq> WagerKindLoss"
  shows "list_all2 (announces R)
     (filter (of_type balance_changed) (map outbox_row_of (processed_events E tid kind wallet amt before dir c ca now eid eid2)))
     [\<lparr>l_id = lid, l_wallet_id = v, l_transaction_id = tid, l_direction = dir, l_amount = amount amt,
       l_balance_before = amount before, l_balance_after = amount (Balance wallet), l_created_at = now\<rparr>]"
  using assms readsD(2,3) [OF assms(1)]
  by (auto simp: processed_events_def event_defs announces_def)

lemma processed_events_named:
  assumes "reads R E"
  shows "list_all2 (names_transaction R)
     (filter (of_type processed_type) (map outbox_row_of (processed_events E tid kind wallet amt before dir c ca now eid eid2))) [tid]"
    "filter (of_type rejected_type) (map outbox_row_of (processed_events E tid kind wallet amt before dir c ca now eid eid2)) = []"
    "kind = WagerKindLoss \<Longrightarrow>
     filter (of_type balance_changed) (map outbox_row_of (processed_events E tid kind wallet amt before dir c ca now eid eid2)) = []"
  using assms readsD(3) [OF assms] by (auto simp: processed_events_def event_defs names_transaction_def)

lemma in_state_append:
  "wager_transactions d' = wager_transactions d @ [r] \<Longrightarrow>
     in_state S d' = in_state S d + mset (if t_state r = S then [t_id r] else [])"
  by (simp add: in_state_def)

lemma command_row_key [simp]: "t_id (command_row tid cmd h S now u) = tid" "t_state (command_row tid cmd h S now u) = S"
  by (simp_all add: command_row_def Let_def)

lemma states_differ [simp]:
  "WagerStateProcessed \<noteq> WagerStateRejected" "WagerStateRejected \<noteq> WagerStateProcessed"
  "WagerStatePendingReference \<noteq> WagerStateProcessed" "WagerStatePendingReference \<noteq> WagerStateRejected"
  by (simp_all add: WagerStateProcessed_def WagerStateRejected_def WagerStatePendingReference_def)

lemma rejected_announces:
  assumes "rejected_outcome E cmd h wallet f ref d res d'" "reads R E"
  shows "announcing R d d'"
proof -
  from assms(1) obtain tid eid now u where d': "d' = d\<lparr>wager_transactions := wager_transactions d @
              [(command_row tid cmd h WagerStateRejected now u)
                 \<lparr>t_referenced_transaction_id := ref, t_failure_code := Some f,
                  t_result_balance := Some (amount (Balance wallet))\<rparr>],
             outbox_events := outbox_events d @ [outbox_row_of (rejected_event E cmd (ID wallet) f tid eid now)]\<rparr>"
    by (auto simp: rejected_outcome_def)
  show ?thesis
    by (rule announcingI [where ls = "[]" and ps = "[]" and rs = "[tid]"
          and es = "[outbox_row_of (rejected_event E cmd (ID wallet) f tid eid now)]"])
      (use readsD(3) [OF assms(2)] assms(2) in
        \<open>auto simp: d' rejected_event_def event_defs names_transaction_def in_state_def\<close>)
qed

lemma pending_announces: "pending_outcome E cmd h bal d res d' \<Longrightarrow> announcing R d d'"
  unfolding pending_outcome_def
  by (elim exE conjE, rule announcingI [where ls = "[]" and ps = "[]" and rs = "[]"])
    (auto simp: pending_event_def event_defs in_state_def)

lemma processed_announces:
  assumes "processed_outcome E cmd h wallet' before ref dir d res d'" "reads R E"
  shows "announcing R d d'"
proof -
  let ?q = "cmdRequest cmd"
  let ?evs = "\<lambda>tid now eid eid2. map outbox_row_of (processed_events E tid (reqKind ?q) wallet' (reqAmount ?q) before dir
      (cmdCorrelationID cmd) (cmdCausationID cmd) now eid eid2)"
  from assms(1) obtain tid eid eid2 lid now u where
      tx: "wager_transactions d' = wager_transactions d @ [(command_row tid cmd h WagerStateProcessed now u)
              \<lparr>t_referenced_transaction_id := ref, t_result_balance := Some (amount (Balance wallet'))\<rparr>]"
    and ev: "outbox_events d' = outbox_events d @ ?evs tid now eid eid2"
    and mv: "if reqKind ?q = WagerKindLoss
           then wallets d' = wallets d \<and> ledger_entries d' = ledger_entries d
           else \<exists>v. pg_uuid_in E (ID wallet') = Some v
             \<and> wallets d' = update_rows (\<lambda>x. w_id x = v)
                 (\<lambda>x. x\<lparr>w_balance := amount (Balance wallet'), w_version := Version wallet', w_updated_at := now\<rparr>) (wallets d)
             \<and> ledger_entries d' = ledger_entries d @
                 [\<lparr>l_id = lid, l_wallet_id = v, l_transaction_id = tid, l_direction = dir,
                   l_amount = amount (reqAmount ?q), l_balance_before = amount before,
                   l_balance_after = amount (Balance wallet'), l_created_at = now\<rparr>]"
    unfolding processed_outcome_def Let_def by blast
  obtain ls where ls: "ledger_entries d' = ledger_entries d @ ls"
      "list_all2 (announces R) (filter (of_type balance_changed) (?evs tid now eid eid2)) ls"
    using mv processed_events_announce [OF assms(2)] processed_events_named(3) [OF assms(2)]
    by (metis append_Nil2 list_all2_Nil)
  have "in_state S d' = in_state S d + mset (if S = WagerStateProcessed then [tid] else [])" for S
    using in_state_append [OF tx, of S] by auto
  then show ?thesis
    using ev ls processed_events_named(1,2) [OF assms(2)]
    by (intro announcingI [where ps = "[tid]" and rs = "[]"]) auto
qed

lemma decided_announces:
  "decided E cmd h wallet v d res d' \<Longrightarrow> reads R E \<Longrightarrow> announcing R d d'"
  by (auto simp: decided_def split: verdict.splits intro: rejected_announces pending_announces processed_announces)

lemma command_announces: "command_result E cmd d res d' \<Longrightarrow> reads R E \<Longrightarrow> announcing R d d'"
  by (auto simp: command_result_def new_decision_def announcing_refl decided_announces split: option.splits)

text \<open>The resolver changes one row in place.\<close>

lemma transaction_ids_distinct: "schema_ok d \<Longrightarrow> distinct (map t_id (wager_transactions d))"
  using schema_tables(2) [of d]
  by (intro conflict_free_distinct) (auto simp: table_ok_def unique_violation_None wager_uniques_def split: if_splits)

lemma in_state_update:
  assumes "distinct (map t_id (wager_transactions d))" "r \<in> set (wager_transactions d)" "t_state r = WagerStatePendingReference"
    and "\<And>x. t_id (f x) = t_id x" "\<And>x. t_state (f x) = S'" "S \<noteq> WagerStatePendingReference"
    and "wager_transactions d' = update_rows (is_pending (t_id r)) f (wager_transactions d)"
  shows "in_state S d' = in_state S d + mset (if S' = S then [t_id r] else [])"
proof -
  from split_list [OF assms(2)] obtain xs ys where rs: "wager_transactions d = xs @ r # ys" by blast
  have "t_id r \<notin> t_id ` (set xs \<union> set ys)" using assms(1) by (auto simp: rs)
  then have other: "\<not> is_pending (t_id r) x" if "x \<in> set xs \<union> set ys" for x
    using that by (metis imageI is_pending_def)
  have same: "map (\<lambda>x. if is_pending (t_id r) x then f x else x) zs = zs" if "set zs \<subseteq> set xs \<union> set ys" for zs
    by (rule map_idI) (use that other in auto)
  have "wager_transactions d' = xs @ f r # ys"
    using assms(3) by (simp add: assms(7) rs update_rows_def same is_pending_def [of _ r])
  then show ?thesis using assms(3-6) by (auto simp: in_state_def rs)
qed

lemma in_state_untouched:
  assumes "\<And>x. is_pending i x \<Longrightarrow> t_state (f x) = t_state x \<and> t_id (f x) = t_id x"
    and "wager_transactions d' = update_rows (is_pending i) f (wager_transactions d)"
  shows "in_state S d' = in_state S d"
proof -
  have "map t_id (filter (\<lambda>x. t_state x = S) (update_rows (is_pending i) f rs)) = map t_id (filter (\<lambda>x. t_state x = S) rs)" for rs
    by (induction rs) (use assms(1) in \<open>auto simp: update_rows_def\<close>)
  with assms(2) show ?thesis by (simp add: in_state_def)
qed

lemma settled_with_reference:
  "verdict E q bal d = Settle (Some i) delta \<Longrightarrow> reqKind q \<noteq> WagerKindLoss"
  by (auto simp: verdict_def requiresReferenceResolution_def dest!: settle_Settle split: if_splits)

lemma refused_announces:
  assumes ref: "refused_outcome E p wallet now code i d out d'" and ok: "schema_ok d" and laws: "reads R E"
    and r: "pending_of E d r p"
  shows "announcing R d d'"
proof -
  have id: "pnID p = t_id r" and rd: "r \<in> set (wager_transactions d)" "t_state r = WagerStatePendingReference"
    using r scan_pending_Inr [of E r p] by (auto simp: pending_of_def)
  let ?e = "\<lambda>eid. NewWagerTransactionRejectedEvent eid (pnID p) (pnCorrelationID p) (pnCausationID p) now
      \<lparr>rdTransactionID = uuid_String E (pnID p), rdWalletID = ID wallet,
       rdProviderID = reqProviderID (pnRequest p), rdKind = reqKind (pnRequest p), rdFailureCode = code\<rparr>"
  from ref obtain eid where d': "d' = d\<lparr>wager_transactions := update_rows (is_pending (pnID p))
        (reject_row code (amount (Balance wallet)) i now) (wager_transactions d),
      outbox_events := outbox_events d @ [outbox_row_of (?e eid)]\<rparr>"
    by (auto simp: refused_outcome_def)
  have "in_state S d' = in_state S d + mset (if WagerStateRejected = S then [t_id r] else [])"
    if "S \<noteq> WagerStatePendingReference" for S
    by (rule in_state_update [OF transaction_ids_distinct [OF ok] rd]) (use that in \<open>auto simp: d' id reject_row_def\<close>)
  then show ?thesis
    using readsD(3) [OF laws] laws
    by (intro announcingI [where ls = "[]" and ps = "[]" and rs = "[t_id r]" and es = "[outbox_row_of (?e eid)]"])
      (auto simp: d' event_defs names_transaction_def id)
qed

lemma settled_announces:
  assumes res: "resolved_outcome E p wallet' before now i dir d out d'" and ok: "schema_ok d" and laws: "reads R E"
    and r: "pending_of E d r p" and kind: "reqKind (pnRequest p) \<noteq> WagerKindLoss"
  shows "announcing R d d'"
proof -
  have id: "pnID p = t_id r" and rd: "r \<in> set (wager_transactions d)" "t_state r = WagerStatePendingReference"
    using r scan_pending_Inr [of E r p] by (auto simp: pending_of_def)
  let ?evs = "\<lambda>eid eid2. map outbox_row_of (processed_events E (pnID p) (reqKind (pnRequest p)) wallet'
      (reqAmount (pnRequest p)) before dir (pnCorrelationID p) (pnCausationID p) now eid eid2)"
  from res obtain u lid eid eid2 where u: "pg_uuid_in E (ID wallet') = Some u"
    and tx: "wager_transactions d' = update_rows (is_pending (pnID p))
          (processed_row i (amount (Balance wallet')) now) (wager_transactions d)"
    and le: "ledger_entries d' = ledger_entries d @
          [\<lparr>l_id = lid, l_wallet_id = u, l_transaction_id = pnID p, l_direction = dir,
            l_amount = amount (reqAmount (pnRequest p)), l_balance_before = amount before,
            l_balance_after = amount (Balance wallet'), l_created_at = now\<rparr>]"
    and ev: "outbox_events d' = outbox_events d @ ?evs eid eid2"
    by (auto simp: resolved_outcome_def)
  from processed_events_announce [OF laws u kind] have an:
    "list_all2 (announces R) (filter (of_type balance_changed) (?evs eid eid2))
      [\<lparr>l_id = lid, l_wallet_id = u, l_transaction_id = pnID p, l_direction = dir,
            l_amount = amount (reqAmount (pnRequest p)), l_balance_before = amount before,
            l_balance_after = amount (Balance wallet'), l_created_at = now\<rparr>]" .
  have st: "in_state S d' = in_state S d + mset (if WagerStateProcessed = S then [t_id r] else [])"
    if "S \<noteq> WagerStatePendingReference" for S
    by (rule in_state_update [OF transaction_ids_distinct [OF ok] rd]) (use that tx in \<open>auto simp: id processed_row_def\<close>)
  show ?thesis
    by (rule announcingI [OF ev le an, where ps = "[pnID p]" and rs = "[]"])
      (use st [of WagerStateProcessed] st [of WagerStateRejected] processed_events_named(1,2) [OF laws] in \<open>auto simp: id\<close>)
qed

lemma resolved_announces:
  assumes res: "resolved E p wallet now v d out d'" and ok: "schema_ok d" and laws: "reads R E"
    and r: "pending_of E d r p" and settle: "\<And>i delta. v = Settle (Some i) delta \<Longrightarrow> reqKind (pnRequest p) \<noteq> WagerKindLoss"
  shows "announcing R d d'"
proof (cases v)
  case Await
  with res have d': "d' = d\<lparr>wager_transactions := update_rows (is_pending (pnID p))
      (reschedule_row (pnReferenceAttempts p + 1) (retry_at p now) now) (wager_transactions d)\<rparr>"
    by (simp add: resolved_def retry_outcome_def)
  have "in_state S d' = in_state S d" for S
    by (rule in_state_untouched [of "pnID p"]) (auto simp: d' reschedule_row_def)
  then show ?thesis
    by (intro announcingI [where es = "[]" and ls = "[]" and ps = "[]" and rs = "[]"]) (simp_all add: d')
next
  case (Refuse code ref)
  with res refused_announces [OF _ ok laws r] show ?thesis by (simp add: resolved_def)
next
  case (Settle ref delta)
  with res settle settled_announces [OF _ ok laws r] show ?thesis by (auto simp: resolved_def)
qed

lemma resolve_tx_announces:
  assumes "resolve_tx E w = Inr (out, w')" "schema_ok (db w)" "reads R E"
  shows "announcing R (db w) (db w')"
proof (cases "due_row E (db w)")
  case None
  with resolve_tx_result [OF assms(1,2)] show ?thesis by (simp add: resolver_pass_def announcing_refl)
next
  case (Some r)
  with resolve_tx_result [OF assms(1,2)] obtain p wallet now where sc: "scan_pending E r = Inr p"
    and res: "resolved E p wallet now
        (if is_expired p now then Refuse ''REFERENCE_EXPIRED'' None
         else verdict E (pnRequest p) (Balance wallet) (db w)) (db w) out (db w')"
    by (auto simp: resolver_pass_def)
  have "pending_of E (db w) r p" using due_row_pending [OF Some] sc by (simp add: pending_of_def is_due_def)
  from res assms(2,3) this show ?thesis
    by (rule resolved_announces) (auto simp: settled_with_reference split: if_splits)
qed

lemma message_tx_announces:
  assumes run: "message_tx cmd E w = Inr (res, w')" and laws: "reads R E"
  shows "announcing R (db w) (db w')"
proof -
  have register: "keeps same_facts (Register c i p)" for c i p
    unfolding Register_def Let_def
    by (intro facts.keeps_intros facts.keeps_sql) (auto simp: insert_inbox_def same_facts_def split: if_splits)
  have complete: "keeps same_facts (Complete c i)" for c i
    unfolding Complete_def
    by (intro facts.keeps_intros facts.keeps_sql) (auto simp: update_inbox_def same_facts_def)
  from run obtain b w1 where reg: "Register (mpConsumerName cmd) (mpMessageID cmd) (mpRawPayload cmd) E w = Inr (b, w1)"
    and rest: "b \<and> db w' = db w1 \<or>
      (\<exists>result w2 u. ProcessTx (mpCommand cmd) E w1 = Inr (result, w2)
         \<and> Complete (mpConsumerName cmd) (mpMessageID cmd) E w2 = Inr (u, w'))"
    unfolding message_tx_def
    by (elim tx_bindE) (auto simp: tx_bind_Inr tx_return_def tx_map_err_Inr split: if_splits)
  have first: "same_facts (db w) (db w1)" by (rule keepsD [OF register reg])
  from rest show ?thesis
  proof (elim disjE exE conjE)
    assume "db w' = db w1"
    with first show ?thesis by (simp add: announcing_facts)
  next
    fix result w2 u
    assume p: "ProcessTx (mpCommand cmd) E w1 = Inr (result, w2)"
      and c: "Complete (mpConsumerName cmd) (mpMessageID cmd) E w2 = Inr (u, w')"
    show ?thesis
      by (rule announcing_same_facts [OF first command_announces [OF ProcessTx_result [OF p] laws] keepsD [OF complete c]])
  qed
qed

lemma opened_announces:
  assumes "opened_wallet E cmd i now d d'" "reads R E"
  shows "announcing R d d'"
proof (cases "units (cwInitialBalance cmd) = 0")
  case True
  with assms(1) show ?thesis by (intro announcing_facts) (simp add: opened_wallet_def same_facts_def Let_def)
next
  case False
  let ?b = "cwInitialBalance cmd"
  from False assms(1) obtain t l c e1 e2 where
      tx: "wager_transactions d' = wager_transactions d @ [opening_row t i (cwPlayerID cmd) ?b now]"
    and le: "ledger_entries d' = ledger_entries d @
        [\<lparr>l_id = l, l_wallet_id = i, l_transaction_id = t, l_direction = DirectionCredit,
          l_amount = amount ?b, l_balance_before = 0, l_balance_after = amount ?b, l_created_at = now\<rparr>]"
    and ev: "outbox_events d' = outbox_events d @ map outbox_row_of (opening_events E i t ?b c now e1 e2)"
    by (auto simp: opened_wallet_def Let_def)
  note u = readsD(3) [OF assms(2)]
  have st: "in_state S d' = in_state S d + mset (if S = WagerStateProcessed then [t] else [])" for S
    using in_state_append [OF tx, of S] by (auto simp: opening_row_def)
  have zero: "Money_String (Zero c) = Money_String (NewMoney 0 c)" for c
    by (simp add: Zero_def NewMoney_def)
  show ?thesis
    by (rule announcingI [where ps = "[t]" and rs = "[]", OF ev le])
      (use st [of WagerStateProcessed] st [of WagerStateRejected] u assms(2) zero in
        \<open>auto simp: opening_events_def event_defs announces_def names_transaction_def\<close>)
qed

section \<open>Every reachable_in (reads R) state\<close>

lemma run_tx_announces:
  "(\<And>a w'. m E w = Inr (a, w') \<Longrightarrow> announcing R (db w) (db w')) \<Longrightarrow> announcing R (db w) (snd (run_tx E b c m w))"
  using run_tx_db [of E b c m w] announcing_refl by auto

text \<open>Publishing updates the two columns no fact depends on.\<close>

definition same_events :: "database \<Rightarrow> database \<Rightarrow> bool" where
  "same_events d d' \<longleftrightarrow> map (\<lambda>e. (o_event_type e, o_payload e, o_occurred_at e)) (outbox_events d') =
       map (\<lambda>e. (o_event_type e, o_payload e, o_occurred_at e)) (outbox_events d)
     \<and> ledger_entries d' = ledger_entries d \<and> wager_transactions d' = wager_transactions d"

interpretation events: tx_relation same_events
  by unfold_locales (auto simp: same_events_def)

lemma list_all2_filter_same:
  assumes "map k xs = map k ys" "\<And>x y. k x = k y \<Longrightarrow> P x = P y \<and> R x = R y"
  shows "list_all2 R (filter P xs) zs = list_all2 R (filter P ys) zs"
  using assms(1)
proof (induction xs ys arbitrary: zs rule: list_induct2')
  case (4 x xs y ys)
  then have "P x = P y" "R x = R y" "map k xs = map k ys" using assms(2) [of x y] by simp_all
  with 4 show ?case by (simp add: list_all2_Cons1)
qed simp_all

abbreviation event_facts :: "outbox_row \<Rightarrow> string \<times> eventEnvelope \<times> time" where
  "event_facts e \<equiv> (o_event_type e, o_payload e, o_occurred_at e)"

lemma event_facts_same:
  "event_facts e = event_facts e' \<Longrightarrow> of_type T e = of_type T e' \<and> announces R e = announces R e'"
  "event_facts e = event_facts e' \<Longrightarrow> of_type T e = of_type T e' \<and> names_transaction R e = names_transaction R e'"
  by (auto simp: of_type_def announces_def [abs_def] names_transaction_def [abs_def])

lemma announced_same_events:
  assumes "same_events d d'" "announced R d"
  shows "announced R d'"
proof -
  have m: "map event_facts (outbox_events d') = map event_facts (outbox_events d)"
    and t: "ledger_entries d' = ledger_entries d" "wager_transactions d' = wager_transactions d"
    using assms(1) by (auto simp: same_events_def)
  note same = list_all2_filter_same [OF m event_facts_same(1)] list_all2_filter_same [OF m event_facts_same(2)]
  show ?thesis
    using assms(2) by (simp only: announced_def announced_as_def in_state_def t same)
qed

lemma publish_loop_same_events: "keeps same_events (publish_loop publish es acc n)"
proof (induction es arbitrary: acc n)
  case Nil
  then show ?case by (simp add: events.keeps_return)
next
  case (Cons e es)
  have upd: "keeps same_events (exec_update_outbox c no i f)"
    if "\<And>E r. (o_event_type (f E r), o_payload (f E r), o_occurred_at (f E r)) = (o_event_type r, o_payload r, o_occurred_at r)" for c no i f
    unfolding exec_update_outbox_def
    by (intro events.keeps_intros events.keeps_sql)
      (use that in \<open>simp_all add: update_outbox_def same_events_def update_rows_def\<close>)
  have "keeps same_events (markPublished i)" "keeps same_events (scheduleRetry e)" for i
    by (auto intro!: upd simp: markPublished_def scheduleRetry_def mark_row_def retry_row_def Let_def)
  with Cons.IH show ?case by (auto intro!: events.keeps_intros split: option.splits)
qed

lemma PublishBatch_same_events: "same_events d (fst (snd (PublishBatch E publish d m)))"
proof -
  have "keeps same_events (batch_tx publish)"
    unfolding batch_tx_def findPending_def by (intro events.keeps_intros publish_loop_same_events)
  then show ?thesis
    by (auto simp: PublishBatch_def split: prod.splits sum.splits dest: events.run_tx_RD)
qed

lemma process_locked_announces:
  assumes run: "process_locked c h E w = Inr (res, w')" and contract: "request_contract (cmdRequest c)" and laws: "reads R E"
  shows "announcing R (db w) (db w')"
proof -
  from process_locked_Inr [OF run] obtain wallet w1 where w1: "db w1 = db w"
    and "db w' = db w \<or> process_new c h wallet E w1 = Inr (res, w')"
    by (auto split: option.splits)
  then consider "db w' = db w" | w2 where "db w2 = db w" "process_decide c h wallet E w2 = Inr (res, w')"
    using process_new_Inr w1 by metis
  then show ?thesis
  proof cases
    case 1
    then show ?thesis by (simp add: announcing_refl)
  next
    case (2 w2)
    with decided_announces [OF process_decide_verdict [OF 2(2) refl contract] laws] show ?thesis by simp
  qed
qed

lemma Wallet_Create_announces:
  assumes "reads R E"
  shows "announcing R d (snd (Wallet_Create E cmd d))"
proof (cases "NewWallet (uuid_String E (new_uuid E 0)) (cwPlayerID cmd) (cwInitialBalance cmd) (time_now E 0)")
  case (Inl e)
  then show ?thesis by (simp add: Wallet_Create_def Let_def announcing_refl)
next
  case (Inr dw)
  then have dw: "PlayerID dw = cwPlayerID cmd" "Balance dw = cwInitialBalance cmd" "Version dw = 1"
    by (auto simp: NewWallet_Inr)
  have "announcing R d (snd (run_tx E b c (create_tx i dw now) ((start_world d)\<lparr>now_count := 1, uuid_count := 1\<rparr>)))" for b c i now
    using run_tx_announces [OF opened_announces [OF conjunct1 [OF create_tx_outcome [OF _ dw]] assms],
        where w = "(start_world d)\<lparr>now_count := 1, uuid_count := 1\<rparr>"] by simp
  then show ?thesis using Inr by (simp add: Wallet_Create_def Let_def)
qed

lemma sys_step_announced:
  assumes "sys_step_in (reads R) s s'" "schema_ok (sys_db s)" "\<forall>c \<in> set (waiting s). waiting_ok c" "announced R (sys_db s)"
    and "\<And>E v cmd h. (E, v, cmd, h) \<in> set (waiting s) \<Longrightarrow> reads R E"
  shows "announced R (sys_db s')"
  using assms
proof (induction rule: sys_step_in.induct)
  case (create E s cmd)
  from create show ?case by (simp add: announcing_keeps [OF Wallet_Create_announces])
next
  case (process E s pcmd m)
  have "announcing R (sys_db s) (fst (snd (Service_Process E pcmd (start_world (sys_db s)) m)))"
    using run_tx_announces [where m = "ProcessTx pcmd" and E = E and w = "start_world (sys_db s)",
        OF command_announces [OF ProcessTx_result process(1)]]
    by (simp add: Service_Process_def Let_def case_prod_unfold)
  with process show ?case by (simp add: announcing_keeps)
next
  case (locked c s r w)
  obtain E v cmd h where c: "c = (E, v, cmd, h)" by (cases c)
  with locked have "waiting_ok c" "reads R E" by blast+
  with c have "announcing R (sys_db s) (db w)"
    using process_locked_announces [of cmd h E "v\<lparr>db := sys_db s\<rparr>" r w] locked(2)
    by (simp add: resume_def waiting_ok_def)
  with locked show ?case by (simp add: announcing_keeps)
next
  case (message E s mcmd m)
  have "announcing R (sys_db s) (fst (snd (MessageProcessor_Process E mcmd (start_world (sys_db s)) m)))"
    using run_tx_announces [where m = "message_tx mcmd" and E = E and w = "start_world (sys_db s)",
        OF message_tx_announces [OF _ message(1)]]
    by (simp add: MessageProcessor_Process_def Let_def case_prod_unfold announcing_refl)
  with message show ?case by (simp add: announcing_keeps)
next
  case (resolve E s m)
  have "announcing R (sys_db s) (fst (snd (ResolveOne E (start_world (sys_db s)) m)))"
    using run_tx_announces [where m = resolve_tx and E = E and w = "start_world (sys_db s)" and R = R
        and b = "''begin pending reference transaction''" and c = resolve_commit]
      resolve_tx_announces [where w = "start_world (sys_db s)"] resolve
    by (auto simp: ResolveOne_def split: prod.splits sum.splits)
  with resolve show ?case by (simp add: announcing_keeps)
next
  case (publish s E p m)
  then show ?case by (simp add: announced_same_events [OF PublishBatch_same_events])
next
  case (reconcile s E i m)
  have "keeps same_facts (reconcile_tx i)" for i
    unfolding reconcile_tx_def loadReconciliationWallet_def loadReconciliationLedger_def
    by (intro facts.keeps_intros)
  then have "same_facts (sys_db s) (fst (snd (Wallet_Reconcile E i (sys_db s) m)))"
    by (auto simp: Wallet_Reconcile_def split: option.splits prod.splits sum.splits dest: facts.run_tx_RD)
      (auto simp: same_facts_def)
  from announcing_keeps [OF announcing_facts [OF this]] reconcile show ?case by simp
qed simp_all

lemma announced_empty: "announced R empty_database"
  by (simp add: announced_def announced_as_def in_state_def empty_database_def)

lemma reachable_announced: "reachable_in (reads R) s \<Longrightarrow> announced R (sys_db s)"
proof (induction rule: reachable_in.induct)
  case initial
  then show ?case by (simp add: announced_empty)
next
  case (step s s')
  have inv: "schema_ok (sys_db s)" "\<forall>c \<in> set (waiting s). waiting_ok c"
    using reachable_inv [OF reads_reachable [OF step(1)]] by (simp_all add: sys_inv_def)
  from sys_step_announced [OF step(2) inv step(3)] waiting_in [OF step(1)] show ?case by blast
qed

text \<open>C6: the transactional outbox. Let \<open>R\<close> be the one function by which the database reads UUID texts. In
  every state reachable with it the \<^verbatim>\<open>WalletBalanceChanged\<close> events are the ledger, one event for one entry
  and in the same order, each with the transaction, the wallet, the direction, the time and the three
  amounts of its entry; and the \<^verbatim>\<open>WagerTransactionProcessed\<close> and \<^verbatim>\<open>WagerTransactionRejected\<close> events carry
  the ids of the processed and the rejected transactions, each once. So no movement goes unannounced
  and nothing is announced that did not happen.\<close>

theorem events_are_the_facts:
  assumes "reachable_in (reads R) s"
  shows "list_all2 (announces R) (filter (of_type balance_changed) (outbox_events (sys_db s))) (ledger_entries (sys_db s))
    \<and> announced_as R processed_type WagerStateProcessed (sys_db s)
    \<and> announced_as R rejected_type WagerStateRejected (sys_db s)"
  using reachable_announced [OF assms] by (simp add: announced_def)

lemma events_are_the_facts_witness:
  "list_all2 (announces demo_uuid_in) (filter (of_type balance_changed) (outbox_events demo_db4)) (ledger_entries demo_db4)
   \<and> length (ledger_entries demo_db4) = 2"
  using events_are_the_facts [OF demo_reachable_in(2)] by (simp add: demo_db4_def demo_db3_def demo_db2_def)

end
