(* ===== verification/System_Properties.thy ===== *)
theory System_Properties
  imports Scenario
begin

text \<open>
  What holds of the platform in every reachable state and along every sequence of
  operations: the balances are those of the ledger, reversals cancel what they reverse and
  happen once, the history is append-only, operations are atomic and move money only as the
  abstract step allows.
\<close>

section \<open>Balances\<close>

definition entry_effect :: "ledger_row \<Rightarrow> int" where
  "entry_effect l = entry_sign l * sint (l_amount l)"

lemma chain_sum:
  "chain b ls = Some c \<Longrightarrow> \<forall>l \<in> set ls. ledger_arithmetic l \<Longrightarrow> sint c = sint b + sum_list (map entry_effect ls)"
  by (induction ls arbitrary: b)
    (auto simp: entry_effect_def entry_sign_def ledger_arithmetic_def split: if_splits)

lemma wallet_ledger_arithmetic:
  "schema_ok d \<Longrightarrow> \<forall>l \<in> set (wallet_ledger i d). ledger_arithmetic l"
  using ledger_row_checks(1) by (auto simp: wallet_ledger_def)

text \<open>C1: in every reachable state the stored balance of each wallet is the sum of its ledger
  entries, credits minus debits, it is never negative, and the version of the wallet is one more than
  the number of external transactions that moved its money.\<close>

theorem balance_is_ledger_sum:
  assumes "reachable s" "w \<in> set (wallets (sys_db s))"
  shows "sint (w_balance w) = sum_list (map entry_effect (wallet_ledger (w_id w) (sys_db s)))
    \<and> 0 \<le> sint (w_balance w)
    \<and> sint (w_version w) = 1 + int (card (external_movements (moving (sys_db s)) (w_id w)))"
proof -
  have ok: "schema_ok (sys_db s)" and b: "wallet_books (sys_db s) w"
    using reachable_inv [OF assms(1)] assms(2) by (auto simp: sys_inv_def books_def)
  from b chain_sum [OF _ wallet_ledger_arithmetic [OF ok], of 0] wallet_row_checks [OF ok assms(2)]
  show ?thesis by (auto simp: wallet_books_def)
qed

lemma balance_is_ledger_sum_witness:
  "sint (w_balance (demo_wallet 2000 3 3000)) = sum_list (map entry_effect (wallet_ledger 100 demo_db4))
   \<and> sum_list (map entry_effect (wallet_ledger 100 demo_db4)) = 5000 - 3000"
proof -
  have "demo_wallet 2000 3 3000 \<in> set (wallets (sys_db (demo_system demo_db4)))"
    by (simp add: demo_db4_def demo_db3_def)
  from balance_is_ledger_sum [OF demo_reachable(2) this] show ?thesis
    by (simp add: demo_wallet_def wallet_ledger_def demo_db4_def demo_db3_def demo_db2_def demo_entry_def
        entry_effect_def entry_sign_def)
qed

section \<open>Reversals\<close>

lemma processed_reversal_unique:
  assumes "schema_ok d" "a \<in> set (wager_transactions d)" "b \<in> set (wager_transactions d)"
    and "processed_reversal a" "processed_reversal b" "t_referenced_transaction_id a = t_referenced_transaction_id b"
  shows "a = b"
  using assms unfolding schema_ok_def
  by (elim conjE table_ok_unique [where n = "''wager_single_processed_reversal_idx''" and conf =
        "\<lambda>a b. processed_reversal a \<and> processed_reversal b \<and> t_referenced_transaction_id a = t_referenced_transaction_id b"])
    (simp_all add: wager_uniques_def)

lemma booksD:
  "books d \<Longrightarrow> r \<in> moving d \<Longrightarrow> reference_ok (moving d) r \<and> (\<exists>l \<in> set (ledger_entries d). entry_ok (moving d) r l)"
  by (simp add: books_def)

lemma reversal_sign:
  assumes "sign_ok M r s" "sign_ok M r0 s0" "refers_to r r0"
    and "t_kind r = WagerKindRefund \<or> t_kind r = WagerKindRollback"
    and "\<And>x. x \<in> M \<Longrightarrow> t_id x = t_id r0 \<Longrightarrow> x = r0"
  shows "s = - s0"
  using assms
  by (auto simp: sign_ok_def refers_to_def referable_def effect_sign_def split: if_splits)

text \<open>C2: a processed REFUND or ROLLBACK cancels one processed transaction, exactly. In every
  reachable state it refers to a processed transaction of the same provider, player, wallet, round and
  currency, of a kind it may reverse and the same amount; the ledger entries of the two have opposite
  effects; and no other processed reversal refers to that transaction.\<close>

theorem reversal_cancels_once:
  assumes "reachable s" and r: "r \<in> set (wager_transactions (sys_db s))" "t_state r = WagerStateProcessed"
    "t_kind r = WagerKindRefund \<or> t_kind r = WagerKindRollback"
  shows "\<exists>r0 \<in> set (wager_transactions (sys_db s)). \<exists>l \<in> set (ledger_entries (sys_db s)). \<exists>l0 \<in> set (ledger_entries (sys_db s)).
     t_state r0 = WagerStateProcessed \<and> refers_to r r0 \<and> l_transaction_id l = t_id r \<and> l_transaction_id l0 = t_id r0
     \<and> entry_effect l = - entry_effect l0
     \<and> (\<forall>x \<in> set (wager_transactions (sys_db s)). processed_reversal x \<longrightarrow>
           t_referenced_transaction_id x = Some (t_id r0) \<longrightarrow> x = r)"
proof -
  let ?d = "sys_db s" and ?M = "moving (sys_db s)"
  have ok: "schema_ok ?d" and b: "books ?d" using reachable_inv [OF assms(1)] by (simp_all add: sys_inv_def)
  have rm: "r \<in> ?M" using r by (auto simp: moving_def moves_def)
  from booksD [OF b rm] r(3) obtain r0 l where r0: "r0 \<in> ?M" "refers_to r r0"
    and l: "l \<in> set (ledger_entries ?d)" "entry_ok ?M r l"
    by (auto simp: reference_ok_def)
  from booksD [OF b r0(1)] obtain l0 where l0: "l0 \<in> set (ledger_entries ?d)" "entry_ok ?M r0 l0" by blast
  have id: "x = r0" if "x \<in> ?M" "t_id x = t_id r0" for x
    using transaction_id_unique [OF ok] that r0(1) by (auto simp: moving_def)
  have sgn: "entry_sign l = - entry_sign l0"
    using reversal_sign [OF _ _ r0(2) r(3) id] l(2) l0(2) by (auto simp: entry_ok_def)
  have amt: "l_amount l = l_amount l0"
    using l(2) l0(2) r0(2) r(3) by (auto simp: entry_ok_def refers_to_def)
  have ref: "t_referenced_transaction_id r = Some (t_id r0)" using r0(2) by (simp add: refers_to_def)
  have pr: "processed_reversal r" using r(2,3) ref by (auto simp: processed_reversal_def)
  have uniq: "x = r" if "x \<in> set (wager_transactions ?d)" "processed_reversal x"
      "t_referenced_transaction_id x = Some (t_id r0)" for x
    using processed_reversal_unique [OF ok that(1) r(1) that(2) pr] that(3) ref by simp
  have "entry_effect l = - entry_effect l0" by (simp add: entry_effect_def sgn amt)
  moreover have "r0 \<in> set (wager_transactions ?d)" "t_state r0 = WagerStateProcessed"
    using r0(1) by (simp_all add: moving_def moves_def)
  moreover have "l_transaction_id l = t_id r" "l_transaction_id l0 = t_id r0"
    using l(2) l0(2) by (simp_all add: entry_ok_def)
  ultimately show ?thesis using r0(2) l(1) l0(1) uniq by blast
qed

text \<open>The BET of the history refunded.\<close>

definition demo_refund_bet :: ProcessCommand where
  "demo_refund_bet = demo_command WagerKindRefund ''g'' 3000 ''b''"

lemma demo_refunded:
  "\<exists>res d' m'. Service_Process (demo_env 5) demo_refund_bet (start_world demo_db4) NewMetrics = (Inr res, d', m')
     \<and> (\<exists>r \<in> set (wager_transactions d'). t_id r = 500 \<and> t_state r = WagerStateProcessed \<and> t_kind r = WagerKindRefund)"
  by (simp add: process_evals demo_refund_bet_def demo_rows table_evals tx_evals wallet_evals
      validateReference_def referenceAlreadyReversed_def reverses_def reversalDirection_def scan_reference_def)

lemma reversal_cancels_once_witness:
  "\<exists>s r r0. reachable s \<and> r \<in> set (wager_transactions (sys_db s)) \<and> r0 \<in> set (wager_transactions (sys_db s))
     \<and> t_kind r = WagerKindRefund \<and> refers_to r r0"
proof -
  obtain res d' m' r where run: "Service_Process (demo_env 5) demo_refund_bet (start_world demo_db4) NewMetrics = (Inr res, d', m')"
    and r: "r \<in> set (wager_transactions d')" "t_state r = WagerStateProcessed" "t_kind r = WagerKindRefund"
    using demo_refunded by blast
  have "reachable (demo_system d')"
    by (rule reachable_in.step [OF demo_reachable(2) demo_sys_step [OF run]])
  with reversal_cancels_once [OF this, of r] r show ?thesis by force
qed

section \<open>History\<close>

lemma sys_steps_history: "sys_step\<^sup>*\<^sup>* s s' \<Longrightarrow> extends_history (sys_db s) (sys_db s')"
  by (induction rule: rtranclp_induct) (auto intro: extends_history_refl extends_history_trans sys_step_history)

lemma same_request_refl [simp]: "same_request r r"
  by (simp add: same_request_def)

lemma extends_history_rows:
  assumes "extends_history d d'"
  shows "r \<in> set (wager_transactions d) \<Longrightarrow> \<exists>r' \<in> set (wager_transactions d'). same_request r r'"
    and "x \<in> set (inbox_messages d) \<Longrightarrow> i_completed_at x \<noteq> None \<Longrightarrow> x \<in> set (inbox_messages d')"
    and "e \<in> set (outbox_events d) \<Longrightarrow> o_published_at e \<noteq> None \<Longrightarrow> e \<in> set (outbox_events d')"
    and "w \<in> set (wallets d) \<Longrightarrow> \<exists>w' \<in> set (wallets d'). wallet_evolves w w'"
  using assms growsD [of wager_evolves "wager_transactions d" "wager_transactions d'" r]
    growsD [of inbox_evolves "inbox_messages d" "inbox_messages d'" x]
    growsD [of outbox_evolves "outbox_events d" "outbox_events d'" e]
    growsD [of wallet_evolves "wallets d" "wallets d'" w]
  unfolding extends_history_def wager_evolves_def inbox_evolves_def outbox_evolves_def
  by (metis same_request_refl, metis, metis, metis)

text \<open>C19: whatever operations run, the history only grows. The old ledger is a prefix of the new one;
  a transaction that is no longer waiting for its reference keeps every column for ever; one that waits
  keeps what was requested; completed inbox rows and published events stay as they are; a wallet keeps
  its id, player, currency and creation time.\<close>

theorem history_is_append_only:
  assumes "sys_step\<^sup>*\<^sup>* s s'"
  shows "(\<exists>new. ledger_entries (sys_db s') = ledger_entries (sys_db s) @ new)
    \<and> (\<forall>r \<in> set (wager_transactions (sys_db s)). t_state r \<noteq> WagerStatePendingReference \<longrightarrow>
          r \<in> set (wager_transactions (sys_db s')))
    \<and> (\<forall>r \<in> set (wager_transactions (sys_db s)). \<exists>r' \<in> set (wager_transactions (sys_db s')). same_request r r')
    \<and> (\<forall>x \<in> set (inbox_messages (sys_db s)). i_completed_at x \<noteq> None \<longrightarrow> x \<in> set (inbox_messages (sys_db s')))
    \<and> (\<forall>e \<in> set (outbox_events (sys_db s)). o_published_at e \<noteq> None \<longrightarrow> e \<in> set (outbox_events (sys_db s')))
    \<and> (\<forall>w \<in> set (wallets (sys_db s)). \<exists>w' \<in> set (wallets (sys_db s')). wallet_evolves w w')"
  using sys_steps_history [OF assms] extends_history_ledger extends_history_terminal extends_history_rows
  by blast

lemma history_is_append_only_witness:
  "\<exists>new. ledger_entries demo_db4 = ledger_entries demo_db1 @ new"
proof -
  have "sys_step\<^sup>*\<^sup>* (demo_system demo_db1) (demo_system demo_db4)"
    using demo_steps by (meson r_into_rtranclp rtranclp_trans)
  from history_is_append_only [OF this] show ?thesis by simp
qed

section \<open>Money moves only in financial steps\<close>

text \<open>C9: refinement. Every operation of the platform, from any reachable state, under any clock, any
  failing statement and any interleaving around the wallet lock, does to money what the abstract
  machine allows in one step: nothing; one movement of one wallet with its transaction, its ledger entry
  and the next version; or the opening of a wallet.\<close>

theorem operations_refine_financial_step:
  assumes "reachable s" "sys_step s s'"
  shows "financial_step (sys_db s) (sys_db s')"
  using reachable_inv [OF assms(1)] sys_step_financial [OF assms(2)] by (simp add: sys_inv_def)

lemma operations_refine_financial_step_witness:
  "financial_step demo_db3 demo_db4 \<and> ledger_entries demo_db4 = ledger_entries demo_db3"
  using operations_refine_financial_step [OF demo_reachable(1) demo_steps(4)] by (simp add: demo_db4_def)

text \<open>C20: the constraints of the schema and the books hold in every reachable state: keys, checks and
  foreign keys of all tables; each wallet's ledger is a chain from zero to its balance; every processed
  transaction except LOSS has a ledger entry of its amount, wallet, sign and resulting balance, and every
  ledger entry such a transaction.\<close>

theorem reachable_states_keep_books:
  assumes "reachable s"
  shows "schema_ok (sys_db s) \<and> books (sys_db s)"
  using reachable_inv [OF assms] by (simp add: sys_inv_def)

lemma reachable_states_keep_books_witness: "schema_ok demo_db4 \<and> books demo_db4"
  using reachable_states_keep_books [OF demo_reachable(2)] by simp

section \<open>Atomicity\<close>

text \<open>C21: an operation that reports an error has changed nothing, whatever statement failed, provided
  its commit did not take effect while reporting a failure.\<close>

theorem errors_leave_no_trace:
  assumes "\<forall>x. commit_fault E \<noteq> Some (x, True)"
  shows "(fst (Service_Process E cmd w m) = Inl e \<longrightarrow> fst (snd (Service_Process E cmd w m)) = db w)
    \<and> (fst (MessageProcessor_Process E msg w m) = Inl e \<longrightarrow> fst (snd (MessageProcessor_Process E msg w m)) = db w)
    \<and> (fst (ResolveOne E w m) = Inl e \<longrightarrow> snd (ResolveOne E w m) = (db w, m))
    \<and> (fst (Wallet_Create E wal d) = Inl e \<longrightarrow> snd (Wallet_Create E wal d) = d)
    \<and> (fst (PublishBatch E p d m) = Inl e \<longrightarrow> snd (PublishBatch E p d m) = (d, m))"
proof (intro conjI)
  note atomic = run_tx_Inl [OF _ assms]
  show "fst (Service_Process E cmd w m) = Inl e \<longrightarrow> fst (snd (Service_Process E cmd w m)) = db w"
    by (auto simp: Service_Process_def split: prod.splits dest: atomic)
  show "fst (MessageProcessor_Process E msg w m) = Inl e \<longrightarrow> fst (snd (MessageProcessor_Process E msg w m)) = db w"
    by (auto simp: MessageProcessor_Process_def split: prod.splits if_splits dest: atomic)
  show "fst (ResolveOne E w m) = Inl e \<longrightarrow> snd (ResolveOne E w m) = (db w, m)"
    by (auto simp: ResolveOne_def split: prod.splits sum.splits dest: atomic)
  show "fst (Wallet_Create E wal d) = Inl e \<longrightarrow> snd (Wallet_Create E wal d) = d"
    using assms by (auto simp: Wallet_Create_def Let_def run_tx_fst split: sum.splits)
  show "fst (PublishBatch E p d m) = Inl e \<longrightarrow> snd (PublishBatch E p d m) = (d, m)"
    by (auto simp: PublishBatch_def split: prod.splits sum.splits dest!: atomic)
qed

text \<open>A BET whose ledger statement fails after the wallet was updated.\<close>

definition failing_env :: env where
  "failing_env = (demo_env 3)\<lparr>fault := (\<lambda>n. if n = 6 then Some (PgError ''57014'' []) else None)\<rparr>"

lemma demo_failing:
  "\<exists>e m'. Service_Process failing_env demo_bet (start_world demo_db2) m = (Inl e, demo_db2, m')"
  by (simp add: failing_env_def process_evals demo_rows table_evals tx_evals wallet_evals)

lemma errors_leave_no_trace_witness:
  "\<exists>e. fst (Service_Process failing_env demo_bet (start_world demo_db2) NewMetrics) = Inl e
     \<and> fst (snd (Service_Process failing_env demo_bet (start_world demo_db2) NewMetrics)) = demo_db2"
proof -
  obtain e where e: "fst (Service_Process failing_env demo_bet (start_world demo_db2) NewMetrics) = Inl e"
    using demo_failing [of NewMetrics] by (metis fst_conv)
  have "\<forall>x. commit_fault failing_env \<noteq> Some (x, True)" by (simp add: failing_env_def)
  from errors_leave_no_trace [OF this] e show ?thesis by fastforce
qed

end
