(* ===== verification/Platform.thy ===== *)
theory Platform
  imports Outbox_Properties Channel_Properties Announcements System_Properties
begin

text \<open>
  The running platform: the HTTP server and the three workers on one database and one set of counters.
  A step is a request, or one turn of a worker's loop. Each is a sequence of the transactions of
  \<open>System\<close>, so what holds of its reachable states holds of the platform, whatever requests, messages and
  faults it meets.
\<close>

section \<open>Steps\<close>

record platform =
  pfDb :: database
  pfMetrics :: Metrics

abbreviation inbox_processor :: "(env, database) processor" where
  "inbox_processor \<equiv> \<lambda>E cmd d m. MessageProcessor_Process E cmd (start_world d) m"

text \<open>As in \<open>System\<close>, \<open>lawful\<close> is what a run assumes of the environments.\<close>

inductive platform_step_in :: "(env \<Rightarrow> bool) \<Rightarrow> platform \<Rightarrow> platform \<Rightarrow> bool" for lawful where
  request: "lawful (hService H) \<Longrightarrow> serve_http H r (pfDb p) (pfMetrics p) = (res, d', m') \<Longrightarrow>
    platform_step_in lawful p \<lparr>pfDb = d', pfMetrics = m'\<rparr>"
| messages: "\<forall>i. lawful (dlEnvs (meets t) i) \<Longrightarrow>
    ConsumerWorker_Run inbox_processor [t] (pfDb p) (pfMetrics p) = (st, acts, d', m') \<Longrightarrow>
    platform_step_in lawful p \<lparr>pfDb = d', pfMetrics = m'\<rparr>"
| publisher: "OutboxWorker_Run [t] (pfDb p) (pfMetrics p) = (st, d', m') \<Longrightarrow>
    platform_step_in lawful p \<lparr>pfDb = d', pfMetrics = m'\<rparr>"
| resolver: "lawful (meets t) \<Longrightarrow> PendingReferenceWorker_Run [t] (pfDb p) (pfMetrics p) = (st, d', m') \<Longrightarrow>
    platform_step_in lawful p \<lparr>pfDb = d', pfMetrics = m'\<rparr>"
| dlq: "platform_step_in lawful p (p\<lparr>pfMetrics := DLQMonitor_refresh output (pfMetrics p)\<rparr>)"

abbreviation platform_step :: "platform \<Rightarrow> platform \<Rightarrow> bool" where
  "platform_step \<equiv> platform_step_in uuid_laws"

text \<open>What a turn of a worker may do to the database.\<close>

lemma ConsumerWorker_turn:
  assumes "ConsumerWorker_Run inbox_processor [t] d m = (st, acts, d', m')"
  shows "d' = d \<or> (\<exists>r a m1. consume (dlReceived (meets t)) (dlDelete (meets t)) (dlContexts (meets t)) (dlEnvs (meets t)) d m
     = (r, a, d', m1))"
proof -
  obtain r a d1 m1 where c: "ConsumeOnceWithContexts inbox_processor (dlReceived (meets t)) (dlDelete (meets t)) (dlContexts (meets t))
      (dlEnvs (meets t)) d m = (r, a, d1, m1)"
    by (metis prod.collapse)
  with assms have "d' = d \<or> d' = d1" by (cases r) (auto split: if_splits option.splits)
  with c show ?thesis by (auto simp: consume_def)
qed

lemma OutboxWorker_turn:
  "OutboxWorker_Run [t] d m = (st, d', m') \<Longrightarrow> d' = d \<or> d' = fst (snd (PublishBatch (fst (meets t)) (snd (meets t)) d m))"
  by (auto split: if_splits prod.splits sum.splits)

lemma PendingReferenceWorker_turn:
  "PendingReferenceWorker_Run [t] d m = (st, d', m') \<Longrightarrow> d' = d \<or> d' = fst (snd (ResolveOne (meets t) (start_world d) m))"
  by (auto split: if_splits prod.splits sum.splits)

section \<open>Refinement of the system\<close>

text \<open>The abstraction: the database, and no command in the middle of its transaction.\<close>

definition system_of :: "database \<Rightarrow> system" where
  "system_of d = \<lparr>sys_db = d, waiting = []\<rparr>"

lemma system_of_simps [simp]: "sys_db (system_of d) = d" "waiting (system_of d) = []" "(system_of d)\<lparr>sys_db := d'\<rparr> = system_of d'"
  by (simp_all add: system_of_def)

abbreviation runs_to :: "(env \<Rightarrow> bool) \<Rightarrow> database \<Rightarrow> database \<Rightarrow> bool" where
  "runs_to L d d' \<equiv> (sys_step_in L)\<^sup>*\<^sup>* (system_of d) (system_of d')"

lemma sys_runs:
  "L E \<Longrightarrow> runs_to L d (snd (Wallet_Create E wal d))"
  "L E \<Longrightarrow> runs_to L d (fst (snd (Service_Process E cmd (start_world d) m)))"
  "L E \<Longrightarrow> runs_to L d (fst (snd (MessageProcessor_Process E msg (start_world d) m)))"
  "L E \<Longrightarrow> runs_to L d (fst (snd (ResolveOne E (start_world d) m)))"
  "runs_to L d (fst (snd (PublishBatch E pub d m)))"
  using sys_step_in.create [of L E "system_of d"] sys_step_in.process [of L E "system_of d"]
    sys_step_in.message [of L E "system_of d"] sys_step_in.resolve [of L E "system_of d"] sys_step_in.publish [of L "system_of d"]
  by (auto intro: r_into_rtranclp)

lemma request_runs:
  assumes "serve_http H r d m = (res, d', m')" "L (hService H)"
  shows "runs_to L d d'"
  using assms(1)
proof (cases rule: serve_http_effect)
  case (create cmd x)
  with sys_runs(1) [where L = L, OF assms(2), of d cmd] show ?thesis by simp
next
  case (process p cmd x)
  with sys_runs(2) [where L = L, OF assms(2), of d cmd m] show ?thesis by simp
qed simp

lemma processMessage_runs:
  assumes "processMessage inbox_processor del E message d m = (r, acts, d', m')" "L E"
  shows "runs_to L d d'"
proof -
  have "d' = d \<or> (\<exists>cmd. d' = fst (snd (MessageProcessor_Process E cmd (start_world d) m)))"
    using assms(1) by (auto simp: processMessage_def split: option.splits sum.splits prod.splits) (metis fst_conv snd_conv)+
  with sys_runs(3) [where L = L, OF assms(2)] show ?thesis by auto
qed

lemma consume_messages_runs:
  "consume_messages inbox_processor del ctx es i messages d m = (r, acts, d', m') \<Longrightarrow> \<forall>i. L (es i) \<Longrightarrow> runs_to L d d'"
proof (induction messages arbitrary: i d m r acts d' m')
  case Nil
  then show ?case by simp
next
  case (Cons message messages)
  show ?case
  proof (cases "receiveErr ctx (BeforeMessage i)")
    case None
    obtain ok e a1 d1 m1 where p: "processMessage inbox_processor del (es i) message d (recordRetry message m) = ((ok, e), a1, d1, m1)"
      by (metis prod.collapse)
    have first: "runs_to L d d1" using processMessage_runs [where L = L, OF p] Cons.prems(2) by simp
    show ?thesis
    proof (cases e)
      case (Some err)
      with Cons.prems(1) None p first show ?thesis by (simp add: Let_def)
    next
      case none: None
      obtain r2 a2 d2 m2 where k: "consume_messages inbox_processor del ctx es (Suc i) messages d1 m1 = (r2, a2, d2, m2)"
        by (metis prod.collapse)
      from Cons.IH [OF k Cons.prems(2)] first have "runs_to L d d2" by (rule rtranclp_trans [rotated])
      with Cons.prems(1) None p none k show ?thesis by (simp add: Let_def)
    qed
  qed (use Cons.prems(1) in \<open>simp add: Let_def\<close>)
qed

lemma consume_runs:
  "consume received del ctx es d m = (r, acts, d', m') \<Longrightarrow> \<forall>i. L (es i) \<Longrightarrow> runs_to L d d'"
  using consume_messages_runs [where L = L]
  by (auto simp: consume_def ConsumeOnceWithContexts_def split: sum.splits option.splits)

lemma platform_step_runs: "platform_step_in L p p' \<Longrightarrow> runs_to L (pfDb p) (pfDb p')"
proof (induction rule: platform_step_in.induct)
  case (request H r p res d' m')
  then show ?case using request_runs [where L = L] by simp
next
  case (messages t p st acts d' m')
  from ConsumerWorker_turn [OF messages(2)] consume_runs [where L = L, OF _ messages(1)] show ?case by auto
next
  case (publisher t p st d' m')
  from OutboxWorker_turn [OF publisher] sys_runs(5) [of L] show ?case by auto
next
  case (resolver t p st d' m')
  from PendingReferenceWorker_turn [OF resolver(2)] sys_runs(4) [where L = L, OF resolver(1)] show ?case by auto
qed simp

lemma platform_steps_run: "(platform_step_in L)\<^sup>*\<^sup>* p p' \<Longrightarrow> runs_to L (pfDb p) (pfDb p')"
  by (induction rule: rtranclp_induct) (auto dest: platform_step_runs)

lemma sys_steps_reachable: "(sys_step_in L)\<^sup>*\<^sup>* s s' \<Longrightarrow> reachable_in L s \<Longrightarrow> reachable_in L s'"
  by (induction rule: rtranclp_induct) (auto intro: reachable_in.step)

lemma platform_reachable:
  assumes "(platform_step_in L)\<^sup>*\<^sup>* \<lparr>pfDb = empty_database, pfMetrics = m\<rparr> p"
  shows "reachable_in L (system_of (pfDb p))"
proof -
  have "reachable_in L (system_of empty_database)" using reachable_in.initial by (simp add: system_of_def)
  with platform_steps_run [OF assms] sys_steps_reachable show ?thesis by fastforce
qed

text \<open>C7: the platform refines the system. Whatever requests, messages, publisher answers and faults
  the server and the workers meet, every step of the platform is a sequence of steps of \<open>System\<close>; from the
  empty database it only reaches states of that machine, with the constraints of the schema and the books
  intact, and along the way the history only grew. And if the database reads UUID texts by one function
  \<open>R\<close> throughout, the events correspond to the facts under \<open>R\<close>.\<close>

theorem platform_refines_system:
  assumes "platform_step\<^sup>*\<^sup>* \<lparr>pfDb = empty_database, pfMetrics = m\<rparr> p" "platform_step\<^sup>*\<^sup>* p p'"
  shows "reachable (system_of (pfDb p)) \<and> sys_step\<^sup>*\<^sup>* (system_of (pfDb p)) (system_of (pfDb p'))
    \<and> schema_ok (pfDb p') \<and> books (pfDb p') \<and> extends_history (pfDb p) (pfDb p')
    \<and> (\<forall>R. (platform_step_in (reads R))\<^sup>*\<^sup>* \<lparr>pfDb = empty_database, pfMetrics = m\<rparr> p' \<longrightarrow> announced R (pfDb p'))"
proof -
  note p = platform_reachable [OF assms(1)] and run = platform_steps_run [OF assms(2)]
  have "reachable (system_of (pfDb p'))" by (rule platform_reachable [OF rtranclp_trans [OF assms]])
  with p run show ?thesis
    using reachable_inv [of "system_of (pfDb p')"] sys_steps_history [OF run] reachable_announced [OF platform_reachable]
    by (auto simp: sys_inv_def)
qed

text \<open>A request that creates a wallet, one that pays a prize, and a turn of the publisher.\<close>

lemma demo_platform_step:
  "platform_step_in (reads demo_uuid_in) \<lparr>pfDb = empty_database, pfMetrics = NewMetrics\<rparr> \<lparr>pfDb = demo_db1, pfMetrics = NewMetrics\<rparr>"
  using demo_serve_create
  by (intro platform_step_in.request [of _ "demo_http 1" demo_create_request])
    (simp_all add: demo_http_def demo_reads del: One_nat_def)

lemma platform_step_in_mono: "platform_step_in P p p' \<Longrightarrow> (\<And>E. P E \<Longrightarrow> Q E) \<Longrightarrow> platform_step_in Q p p'"
  by (induction rule: platform_step_in.induct)
    (auto intro: platform_step_in.intros simp del: ConsumerWorker_Run.simps OutboxWorker_Run.simps PendingReferenceWorker_Run.simps)

lemma platform_steps_reads: "(platform_step_in (reads R))\<^sup>*\<^sup>* p p' \<Longrightarrow> platform_step\<^sup>*\<^sup>* p p'"
  by (erule rtranclp_mono [THEN predicate2D, rotated]) (auto elim!: platform_step_in_mono dest: readsD)

lemma platform_refines_system_witness:
  "\<exists>d' m'. (platform_step_in (reads demo_uuid_in))\<^sup>*\<^sup>* \<lparr>pfDb = empty_database, pfMetrics = NewMetrics\<rparr> \<lparr>pfDb = d', pfMetrics = m'\<rparr>
     \<and> reachable (system_of demo_db1) \<and> books d' \<and> announced demo_uuid_in d' \<and> extends_history demo_db1 d'"
proof -
  let ?p1 = "\<lparr>pfDb = demo_db1, pfMetrics = NewMetrics\<rparr>"
  obtain res d2 m2 where "serve_http (demo_http 2) demo_win_request demo_db1 NewMetrics = (res, d2, m2)"
    by (metis prod.collapse)
  then have s2: "platform_step_in (reads demo_uuid_in) ?p1 \<lparr>pfDb = d2, pfMetrics = m2\<rparr>"
    by (intro platform_step_in.request [of _ "demo_http 2"]) (simp_all add: demo_http_def demo_reads)
  obtain st d3 m3 where "OutboxWorker_Run [demo_turn] d2 m2 = (st, d3, m3)"
    by (metis prod.collapse)
  then have s3: "platform_step_in (reads demo_uuid_in) \<lparr>pfDb = d2, pfMetrics = m2\<rparr> \<lparr>pfDb = d3, pfMetrics = m3\<rparr>"
    by (intro platform_step_in.publisher [of demo_turn]) simp
  from s2 s3 have run: "(platform_step_in (reads demo_uuid_in))\<^sup>*\<^sup>* ?p1 \<lparr>pfDb = d3, pfMetrics = m3\<rparr>"
    by (meson r_into_rtranclp rtranclp_trans)
  note all = converse_rtranclp_into_rtranclp [OF demo_platform_step run]
  from platform_refines_system [OF platform_steps_reads [OF r_into_rtranclp [of "platform_step_in _", OF demo_platform_step]] platform_steps_reads [OF run]]
    all show ?thesis by (metis platform.select_convs(1))
qed

section \<open>What a deleted message stands for\<close>

text \<open>Every request and every turn of a worker keeps the invariant of the inbox.\<close>

lemma platform_step_backed:
  "platform_step p p' \<Longrightarrow> schema_ok (pfDb p) \<Longrightarrow> backed (pfDb p) \<Longrightarrow> backed (pfDb p')"
proof (induction rule: platform_step_in.induct)
  case (request H r p res d' m')
  from request(2) show ?case
  proof (cases rule: serve_http_effect)
    case (create cmd x)
    then show ?thesis
      using same_inbox.Wallet_Create_R [of "hService H" cmd "pfDb p"]
        history.Wallet_Create_R [of "pfDb p" "hService H" cmd]
      by (intro backed_mono [OF request(4)]) simp_all
  next
    case (process q cmd x)
    then show ?thesis
      using same_inbox.Service_Process_R [of "hService H" cmd "start_world (pfDb p)" "pfMetrics p"]
        history.Service_Process_R [of "start_world (pfDb p)" "hService H" cmd "pfMetrics p"]
      by (intro backed_mono [OF request(4)]) simp_all
  qed (use request(4) in simp)
next
  case (messages t p st acts d' m')
  from ConsumerWorker_turn [OF messages(2)] consume_backed [OF _ messages(3,4)] messages(1,4) show ?case by auto
next
  case (publisher t p st d' m')
  from OutboxWorker_turn [OF publisher(1)] backed_mono [OF publisher(3) same_inbox.PublishBatch_R history.PublishBatch_R] publisher(3)
  show ?case by auto
next
  case (resolver t p st d' m')
  have "backed (fst (snd (ResolveOne (meets t) (start_world (pfDb p)) (pfMetrics p))))"
    using same_inbox.ResolveOne_R [of "meets t" "start_world (pfDb p)"] history.ResolveOne_R [of "start_world (pfDb p)"]
    by (intro backed_mono [OF resolver(4)]) simp_all
  with PendingReferenceWorker_turn [OF resolver(2)] resolver(4) show ?case by auto
qed simp

lemma platform_backed:
  assumes "platform_step\<^sup>*\<^sup>* \<lparr>pfDb = empty_database, pfMetrics = m\<rparr> p"
  shows "schema_ok (pfDb p) \<and> backed (pfDb p)"
  using assms
proof (induction rule: rtranclp_induct)
  case base
  have "reachable (system_of empty_database)" using reachable_in.initial by (simp add: system_of_def)
  then show ?case using reachable_inv [of "system_of empty_database"] backed_empty by (simp add: sys_inv_def)
next
  case (step p p')
  have "reachable (system_of (pfDb p'))" by (rule platform_reachable [OF rtranclp.rtrancl_into_rtrancl [OF step(1,2)]])
  then show ?case using reachable_inv [of "system_of (pfDb p')"] platform_step_backed [OF step(2)] step(3) by (simp add: sys_inv_def)
qed

text \<open>C23: a message is deleted only after its command was carried out. On a database the platform
  reached, whatever is received, meets a fault or is cancelled, a message the consumer deletes is one
  of the batch that decoded to a command, is recorded as completed under the hash of its body, and a
  transaction is stored under the provider and the idempotency key, with the hash of the request, of the
  command with that message id that was completed. Its body has the SHA-256 of the body deleted, so it
  is that body, and its command the command of the deleted message, unless SHA-256 collides.\<close>

theorem deleted_only_after_commit:
  assumes "platform_step\<^sup>*\<^sup>* \<lparr>pfDb = empty_database, pfMetrics = m0\<rparr> p" "\<forall>i. uuid_laws (es i)"
    and "consume received delete ctx es (pfDb p) m = (r, acts, d', m')" "DeleteMessage h \<in> set acts"
  shows "\<exists>messages. received = Inr messages
     \<and> (\<exists>message \<in> set messages. msgReceiptHandle message = Some h \<and> committed d' message
          \<and> (\<exists>body command body0 command0. command_of message = Some (body, command)
               \<and> decodeCommand body0 = Inr command0 \<and> cmMessageID (dcMessage command0) = cmMessageID (dcMessage command)
               \<and> sha256_hex body0 = sha256_hex body \<and> carried_out (command_in body0 command0) d'))"
proof -
  have "backed d'"
    using assms(2) platform_backed [OF assms(1)] by (intro consume_backed [OF assms(3)]) simp_all
  moreover obtain messages message where m: "received = Inr messages" "message \<in> set messages"
      "msgReceiptHandle message = Some h" "committed d' message"
    using consume_deletes_committed [OF assms(3,4)] by blast
  ultimately show ?thesis
    using committed_carried_out [OF m(4)] by (intro exI [of _ messages] conjI bexI [of _ message] m)
qed

text \<open>A wallet is created over HTTP; the message of a win is consumed and deleted, and its transaction is stored.\<close>

lemma deleted_only_after_commit_witness:
  "\<exists>d' m' command0 body0. consume (Inr [demo_a_message]) (\<lambda>_. None) live (\<lambda>_. demo_env 2) demo_db1 NewMetrics
       = ((1, None), [DeleteMessage ''h''], d', m')
     \<and> sha256_hex body0 = sha256_hex demo_a_body \<and> decodeCommand body0 = Inr command0
     \<and> carried_out (command_in body0 command0) d'"
proof -
  obtain d' m' where run: "consume (Inr [demo_a_message]) (\<lambda>_. None) live (\<lambda>_. demo_env 2) demo_db1 NewMetrics
      = ((1, None), [DeleteMessage ''h''], d', m')"
    by (rule demo_a_consumed)
  note steps = platform_steps_reads [OF r_into_rtranclp [of "platform_step_in _", OF demo_platform_step]]
  from deleted_only_after_commit [OF steps, of "\<lambda>_. demo_env 2" "Inr [demo_a_message]" "\<lambda>_. None" live NewMetrics _ _ d' m' "''h''"] run
  show ?thesis by (auto simp: demo_laws demo_a_same(1))
qed

end
