(* ===== verification/Inbox_Properties.thy ===== *)
theory Inbox_Properties
  imports Consumer_Properties Workers
begin

text \<open>
  What the inbox refuses, and how long the consumer may go on once it is told to stop.
\<close>

section \<open>An altered message\<close>

lemma MessageProcessor_conflict:
  assumes "schema_ok d" "calm E" "x \<in> set (inbox_messages d)" "inbox_key (mpConsumerName cmd) (mpMessageID cmd) x"
    and "i_payload_hash x \<noteq> inbox_PayloadHash (mpRawPayload cmd)"
    and "mpConsumerName cmd \<noteq> []" "mpMessageID cmd \<noteq> []" "mpRawPayload cmd \<noteq> []"
  shows "MessageProcessor_Process E cmd (start_world d) m =
     (Inl (Sentinel ErrPayloadConflict), d, ObserveProcessingDuration (elapsed E) m)"
  using Register_known [of "start_world d" x "mpConsumerName cmd" "mpMessageID cmd" E "mpRawPayload cmd"] assms
  by (simp add: MessageProcessor_Process_def run_tx_def message_tx_def tx_bind_def calm_def)

text \<open>C30: a message id stands for one body. When the consumer's inbox holds the id of a message with the hash
  of another body, whether completed or not, and no statement fails, the processor reports
  \<^verbatim>\<open>ErrPayloadConflict\<close>: the database does not change, the message is not deleted but hidden
  for its retry delay, and nothing after it in the batch is processed.\<close>

theorem altered_message_is_refused:
  assumes "schema_ok d" "calm (es 0)" "command_of message = Some (body, command)" "msgReceiptHandle message = Some h"
    and "x \<in> set (inbox_messages d)" "inbox_key defaultConsumerName (cmMessageID (dcMessage command)) x"
    and "i_payload_hash x \<noteq> inbox_PayloadHash body"
    and "\<forall>t. receiveErr ctx t = None" "\<forall>t. processingErr ctx t = None"
  shows "\<exists>m'. consume (Inr (message # messages)) delete ctx es d m =
     ((0, Some (Wrapped (''process SQS command '' @ cmMessageID (dcMessage command)) (Sentinel ErrPayloadConflict))),
      [ChangeMessageVisibility h (retryVisibility (approximateReceiveCount message))], d, m')"
proof -
  let ?cmd = "consumer_command body command"
  have msg: "msgBody message = Some body" "decodeCommand body = Inr command"
    using assms(3) by (auto simp: command_of_def split: option.splits sum.splits)
  have named: "mpConsumerName ?cmd = defaultConsumerName" "mpMessageID ?cmd = cmMessageID (dcMessage command)"
    "mpRawPayload ?cmd = body" "mpConsumerName ?cmd \<noteq> []" "mpMessageID ?cmd \<noteq> []" "body \<noteq> []"
    using decodeCommand_named [OF msg(2)] by (simp_all add: consumer_command_def Let_def defaultConsumerName_def)
  have "MessageProcessor_Process (es 0) ?cmd (start_world d) m1 =
      (Inl (Sentinel ErrPayloadConflict), d, ObserveProcessingDuration (elapsed (es 0)) m1)" for m1
    using assms named by (intro MessageProcessor_conflict [of d "es 0" x]) simp_all
  with msg assms(4,8,9) show ?thesis
    by (simp add: consume_def ConsumeOnceWithContexts_def processMessage_def Let_def after_failure_def
        consumer_scheduleRetry_def)
qed

definition demo_taken_row :: inbox_row where
  "demo_taken_row =
     \<lparr>i_consumer_name = defaultConsumerName, i_message_id = cmMessageID (dcMessage demo_decoded), i_payload_hash = ''x'',
      i_received_at = 0, i_completed_at = Some 0\<rparr>"

definition demo_taken :: database where
  "demo_taken = demo_db2\<lparr>inbox_messages := [demo_taken_row]\<rparr>"

lemma demo_taken_schema: "schema_ok demo_taken"
proof -
  have "unique_violation inbox_uniques [r] = None" for r
    by (simp add: unique_violation_None inbox_uniques_def conflict_free_def)
  moreover have "inbox_widths demo_taken_row"
    by (simp add: inbox_widths_def demo_taken_row_def demo_decoded_def defaultConsumerName_def)
  moreover have "schema_ok demo_db2 \<Longrightarrow> unique_violation inbox_uniques rs = None \<Longrightarrow> list_all inbox_widths rs \<Longrightarrow> schema_ok (demo_db2\<lparr>inbox_messages := rs\<rparr>)" for rs
    by (simp add: schema_ok_def)
  ultimately show ?thesis using demo_db2_schema by (simp add: demo_taken_def)
qed

lemma altered_message_is_refused_witness:
  "\<exists>e v m'. consume (Inr [demo_message]) (\<lambda>_. None) live (\<lambda>_. demo_env 3) demo_taken NewMetrics =
     ((0, Some e), [ChangeMessageVisibility ''h'' v], demo_taken, m') \<and> errors_is e ErrPayloadConflict"
proof -
  have "''x'' \<noteq> inbox_PayloadHash s" for s
  proof
    assume "''x'' = inbox_PayloadHash s"
    from arg_cong [OF this, of length] show False by (simp add: inbox_PayloadHash_def)
  qed
  then have "\<exists>m'. consume (Inr [demo_message]) (\<lambda>_. None) live (\<lambda>_. demo_env 3) demo_taken NewMetrics =
     ((0, Some (Wrapped (''process SQS command '' @ cmMessageID (dcMessage demo_decoded)) (Sentinel ErrPayloadConflict))),
      [ChangeMessageVisibility ''h'' (retryVisibility (approximateReceiveCount demo_message))], demo_taken, m')"
    by (intro altered_message_is_refused [where x = demo_taken_row and body = demo_body, OF demo_taken_schema demo_calm(1)])
      (simp_all add: command_of_def demo_message_def demo_decode demo_taken_def demo_taken_row_def inbox_key_def live_def)
  then show ?thesis by (elim exE) (intro exI conjI, assumption, simp)
qed

section \<open>Draining\<close>

text \<open>The processing context of a consumption is cancelled, if at all, while the consumption runs, within the drain
  timeout after the receive context ended, and not after the shutdown deadline that was still ahead.\<close>

lemma drain_bounded:
  assumes "watchForShutdown drainTimeout received_done deadline shutdown_done operation_done = Some c" "0 \<le> drainTimeout"
  obtains t where "received_done = Some t" "t \<le> c" "c \<le> t + drainTimeout" "c < operation_done"
    "\<And>e. deadline = Some e \<Longrightarrow> t \<le> e \<Longrightarrow> c \<le> e"
  using assms
  by (cases received_done)
    (auto simp: watchForShutdown_def drain_duration_def Let_def not_le split: option.splits if_splits)

end
