(* ===== verification/Ledger_Pages.thy ===== *)
theory Ledger_Pages
  imports Scenario
begin

text \<open>
  Pages of a wallet's ledger. A cursor survives its own encoding, and following the cursors
  from the empty one yields the whole ledger once, in order, whatever the page size.
\<close>

section \<open>Cursors\<close>

definition plain_char :: "char \<Rightarrow> bool" where
  "plain_char c \<longleftrightarrow> is_digit c \<or> c \<in> set ''-:.TZ''"

lemma escape_ascii_plain:
  "32 \<le> byte c \<Longrightarrow> byte c \<notin> {34, 92, 60, 62, 38} \<Longrightarrow> escape_ascii c = [c]"
  by (auto simp: escape_ascii_def byte_def)

lemma plain_char_byte: "plain_char c \<Longrightarrow> 45 \<le> byte c \<and> byte c < 91 \<and> byte c \<notin> {60, 62}"
  by (auto simp: plain_char_def is_digit_def byte_def)

lemma plain_char_escape: "plain_char c \<Longrightarrow> byte c < 0x80 \<and> escape_ascii c = [c]"
  using plain_char_byte [of c] by (auto intro!: escape_ascii_plain)

lemma plain_escape: "list_all plain_char s \<Longrightarrow> json_escape s = s"
  by (induction s) (auto dest: plain_char_escape)

lemma digits_plain: "list_all is_digit s \<Longrightarrow> list_all plain_char s"
  by (auto simp: list_all_iff plain_char_def)

lemma pad_nat_plain [simp]: "list_all plain_char (pad_nat w n)"
  by (rule digits_plain) (rule pad_nat_digits)

lemma plain_punctuation [simp]: "plain_char CHR ''-''" "plain_char CHR '':''" "plain_char CHR ''.''" "plain_char CHR ''T''" "plain_char CHR ''Z''"
  by (simp_all add: plain_char_def)

lemma trim_zeros_plain: "list_all plain_char s \<Longrightarrow> list_all plain_char (trim_zeros s)"
  using trim_zeros_split [of s] by (metis list_all_append)

lemma rfc3339_plain: "rfc3339_nano t = Some s \<Longrightarrow> list_all plain_char s"
  by (auto simp: rfc3339_nano_def Let_def date_text_def clock_text_def fraction_text_def trim_zeros_plain split: if_splits)

lemma b64_encode_Nil: "b64_encode s = [] \<longleftrightarrow> s = []"
  by (cases s rule: b64_encode.cases) simp_all

text \<open>The instants of the years 0 to 9999 can be written.\<close>

lemma rfc3339_defined:
  assumes "0 \<le> t div ns_per_day + epoch_day" "t div ns_per_day + epoch_day < 3652425"
  shows "rfc3339_nano t \<noteq> None"
proof -
  let ?n = "nat (t div ns_per_day + epoch_day)"
  have "\<not> 10000 \<le> year_of ?n"
  proof
    assume "10000 \<le> year_of ?n"
    then have "year_start 10000 \<le> year_start (year_of ?n)"
      using year_start_mono [of 10000 "year_of ?n - 10000"] by simp
    moreover have "year_start 10000 = 3652425" by (simp add: year_start_def)
    ultimately show False using year_of_spec(1) [of ?n] assms by linarith
  qed
  with assms(1) show ?thesis by (simp add: rfc3339_nano_def Let_def date_of_def split: prod.split)
qed

definition writable_time :: "time \<Rightarrow> bool" where
  "writable_time t \<longleftrightarrow> zero_time < t \<and> t < 253402300800000000"

lemma writable_cursor:
  assumes "writable_time t"
  obtains s where "encodeLedgerCursor \<lparr>lcCreatedAt = nanos t, lcID = i\<rparr> = Inr s"
proof -
  have "nanos t div ns_per_day = t div 86400000000"
    using zdiv_zmult2_eq [of 86400000000 "1000 * t" 1000] by (simp add: nanos_def ns_per_day_def)
  moreover have "- 719528 \<le> t div 86400000000" "t div 86400000000 < 2932897"
    using assms by (auto simp: writable_time_def zero_time_def intro: zdiv_mono1 [of "- 719528 * 86400000000", simplified])
  ultimately have "rfc3339_nano (nanos t) \<noteq> None"
    by (intro rfc3339_defined) (simp_all add: epoch_day_def)
  then show ?thesis using that by (auto simp: encodeLedgerCursor_def)
qed

lemma cursor_reads_back:
  assumes "encodeLedgerCursor c = Inr s"
    and "lcCreatedAt c \<noteq> nanos zero_time" "uuid_Parse E (lcID c) \<noteq> None" "well_formed (lcID c)"
  shows "decodeLedgerCursor E s = Inr c \<and> s \<noteq> []"
proof -
  from assms(1) obtain t where t: "rfc3339_nano (lcCreatedAt c) = Some t"
    and s: "s = b64_encode (json_object [(''createdAt'', t), (''id'', lcID c)])"
    by (auto simp: encodeLedgerCursor_def split: option.splits)
  have keys: "well_formed ''createdAt''" "well_formed ''id''" by (simp_all add: byte_def)
  have "Unmarshal cursor_fields (json_object [(''createdAt'', t), (''id'', lcID c)]) \<lparr>lcCreatedAt = nanos zero_time, lcID = []\<rparr> = Some c"
    using time_Parse_rfc3339 [OF t] plain_escape [OF rfc3339_plain [OF t]]
    by (simp add: Unmarshal_members raw_member_def unquote_json_escape keys assms(4) cursor_fields_def find_field_def
        text_field_def string_field_def del: json_escape.simps unquote.simps well_formed.simps)
  moreover have "json_object [(''createdAt'', t), (''id'', lcID c)] \<noteq> []" by (simp add: json_object_def)
  ultimately show ?thesis
    using assms(2,3) by (simp add: s decodeLedgerCursor_def b64_decode_encode b64_encode_Nil)
qed

text \<open>A page cursor survives its encoding. Every cursor that \<^verbatim>\<open>encodeLedgerCursor\<close> writes for
  a ledger entry is read back by \<^verbatim>\<open>decodeLedgerCursor\<close> as the same instant and id, and is never the
  empty text that means the first page.\<close>

theorem cursor_round_trip:
  assumes "encodeLedgerCursor c = Inr s"
    and "lcCreatedAt c \<noteq> nanos zero_time" "uuid_Parse E (lcID c) \<noteq> None" "well_formed (lcID c)"
  shows "decodeLedgerCursor E s = Inr c \<and> s \<noteq> []"
  by (rule cursor_reads_back [OF assms])

lemma cursor_round_trip_witness:
  "\<exists>s. encodeLedgerCursor \<lparr>lcCreatedAt = 1700000000123456000, lcID = ''42''\<rparr> = Inr s
     \<and> decodeLedgerCursor (demo_env 1) s = Inr \<lparr>lcCreatedAt = 1700000000123456000, lcID = ''42''\<rparr>"
proof -
  have "rfc3339_nano 1700000000123456000 \<noteq> None"
    by (rule rfc3339_defined) (simp_all add: ns_per_day_def epoch_day_def)
  then obtain s where s: "encodeLedgerCursor \<lparr>lcCreatedAt = 1700000000123456000, lcID = ''42''\<rparr> = Inr s"
    by (auto simp: encodeLedgerCursor_def)
  have "uuid_Parse (demo_env 1) ''42'' \<noteq> None" by (simp add: demo_uuid_in_def is_digit_def)
  with s show ?thesis
    using cursor_round_trip [OF s, of "demo_env 1"] by (simp add: nanos_def zero_time_def byte_def)
qed

section \<open>Following the cursors\<close>

text \<open>What a client collects that asks for pages until there is no next cursor. The first argument
  bounds the number of requests.\<close>

fun all_pages :: "nat \<Rightarrow> env \<Rightarrow> string \<Rightarrow> int \<Rightarrow> string \<Rightarrow> database \<Rightarrow> LedgerEntryResult list list option" where
  "all_pages 0 E walletID limit cursor d = None"
| "all_pages (Suc n) E walletID limit cursor d =
     (case Wallet_LedgerPage walletID limit cursor E (start_world d) of
        Inl _ \<Rightarrow> None
      | Inr (page, _) \<Rightarrow>
          if lpNextCursor page = [] then Some [lpEntries page]
          else map_option ((#) (lpEntries page)) (all_pages n E walletID limit (lpNextCursor page) d))"

abbreviation entry_key :: "ledger_row \<Rightarrow> time \<times> uuid" where
  "entry_key l \<equiv> (l_created_at l, l_id l)"

lemma after_cursor_key: "after_cursor t i l \<longleftrightarrow> (t, i) < entry_key l"
  by (auto simp: after_cursor_def)

lemma set_ordered_ledger: "set (ordered_ledger i d) = {l \<in> set (ledger_entries d). l_wallet_id l = i}"
  by (auto simp: ordered_ledger_def)

lemma ledger_ids_distinct: "schema_ok d \<Longrightarrow> distinct (map l_id (ledger_entries d))"
  by (rule conflict_free_distinct)
    (auto simp: schema_ok_def table_ok_def unique_violation_None ledger_uniques_def split: if_splits)

lemma ordered_ledger_strict:
  assumes "schema_ok d"
  shows "sorted_wrt (<) (map entry_key (ordered_ledger i d))"
proof -
  have "distinct (map l_id (filter (\<lambda>l. l_wallet_id l = i) (ledger_entries d)))"
    using ledger_ids_distinct [OF assms] by (rule distinct_map_filter)
  then have "distinct (map l_id (ordered_ledger i d))"
    unfolding ordered_ledger_def distinct_map by (auto simp: inj_on_def)
  then have "distinct (map entry_key (ordered_ledger i d))"
    by (auto simp: distinct_map inj_on_def)
  moreover have "sorted (map entry_key (ordered_ledger i d))" by (simp add: ordered_ledger_def)
  ultimately show ?thesis by (simp add: strict_sorted_iff)
qed

lemma filter_after:
  fixes k :: "'a \<Rightarrow> 'b :: linorder"
  assumes "sorted_wrt (<) (map k (a @ x # b))"
  shows "filter (\<lambda>y. k x < k y) (a @ x # b) = b"
proof -
  have "filter (\<lambda>y. k x < k y) a = []"
    using assms by (auto simp: sorted_wrt_append filter_empty_conv not_less intro: less_imp_le)
  moreover have "filter (\<lambda>y. k x < k y) b = b"
    using assms by (auto simp: sorted_wrt_append filter_id_conv)
  ultimately show ?thesis by simp
qed

text \<open>The position a cursor stands for: the entries after the one it names.\<close>

definition cursor_at :: "env \<Rightarrow> string \<Rightarrow> ledger_row list \<Rightarrow> bool" where
  "cursor_at E cursor shown \<longleftrightarrow>
     (if shown = [] then cursor = []
      else encodeLedgerCursor \<lparr>lcCreatedAt = nanos (l_created_at (last shown)), lcID = uuid_String E (l_id (last shown))\<rparr>
        = Inr cursor)"

definition ledger_readable :: "env \<Rightarrow> string \<Rightarrow> uuid \<Rightarrow> database \<Rightarrow> bool" where
  "ledger_readable E walletID i d \<longleftrightarrow>
     uuid_laws E \<and> (\<forall>u. well_formed (uuid_String E u)) \<and> schema_ok d \<and> (\<forall>n. fault E n = None)
     \<and> uuid_Parse E walletID = Some i \<and> i \<in> w_id ` set (wallets d)
     \<and> (\<forall>l \<in> set (ledger_entries d). writable_time (l_created_at l))"

lemma micros_nanos [simp]: "micros (nanos t) = t"
  by (simp add: micros_def nanos_def)

lemma writable_not_zero: "writable_time t \<Longrightarrow> nanos t \<noteq> nanos zero_time"
  by (simp add: writable_time_def nanos_def)

lemma cursor_decodes:
  assumes "ledger_readable E walletID i d" "cursor_at E cursor shown" "shown \<noteq> []" "set shown \<subseteq> set (ledger_entries d)"
  shows "decodeLedgerCursor E cursor =
      Inr \<lparr>lcCreatedAt = nanos (l_created_at (last shown)), lcID = uuid_String E (l_id (last shown))\<rparr> \<and> cursor \<noteq> []"
proof -
  have "last shown \<in> set (ledger_entries d)" using assms(3,4) last_in_set by blast
  then have "writable_time (l_created_at (last shown))" using assms(1) by (simp add: ledger_readable_def)
  with assms show ?thesis
    by (intro cursor_reads_back) (auto simp: cursor_at_def ledger_readable_def writable_not_zero uuid_laws_simps)
qed

lemma page_at:
  assumes ok: "ledger_readable E walletID i d" and split: "ordered_ledger i d = shown @ rest" and at: "cursor_at E cursor shown"
  shows "\<exists>w'. Wallet_LedgerPage walletID limit cursor E (start_world d) =
     tx_lift (page_of (page_size limit) (map (scan_ledger_entry E) (take (page_size limit + 1) rest))) E w'"
proof -
  note simps = Wallet_LedgerPage_def parseExistingWallet_def parse_or_not_found_def page_query_def tx_bind_def
    sql_read_def sql_def tx_simps start_world_def
  have env: "uuid_Parse E walletID = Some i" "\<forall>n. fault E n = None" "list_ex (\<lambda>r. w_id r = i) (wallets d)"
    using ok by (auto simp: ledger_readable_def list_ex_iff)
  show ?thesis
  proof (cases "shown = []")
    case True
    with at have "cursor = []" by (simp add: cursor_at_def)
    with True env split show ?thesis by (auto simp: simps Let_def tx_map_err_def)
  next
    case False
    have "set shown \<subseteq> set (ledger_entries d)"
      using set_ordered_ledger [of i d] by (auto simp: split)
    note dec = cursor_decodes [OF ok at False this]
    have param: "uuid_param E (uuid_String E u) = Inr u" for u
      using ok by (simp add: ledger_readable_def uuid_param_def uuid_laws_simps)
    have "ordered_ledger i d = butlast shown @ last shown # rest" using False by (simp add: split)
    then have "filter (\<lambda>l. entry_key (last shown) < entry_key l) (ordered_ledger i d) = rest"
      using ordered_ledger_strict [of d i] filter_after [of entry_key "butlast shown" "last shown" rest] ok
      by (simp add: ledger_readable_def)
    then have "filter (after_cursor (l_created_at (last shown)) (l_id (last shown))) (ordered_ledger i d) = rest"
      by (simp add: after_cursor_key [abs_def])
    with dec env show ?thesis
      by (auto simp: simps Let_def tx_map_err_def param)
  qed
qed

lemma page_size_bounds: "1 \<le> page_size limit" "page_size limit \<le> 100"
  by (auto simp: page_size_def Let_def DefaultLedgerPageSize_def MaxLedgerPageSize_def)

lemma page_of_short: "length rest \<le> n \<Longrightarrow>
    page_of n (map (scan_ledger_entry E) (take (n + 1) rest)) = Inr \<lparr>lpEntries = map (scan_ledger_entry E) rest, lpNextCursor = []\<rparr>"
  by (simp add: page_of_def)

lemma page_of_long:
  assumes "n < length rest" "1 \<le> n" "writable_time (l_created_at (last (take n rest)))"
  obtains c where "page_of n (map (scan_ledger_entry E) (take (n + 1) rest)) =
      Inr \<lparr>lpEntries = map (scan_ledger_entry E) (take n rest), lpNextCursor = c\<rparr>"
    "cursor_at E c (shown @ take n rest)"
proof -
  let ?l = "last (take n rest)"
  obtain c where c: "encodeLedgerCursor \<lparr>lcCreatedAt = nanos (l_created_at ?l), lcID = uuid_String E (l_id ?l)\<rparr> = Inr c"
    using writable_cursor [OF assms(3)] by metis
  have ne: "take n rest \<noteq> []" using assms(1,2) by auto
  have "take n (map (scan_ledger_entry E) (take (n + 1) rest)) = map (scan_ledger_entry E) (take n rest)"
    by (simp add: take_map min_def)
  moreover have "last (map (scan_ledger_entry E) (take n rest)) = scan_ledger_entry E ?l"
    using ne by (rule last_map)
  ultimately have "page_of n (map (scan_ledger_entry E) (take (n + 1) rest)) =
      Inr \<lparr>lpEntries = map (scan_ledger_entry E) (take n rest), lpNextCursor = c\<rparr>"
    using assms(1) c by (simp add: page_of_def Let_def scan_ledger_entry_def)
  moreover have "cursor_at E c (shown @ take n rest)" using ne c by (simp add: cursor_at_def)
  ultimately show ?thesis using that by blast
qed

lemma all_pages_rest:
  assumes ok: "ledger_readable E walletID i d"
  shows "ordered_ledger i d = shown @ rest \<Longrightarrow> cursor_at E cursor shown \<Longrightarrow> length rest < m \<Longrightarrow>
    \<exists>pages. all_pages m E walletID limit cursor d = Some pages
      \<and> concat pages = map (scan_ledger_entry E) rest \<and> pages \<noteq> []
      \<and> (\<forall>p \<in> set pages. length p \<le> page_size limit) \<and> (\<forall>p \<in> set (butlast pages). length p = page_size limit)"
proof (induction m arbitrary: shown rest cursor)
  case 0
  then show ?case by simp
next
  case (Suc m)
  let ?n = "page_size limit"
  obtain w' where run: "Wallet_LedgerPage walletID limit cursor E (start_world d) =
      tx_lift (page_of ?n (map (scan_ledger_entry E) (take (?n + 1) rest))) E w'"
    using page_at [OF ok Suc.prems(1,2)] by blast
  show ?case
  proof (cases "length rest \<le> ?n")
    case True
    from run show ?thesis unfolding page_of_short [OF True] using True by (simp add: tx_simps)
  next
    case False
    have "take ?n rest \<noteq> []" using False page_size_bounds [of limit] by auto
    from last_in_set [OF this] have "last (take ?n rest) \<in> set (ordered_ledger i d)"
      using set_take_subset [of ?n rest] by (auto simp: Suc.prems(1))
    then have "writable_time (l_created_at (last (take ?n rest)))"
      using ok by (auto simp: set_ordered_ledger ledger_readable_def)
    with False page_size_bounds obtain c where pg: "page_of ?n (map (scan_ledger_entry E) (take (?n + 1) rest)) =
        Inr \<lparr>lpEntries = map (scan_ledger_entry E) (take ?n rest), lpNextCursor = c\<rparr>"
      and at: "cursor_at E c (shown @ take ?n rest)"
      using page_of_long [of ?n rest E shown] by (metis not_le)
    have "ordered_ledger i d = (shown @ take ?n rest) @ drop ?n rest" using Suc.prems(1) by simp
    moreover have "length (drop ?n rest) < m" using Suc.prems(3) False page_size_bounds [of limit] by simp
    ultimately obtain pages where pages: "all_pages m E walletID limit c d = Some pages"
      "concat pages = map (scan_ledger_entry E) (drop ?n rest)" "pages \<noteq> []"
      "\<forall>p \<in> set pages. length p \<le> ?n" "\<forall>p \<in> set (butlast pages). length p = ?n"
      using Suc.IH [OF _ at] by blast
    have "c \<noteq> []"
    proof -
      have "shown @ take ?n rest \<noteq> []" using False page_size_bounds [of limit] by auto
      moreover have "set (shown @ take ?n rest) \<subseteq> set (ledger_entries d)"
        using set_ordered_ledger [of i d] set_take_subset [of ?n rest] by (auto simp: Suc.prems(1))
      ultimately show ?thesis using cursor_decodes [OF ok at] by blast
    qed
    with run pg pages False show ?thesis
      by (simp add: tx_simps map_append [symmetric] del: map_append)
  qed
qed

text \<open>C31: the pages are the ledger. A client that starts without a cursor and follows
  \<^verbatim>\<open>nextCursor\<close> receives, with at most one request more than the wallet has entries, every entry of the
  wallet exactly once in the order of (created_at, id); every page but the last has exactly the page
  size, which is 50 for a limit that is not positive and never more than 100. The entries' times lie in
  the years that a cursor can name, and the texts of UUIDs are well-formed UTF-8.\<close>

theorem pages_are_the_ledger:
  assumes "ledger_readable E walletID i d"
  shows "\<exists>pages. all_pages (Suc (length (ordered_ledger i d))) E walletID limit [] d = Some pages
      \<and> concat pages = map (scan_ledger_entry E) (ordered_ledger i d)
      \<and> sorted_wrt (<) (map entry_key (ordered_ledger i d))
      \<and> set (ordered_ledger i d) = {l \<in> set (ledger_entries d). l_wallet_id l = i}
      \<and> (\<forall>p \<in> set (butlast pages). length p = page_size limit) \<and> (\<forall>p \<in> set pages. length p \<le> page_size limit)
      \<and> page_size limit \<in> {1..100}"
  using all_pages_rest [OF assms, of "[]" "ordered_ledger i d" "[]" "Suc (length (ordered_ledger i d))" limit]
    assms page_size_bounds [of limit]
  by (auto simp: cursor_at_def ordered_ledger_strict set_ordered_ledger ledger_readable_def)

lemma digits_well_formed: "list_all is_digit s \<Longrightarrow> well_formed s"
  by (induction s) (auto simp: is_digit_def byte_def)

lemma demo_readable: "ledger_readable (demo_env 1) ''100'' 100 demo_db3"
proof -
  have "l \<in> set (ledger_entries demo_db3) \<Longrightarrow> writable_time (l_created_at l)" for l
    by (auto simp: demo_rows writable_time_def zero_time_def)
  then show ?thesis
    using demo_laws [of 1] demo_schema(1)
    by (auto simp: ledger_readable_def digits_well_formed demo_db3_def demo_wallet_def)
qed

lemma demo_ordered_ledger:
  "ordered_ledger 100 demo_db3 = [demo_entry 2 DirectionCredit 5000 0 5000, demo_entry 3 DirectionDebit 3000 5000 2000]"
  by (simp add: ordered_ledger_def demo_rows)

lemma pages_are_the_ledger_witness:
  "\<exists>pages. all_pages 3 (demo_env 1) ''100'' 1 [] demo_db3 = Some pages
     \<and> concat pages = map (scan_ledger_entry (demo_env 1))
         [demo_entry 2 DirectionCredit 5000 0 5000, demo_entry 3 DirectionDebit 3000 5000 2000]"
  using pages_are_the_ledger [OF demo_readable, of 1] unfolding demo_ordered_ledger
  by (auto simp: numeral_3_eq_3 simp del: all_pages.simps)

end
