(* ===== verification/Reconciliation.thy ===== *)
theory Reconciliation
  imports Ledger_Pages
begin

text \<open>
  What reconciliation detects. On rows the schema admits, the loop over the ordered entries never
  fails, and its verdict is that the entries form a chain of balances that ends in the stored
  balance.
\<close>

section \<open>The loop\<close>

definition entry_sound :: "ledger_row \<Rightarrow> bool" where
  "entry_sound l \<longleftrightarrow> ledger_arithmetic l \<and> 0 < sint (l_amount l)"

lemma entry_credit:
  assumes "entry_sound l" "l_direction l = DirectionCredit"
  shows "Money_Add (NewMoney (l_balance_before l) cur) (NewMoney (l_amount l) cur) = Inr (NewMoney (l_balance_after l) cur)"
  using assms by (auto simp: entry_sound_def ledger_arithmetic_def Money_Add_Inr)

lemma entry_debit:
  assumes "entry_sound l" "l_direction l = DirectionDebit"
  shows "Money_Subtract (NewMoney (l_balance_before l) cur) (NewMoney (l_amount l) cur) = Inr (NewMoney (l_balance_after l) cur)"
proof -
  from assms have after: "sint (l_balance_after l) = sint (l_balance_before l) - sint (l_amount l)" "0 < sint (l_amount l)"
    by (auto simp: entry_sound_def ledger_arithmetic_def)
  then have "in_int64 (sint (l_balance_before l) - sint (l_amount l))" by (metis in_int64_sint)
  then have "l_balance_before l - l_amount l = l_balance_after l"
    using after by (metis sint_eq_iff sint_sub64)
  with after \<open>in_int64 _\<close> show ?thesis by (simp add: Money_Subtract_units)
qed

lemma entry_direction: "entry_sound l \<Longrightarrow> l_direction l = DirectionCredit \<or> l_direction l = DirectionDebit"
  by (auto simp: entry_sound_def ledger_arithmetic_def)

text \<open>The loop returns the last balance, and whether the entries were a chain.\<close>

definition final_balance :: "int64 \<Rightarrow> ledger_row list \<Rightarrow> int64" where
  "final_balance b ls = (if ls = [] then b else l_balance_after (last ls))"

lemma chain_final: "chain b ls = Some c \<Longrightarrow> c = final_balance b ls"
  by (induction ls arbitrary: b) (auto simp: final_balance_def split: if_splits)

lemma calculate_step:
  "entry_sound l \<Longrightarrow>
    calculate_loop cur (scan_ledger_entry E l # es) (NewMoney b cur) valid =
    calculate_loop cur es (NewMoney (l_balance_after l) cur) (valid \<and> l_balance_before l = b)"
  using entry_direction [of l] entry_credit [of l cur] entry_debit [of l cur]
  by (auto simp: scan_ledger_entry_def Let_def)

lemma calculate_loop_chain:
  "list_all entry_sound ls \<Longrightarrow>
    calculate_loop cur (map (scan_ledger_entry E) ls) (NewMoney b cur) valid =
      Inr (final_balance b ls, valid \<and> chain b ls \<noteq> None)"
proof (induction ls arbitrary: b valid)
  case Nil
  then show ?case by (simp add: final_balance_def)
next
  case (Cons l ls)
  have "calculate_loop cur (map (scan_ledger_entry E) (l # ls)) (NewMoney b cur) valid =
      calculate_loop cur (map (scan_ledger_entry E) ls) (NewMoney (l_balance_after l) cur) (valid \<and> l_balance_before l = b)"
    using Cons.prems by (simp add: calculate_step del: calculate_loop.simps)
  with Cons show ?case by (simp add: final_balance_def)
qed

text \<open>A chain that starts at the balance before its first entry; of no entries, at 0.\<close>

definition chained_to :: "ledger_row list \<Rightarrow> int64 \<Rightarrow> bool" where
  "chained_to ls b \<longleftrightarrow> chain (if ls = [] then 0 else l_balance_before (hd ls)) ls = Some b"

lemma calculateLedgerBalance_chain:
  "list_all entry_sound ls \<Longrightarrow>
    calculateLedgerBalance (map (scan_ledger_entry E) ls) cur =
      Inr (final_balance 0 ls, chain (if ls = [] then 0 else l_balance_before (hd ls)) ls \<noteq> None)"
proof (cases ls)
  case (Cons l ls')
  assume "list_all entry_sound ls"
  from calculate_loop_chain [OF this, of cur E "l_balance_before l" True] Cons show ?thesis
    by (simp add: calculateLedgerBalance_def final_balance_def scan_ledger_entry_def del: calculate_loop.simps)
qed (simp add: calculateLedgerBalance_def final_balance_def)

section \<open>The service\<close>

lemma ordered_sound: "schema_ok d \<Longrightarrow> list_all entry_sound (ordered_ledger i d)"
  using ledger_row_checks by (auto simp: list_all_iff set_ordered_ledger entry_sound_def)

definition last_balance :: "uuid \<Rightarrow> database \<Rightarrow> int64" where
  "last_balance i d = final_balance 0 (ordered_ledger i d)"

lemma last_balance_nonneg: "schema_ok d \<Longrightarrow> 0 \<le> sint (last_balance i d)"
proof (cases "ordered_ledger i d = []")
  case False
  assume ok: "schema_ok d"
  let ?l = "last (ordered_ledger i d)"
  have "?l \<in> set (ledger_entries d)" using last_in_set [OF False] by (simp add: set_ordered_ledger)
  then have "0 \<le> sint (l_balance_after ?l)"
    using schema_tables(3) [OF ok] by (auto simp: table_ok_def ledger_checks_def word_sle_eq split: if_splits)
  then show ?thesis using False by (simp add: last_balance_def final_balance_def)
qed (simp add: last_balance_def final_balance_def)

lemma Reconcile_of_wallet:
  assumes ok: "schema_ok d" and w: "w \<in> set (wallets d)" and id: "uuid_Parse E walletID = Some (w_id w)"
    and calm: "\<forall>n. fault E n = None" "begin_fault E = None" "commit_fault E = None"
  shows "\<exists>r. Wallet_Reconcile E walletID d m =
       (Inr r, d, if chained_to (ordered_ledger (w_id w) d) (w_balance w) then m else IncReconciliationDivergences m)
     \<and> (rrConsistent r \<longleftrightarrow> chained_to (ordered_ledger (w_id w) d) (w_balance w))
     \<and> sint (rrDifference r) = sint (w_balance w) - sint (last_balance (w_id w) d)
     \<and> rrStoredBalance r = w_balance w \<and> rrCheckedEntries r = length (ordered_ledger (w_id w) d)"
proof -
  let ?ls = "ordered_ledger (w_id w) d"
  have find: "List.find (\<lambda>r. w_id r = w_id w) (wallets d) = Some w"
    by (rule find_wallet [OF ok w])
  have nn: "0 \<le> sint (w_balance w)" "0 \<le> sint (last_balance (w_id w) d)"
    using wallet_row_checks [OF ok w] last_balance_nonneg [OF ok] by auto
  have diff: "in_int64 (sint (w_balance w) - sint (last_balance (w_id w) d))"
    using nn sint64_bounds [of "w_balance w"] sint64_bounds [of "last_balance (w_id w) d"] by (simp add: in_int64_def)
  define r where "r = \<lparr>rrWalletID = uuid_String E (w_id w), rrCurrency = w_currency w,
      rrStoredBalance = w_balance w, rrCalculatedBalance = last_balance (w_id w) d,
      rrDifference = w_balance w - last_balance (w_id w) d, rrCheckedEntries = length ?ls,
      rrConsistent = (chain (if ?ls = [] then 0 else l_balance_before (hd ?ls)) ?ls \<noteq> None
        \<and> w_balance w = last_balance (w_id w) d)\<rparr>"
  have "reconcile_result (scan_wallet_result E w) (map (scan_ledger_entry E) ?ls) = Inr r"
    using diff nn unfolding r_def
    by (simp add: reconcile_result_def calculateLedgerBalance_chain [OF ordered_sound [OF ok]] scan_wallet_result_def
        Let_def Money_Subtract_units last_balance_def [symmetric] IsZero_def)
  then have "Wallet_Reconcile E walletID d m = (Inr r, d, if rrConsistent r then m else IncReconciliationDivergences m)"
    using calm by (simp add: Wallet_Reconcile_def id reconcile_tx_def loadReconciliationWallet_def
        loadReconciliationLedger_def run_tx_def tx_bind_def tx_map_err_def sql_read_def sql_def tx_simps find start_world_def)
  moreover have "rrConsistent r \<longleftrightarrow> chained_to ?ls (w_balance w)"
    unfolding r_def chained_to_def last_balance_def
    by (cases "chain (if ?ls = [] then 0 else l_balance_before (hd ?ls)) ?ls")
      (auto dest: chain_final simp: final_balance_def split: if_splits)
  ultimately show ?thesis
    using diff by (intro exI [of _ r]) (simp add: r_def sint_sub64)
qed

text \<open>C33: reconciliation judges the chain. On any database that meets the schema, whatever its
  balances are, \<^verbatim>\<open>Reconcile\<close> of an existing wallet succeeds when no statement fails, changes nothing,
  reports the difference between the stored balance and the last entry's balance (0 without entries),
  and calls the wallet consistent exactly when its entries in the order of (created_at, id) form a chain
  of balances, each starting where the one before ended, that ends in the stored balance; every other
  outcome is counted as a divergence.\<close>

theorem Reconcile_judges_chain:
  assumes ok: "schema_ok d" and w: "w \<in> set (wallets d)" and id: "uuid_Parse E walletID = Some (w_id w)"
    and calm: "\<forall>n. fault E n = None" "begin_fault E = None" "commit_fault E = None"
  shows "\<exists>r. Wallet_Reconcile E walletID d m =
       (Inr r, d, if chained_to (ordered_ledger (w_id w) d) (w_balance w) then m else IncReconciliationDivergences m)
     \<and> (rrConsistent r \<longleftrightarrow> chained_to (ordered_ledger (w_id w) d) (w_balance w))
     \<and> sint (rrDifference r) = sint (w_balance w) - sint (last_balance (w_id w) d)
     \<and> rrStoredBalance r = w_balance w \<and> rrCheckedEntries r = length (ordered_ledger (w_id w) d)"
  by (rule Reconcile_of_wallet [OF assms])

text \<open>A wallet whose balance was changed behind the ledger's back.\<close>

definition tampered_db :: database where
  "tampered_db = demo_db3\<lparr>wallets := [demo_wallet 1999 3 3000]\<rparr>"

lemma tampered_ok: "schema_ok tampered_db"
proof (rule schema_update_wallet [OF demo_schema(1)])
  show "update_wallet 100 1999 3 3000 demo_db3 = Inr tampered_db"
    by (simp add: tampered_db_def demo_rows table_evals)
qed

lemma Reconcile_judges_chain_witness:
  "\<exists>r. Wallet_Reconcile (demo_env 1) ''100'' tampered_db NewMetrics = (Inr r, tampered_db, IncReconciliationDivergences NewMetrics)
     \<and> \<not> rrConsistent r \<and> sint (rrDifference r) = - 1"
proof -
  let ?w = "demo_wallet 1999 3 3000"
  have w: "?w \<in> set (wallets tampered_db)" "uuid_Parse (demo_env 1) ''100'' = Some (w_id ?w)"
    by (simp_all add: tampered_db_def demo_wallet_def)
  have led: "ordered_ledger 100 tampered_db = ordered_ledger 100 demo_db3"
    by (simp add: ordered_ledger_def tampered_db_def)
  have "\<not> chained_to (ordered_ledger (w_id ?w) tampered_db) (w_balance ?w)"
    "last_balance (w_id ?w) tampered_db = 2000"
    by (simp_all add: last_balance_def led demo_ordered_ledger chained_to_def final_balance_def demo_entry_def demo_wallet_def)
  with Reconcile_judges_chain [OF tampered_ok w, of NewMetrics] show ?thesis
    by (fastforce simp: demo_wallet_def)
qed

text \<open>C32: an untouched wallet reconciles. In every reachable state a wallet whose entries were
  inserted in the order of (created_at, id) is found consistent with difference 0.\<close>

theorem reachable_wallet_reconciles:
  assumes "reachable s" "w \<in> set (wallets (sys_db s))" "uuid_Parse E walletID = Some (w_id w)"
    and calm: "\<forall>n. fault E n = None" "begin_fault E = None" "commit_fault E = None"
    and order: "ordered_ledger (w_id w) (sys_db s) = wallet_ledger (w_id w) (sys_db s)"
  shows "\<exists>r. Wallet_Reconcile E walletID (sys_db s) m = (Inr r, sys_db s, m)
     \<and> rrConsistent r \<and> rrDifference r = 0"
proof -
  have ok: "schema_ok (sys_db s)" and b: "chain 0 (wallet_ledger (w_id w) (sys_db s)) = Some (w_balance w)"
    using reachable_inv [OF assms(1)] assms(2) by (auto simp: sys_inv_def books_def wallet_books_def)
  have ch: "chained_to (ordered_ledger (w_id w) (sys_db s)) (w_balance w)"
    using b unfolding chained_to_def order by (cases "wallet_ledger (w_id w) (sys_db s)") (auto split: if_splits)
  have last: "last_balance (w_id w) (sys_db s) = w_balance w"
    using chain_final [OF b] by (simp add: last_balance_def order)
  from Reconcile_of_wallet [OF ok assms(2,3) calm, of m] ch last show ?thesis
    by (metis diff_self sint_0 sint_eq_iff)
qed

lemma reachable_wallet_reconciles_witness:
  "\<exists>r. Wallet_Reconcile (demo_env 1) ''100'' demo_db3 NewMetrics = (Inr r, demo_db3, NewMetrics) \<and> rrConsistent r"
proof -
  let ?w = "demo_wallet 2000 3 3000"
  have w: "?w \<in> set (wallets (sys_db (demo_system demo_db3)))" "uuid_Parse (demo_env 1) ''100'' = Some (w_id ?w)"
    by (simp_all add: demo_db3_def demo_wallet_def)
  have "ordered_ledger (w_id ?w) (sys_db (demo_system demo_db3)) = wallet_ledger (w_id ?w) (sys_db (demo_system demo_db3))"
    by (simp add: demo_wallet_def demo_ordered_ledger) (simp add: wallet_ledger_def demo_rows)
  with reachable_wallet_reconciles [OF demo_reachable(1) w, of NewMetrics] show ?thesis by fastforce
qed

end
