(* ===== verification/Totality.thy ===== *)
theory Totality
  imports Command_Properties Message_Contract
begin

text \<open>
  Commands do not fail without a reason. Where no statement fails and UUIDs are fresh, the
  statements of a wager command satisfy every constraint of the schema, so that a well-formed new
  command for an existing wallet returns a decision: no check of the code and no constraint of the
  tables is left that could refuse it.
\<close>

section \<open>Statements that succeed\<close>

text \<open>The UUIDs a command draws, at most five, are new to the tables that use them as keys.\<close>

definition fresh_uuid :: "uuid \<Rightarrow> database \<Rightarrow> bool" where
  "fresh_uuid i d \<longleftrightarrow>
     i \<notin> t_id ` set (wager_transactions d) \<and> i \<notin> l_id ` set (ledger_entries d) \<and> i \<notin> o_id ` set (outbox_events d)"

definition fresh_uuids :: "env \<Rightarrow> database \<Rightarrow> bool" where
  "fresh_uuids E d \<longleftrightarrow> inj_on (new_uuid E) {..<5} \<and> (\<forall>n < 5. fresh_uuid (new_uuid E n) d)"

lemma fresh_uuids_nth: "fresh_uuids E d \<Longrightarrow> n < 5 \<Longrightarrow> fresh_uuid (new_uuid E n) d"
  by (simp add: fresh_uuids_def)

lemma fresh_uuids_differ: "fresh_uuids E d \<Longrightarrow> n < 5 \<Longrightarrow> k < 5 \<Longrightarrow> n \<noteq> k \<Longrightarrow> new_uuid E n \<noteq> new_uuid E k"
  by (auto simp: fresh_uuids_def inj_on_def)

lemma calm_fault: "calm E \<Longrightarrow> fault E n = None"
  by (simp add: calm_def)

lemma table_ok_append:
  assumes "table_ok cs us rs" "\<forall>(n, p) \<in> set cs. p r" "\<forall>(n, conf) \<in> set us. \<forall>x \<in> set rs. \<not> conf x r"
  shows "store cs us [r] (rs @ [r]) = None"
proof -
  have "conflict_free conf (rs @ [r])" if "(n, conf) \<in> set us" for n conf
    using assms(1,3) that by (auto simp: conflict_free_append table_ok_def unique_violation_None)
  with assms(2) show ?thesis
    by (auto simp: store_None check_violation_None unique_violation_None)
qed

lemma insert_outbox_total:
  assumes "table_ok outbox_checks outbox_uniques (outbox_events d)" "o_attempts r = 0" "o_id r \<notin> o_id ` set (outbox_events d)"
  shows "insert_outbox r d = Inr (d\<lparr>outbox_events := outbox_events d @ [r]\<rparr>)"
proof -
  have "store outbox_checks outbox_uniques [r] (outbox_events d @ [r]) = None"
    using assms(2,3) by (intro table_ok_append assms(1))
      (auto simp: outbox_checks_def outbox_uniques_def image_iff)
  then show ?thesis by (simp add: insert_outbox_Inr)
qed

text \<open>A row of the transactions table that collides with no other.\<close>

definition no_collision :: "wager_row \<Rightarrow> database \<Rightarrow> bool" where
  "no_collision r d \<longleftrightarrow>
     t_id r \<notin> t_id ` set (wager_transactions d)
     \<and> (\<forall>p e. t_provider_id r = Some p \<longrightarrow> t_external_transaction_id r = Some e \<longrightarrow>
          \<not> list_ex (external_identity p e) (wager_transactions d))
     \<and> (\<forall>p k. t_provider_id r = Some p \<longrightarrow> t_idempotency_key r = Some k \<longrightarrow>
          \<not> list_ex (idempotency_identity p k) (wager_transactions d))
     \<and> t_kind r \<noteq> KindOpening
     \<and> (\<forall>i. processed_reversal r \<longrightarrow> t_referenced_transaction_id r = Some i \<longrightarrow>
          \<not> list_ex (reverses i) (wager_transactions d))"

lemma no_collisionD:
  assumes "no_collision r d" "x \<in> set (wager_transactions d)"
  shows "t_id x \<noteq> t_id r" "t_kind r \<noteq> KindOpening"
    "\<not> (both_some_eq (t_provider_id x) (t_provider_id r) \<and> both_some_eq (t_external_transaction_id x) (t_external_transaction_id r))"
    "\<not> (both_some_eq (t_provider_id x) (t_provider_id r) \<and> both_some_eq (t_idempotency_key x) (t_idempotency_key r))"
    "\<not> (processed_reversal x \<and> processed_reversal r \<and> t_referenced_transaction_id x = t_referenced_transaction_id r)"
proof -
  note nc = assms(1) [unfolded no_collision_def]
  show "t_id x \<noteq> t_id r" "t_kind r \<noteq> KindOpening" using nc assms(2) by (metis imageI)+
  show "\<not> (both_some_eq (t_provider_id x) (t_provider_id r) \<and> both_some_eq (t_external_transaction_id x) (t_external_transaction_id r))"
  proof
    assume a: "both_some_eq (t_provider_id x) (t_provider_id r) \<and> both_some_eq (t_external_transaction_id x) (t_external_transaction_id r)"
    then obtain p e where "t_provider_id r = Some p" "t_external_transaction_id r = Some e" "external_identity p e x"
      by (metis both_some_eq_def external_identity_def not_None_eq)
    with nc assms(2) show False by (auto simp: list_ex_iff)
  qed
  show "\<not> (both_some_eq (t_provider_id x) (t_provider_id r) \<and> both_some_eq (t_idempotency_key x) (t_idempotency_key r))"
  proof
    assume a: "both_some_eq (t_provider_id x) (t_provider_id r) \<and> both_some_eq (t_idempotency_key x) (t_idempotency_key r)"
    then obtain p k where "t_provider_id r = Some p" "t_idempotency_key r = Some k" "idempotency_identity p k x"
      by (metis both_some_eq_def idempotency_identity_def not_None_eq)
    with nc assms(2) show False by (auto simp: list_ex_iff)
  qed
  show "\<not> (processed_reversal x \<and> processed_reversal r \<and> t_referenced_transaction_id x = t_referenced_transaction_id r)"
  proof
    assume a: "processed_reversal x \<and> processed_reversal r \<and> t_referenced_transaction_id x = t_referenced_transaction_id r"
    then obtain i where "t_referenced_transaction_id r = Some i" "reverses i x" "processed_reversal r"
      by (auto simp: processed_reversal_def reverses_def)
    with nc assms(2) show False by (auto simp: list_ex_iff)
  qed
qed

lemma insert_wager_total:
  assumes "schema_ok d" "wager_enums r \<and> wager_widths r" "\<forall>(n, p) \<in> set wager_checks. p r" "no_collision r d"
    and "t_wallet_id r \<in> w_id ` set (wallets d)"
    and "\<forall>i. t_referenced_transaction_id r = Some i \<longrightarrow> i \<in> t_id ` set (wager_transactions d)"
  shows "insert_wager r d = Inr (d\<lparr>wager_transactions := wager_transactions d @ [r]\<rparr>)"
proof -
  have "store wager_checks wager_uniques [r] (wager_transactions d @ [r]) = None"
  proof (rule table_ok_append [OF schema_tables(2) [OF assms(1)] assms(3)])
    have "\<not> (both_some_eq (t_provider_id x) (t_provider_id r) \<and> both_some_eq (t_external_transaction_id x) (t_external_transaction_id r))
        \<and> \<not> (both_some_eq (t_provider_id x) (t_provider_id r) \<and> both_some_eq (t_idempotency_key x) (t_idempotency_key r))
        \<and> t_id x \<noteq> t_id r \<and> t_kind r \<noteq> KindOpening
        \<and> \<not> (processed_reversal x \<and> processed_reversal r \<and> t_referenced_transaction_id x = t_referenced_transaction_id r)"
      if "x \<in> set (wager_transactions d)" for x
      using that no_collisionD [OF assms(4), of x] by blast
    then show "\<forall>(n, conf) \<in> set wager_uniques. \<forall>x \<in> set (wager_transactions d). \<not> conf x r"
      by (simp add: wager_uniques_def)
  qed
  moreover have "wager_foreign_keys (d\<lparr>wager_transactions := wager_transactions d @ [r]\<rparr>) r = None"
    using assms(5,6) by (auto simp: wager_foreign_keys_def split: option.splits)
  ultimately show ?thesis
    using assms(2) by (simp add: insert_wager_Inr)
qed

lemma insert_ledger_total:
  assumes "table_ok ledger_checks ledger_uniques (ledger_entries d)" "ledger_arithmetic r" "0 < sint (l_amount r)" "0 \<le> sint (l_balance_before r)"
    "0 \<le> sint (l_balance_after r)" "l_id r \<notin> l_id ` set (ledger_entries d)"
    and "l_transaction_id r \<notin> l_transaction_id ` set (ledger_entries d)"
    and "l_wallet_id r \<in> w_id ` set (wallets d)" "l_transaction_id r \<in> t_id ` set (wager_transactions d)"
  shows "insert_ledger r d = Inr (d\<lparr>ledger_entries := ledger_entries d @ [r]\<rparr>)"
proof -
  have "store ledger_checks ledger_uniques [r] (ledger_entries d @ [r]) = None"
    using assms(2-7) by (intro table_ok_append assms(1))
      (auto simp: ledger_checks_def ledger_uniques_def image_iff word_sle_eq word_sless_alt)
  then show ?thesis
    using assms(2,8,9) by (auto simp: insert_ledger_Inr ledger_foreign_keys_def ledger_arithmetic_def)
qed

lemma update_wallet_total:
  assumes "table_ok wallet_checks wallet_uniques (wallets d)" "0 \<le> sint b" "1 \<le> sint v"
  shows "\<exists>d'. update_wallet i b v now d = Inr d'"
proof -
  let ?f = "\<lambda>r. r\<lparr>w_balance := b, w_version := v, w_updated_at := now\<rparr>"
  have "conflict_free conf (update_rows (\<lambda>r. w_id r = i) ?f (wallets d))" if "(n, conf) \<in> set wallet_uniques" for n conf
  proof -
    have "conflict_free conf (wallets d)"
      using assms(1) that by (auto simp: table_ok_def unique_violation_None)
    moreover have "conf (if w_id x = i then ?f x else x) (if w_id y = i then ?f y else y) \<longleftrightarrow> conf x y" for x y
      using that by (cases "w_id x = i"; cases "w_id y = i") (auto simp: wallet_uniques_def)
    ultimately show ?thesis
      unfolding update_rows_def by (subst conflict_free_map) auto
  qed
  then have "unique_violation wallet_uniques (update_rows (\<lambda>r. w_id r = i) ?f (wallets d)) = None"
    unfolding unique_violation_None by auto
  with assms(2,3) have "store wallet_checks wallet_uniques (map ?f (filter (\<lambda>r. w_id r = i) (wallets d)))
      (update_rows (\<lambda>r. w_id r = i) ?f (wallets d)) = None"
    by (auto simp: store_None check_violation_None wallet_checks_def word_sle_eq)
  then show ?thesis by (simp add: update_wallet_Inr Let_def)
qed

section \<open>The row of a command\<close>

text \<open>The texts a command must bring, as the API and the decoder of messages demand them.\<close>

definition narrow :: "ProcessCommand \<Rightarrow> bool" where
  "narrow cmd \<longleftrightarrow>
     (let q = cmdRequest cmd in
      (\<forall>s \<in> {reqProviderID q, reqExternalTransactionID q, reqPlayerID q, reqRoundID q, reqGameID q,
          reqReferenceExternalTransactionID q}. characters s \<le> 100)
      \<and> (\<forall>s \<in> {cmdIdempotencyKey cmd, cmdCorrelationID cmd, cmdCausationID cmd}. characters s \<le> 255)
      \<and> characters (currency (reqAmount q)) \<le> 3)"

definition identified :: "ProcessCommand \<Rightarrow> bool" where
  "identified cmd \<longleftrightarrow>
     (let q = cmdRequest cmd in
      [] \<notin> {cmdIdempotencyKey cmd, reqProviderID q, reqExternalTransactionID q, reqPlayerID q, reqRoundID q, reqGameID q}
      \<and> btrim_nonempty (currency (reqAmount q)) \<and> narrow cmd)"

definition command_fields :: "ProcessCommand \<Rightarrow> uuid \<Rightarrow> wager_row \<Rightarrow> bool" where
  "command_fields cmd u r \<longleftrightarrow>
     (let q = cmdRequest cmd in
      t_provider_id r = Some (reqProviderID q) \<and> t_external_transaction_id r = Some (reqExternalTransactionID q)
      \<and> t_idempotency_key r = Some (cmdIdempotencyKey cmd) \<and> t_payload_hash r = Some (PayloadHash q)
      \<and> t_wallet_id r = u \<and> t_player_id r = reqPlayerID q \<and> t_round_id r = Some (reqRoundID q)
      \<and> t_game_id r = Some (reqGameID q) \<and> t_kind r = reqKind q \<and> t_amount r = amount (reqAmount q)
      \<and> t_currency r = currency (reqAmount q)
      \<and> t_reference_external_transaction_id r = Some (reqReferenceExternalTransactionID q)
      \<and> t_reference_attempts r = 0)"

lemma command_fields_row: "command_fields cmd u (command_row i cmd (PayloadHash (cmdRequest cmd)) s now u)"
  by (simp add: command_fields_def command_row_def Let_def)

lemma command_row_traces [simp]:
  "t_correlation_id (command_row i cmd h s now u) = None" "t_causation_id (command_row i cmd h s now u) = None"
  by (simp_all add: command_row_def Let_def)

lemma command_fields_update [simp]:
  "command_fields cmd u (r\<lparr>t_referenced_transaction_id := ref\<rparr>) = command_fields cmd u r"
  "command_fields cmd u (r\<lparr>t_failure_code := f\<rparr>) = command_fields cmd u r"
  "command_fields cmd u (r\<lparr>t_result_balance := b\<rparr>) = command_fields cmd u r"
  "command_fields cmd u (r\<lparr>t_reference_next_attempt_at := x\<rparr>) = command_fields cmd u r"
  "command_fields cmd u (r\<lparr>t_reference_expires_at := x\<rparr>) = command_fields cmd u r"
  "command_fields cmd u (r\<lparr>t_correlation_id := y\<rparr>) = command_fields cmd u r"
  "command_fields cmd u (r\<lparr>t_causation_id := y\<rparr>) = command_fields cmd u r"
  "t_reference_attempts r = 0 \<Longrightarrow> command_fields cmd u (r\<lparr>t_reference_attempts := 0\<rparr>) = command_fields cmd u r"
  by (simp_all add: command_fields_def Let_def)

lemma command_row_attempts [simp]:
  "t_reference_attempts (command_row i cmd h s now u) = 0"
  by (simp_all add: command_row_def Let_def)

lemma request_contract_kind:
  assumes "request_contract q"
  shows "reqKind q \<in> set external_kinds" "reqKind q = WagerKindLoss \<Longrightarrow> units (reqAmount q) = 0"
    "reqKind q \<noteq> WagerKindLoss \<Longrightarrow> 0 < units (reqAmount q)"
    "reqKind q \<in> {WagerKindBet, WagerKindLoss} \<Longrightarrow> reqReferenceExternalTransactionID q = []"
    "reqKind q \<in> {WagerKindRefund, WagerKindRollback} \<Longrightarrow> reqReferenceExternalTransactionID q \<noteq> []"
  using assms by (auto simp: request_contract_def external_kinds_def)

lemma command_row_ok:
  assumes f: "command_fields cmd u r" and q: "request_contract (cmdRequest cmd)" and i: "identified cmd"
    and state: "t_state r \<in> {WagerStatePendingReference, WagerStateProcessed, WagerStateRejected}"
    and bal: "t_result_balance r = Some b" "0 \<le> sint b"
    and ref: "t_referenced_transaction_id r = None \<or> requiresReferenceResolution (cmdRequest cmd)"
    and tail: "fits 100 (t_failure_code r) \<and> fits 255 (t_correlation_id r) \<and> fits 255 (t_causation_id r)"
  shows "wager_enums r \<and> wager_widths r" "\<forall>(n, p) \<in> set wager_checks. p r"
proof -
  note fields = f [unfolded command_fields_def Let_def]
  note kind = request_contract_kind [OF q]
  have amt: "amount_by_kind r" "0 \<le>s t_amount r"
    using kind(1-3) fields
    by (auto simp: amount_by_kind_def external_kinds_def word_sle_eq word_sless_alt units_def signed_eq_0_iff)
  have orig: "origin_metadata r"
    using i kind(1) fields
    by (auto simp: origin_metadata_def identified_def Let_def some_nonempty_def btrim_nonempty_def)
  have refs: "reference_applicability r"
    using kind(1,4,5) fields ref
    by (auto simp: reference_applicability_def external_kinds_def coalesce_def some_nonempty_def requiresReferenceResolution_def)
  have refk: "t_referenced_transaction_id r = None \<or> t_kind r \<in> {WagerKindWin, WagerKindRefund, WagerKindRollback}"
    using ref fields by (auto simp: requiresReferenceResolution_def)
  have "characters (PayloadHash q) \<le> 64" for q by (rule short_text) simp
  then show "wager_enums r \<and> wager_widths r"
    using kind(1) state fields i tail by (auto simp: wager_enums_def wager_widths_def identified_def narrow_def Let_def)
  show "\<forall>(n, p) \<in> set wager_checks. p r"
    using amt orig refs refk fields bal by (simp add: wager_checks_def word_sle_eq)
qed

text \<open>A command that is new to a database in which its wallet exists.\<close>

definition new_command :: "env \<Rightarrow> ProcessCommand \<Rightarrow> database \<Rightarrow> uuid \<Rightarrow> bool" where
  "new_command E cmd d u \<longleftrightarrow>
     schema_ok d \<and> request_contract (cmdRequest cmd) \<and> identified cmd \<and> stored_for cmd d = None
     \<and> \<not> known_external (cmdRequest cmd) d \<and> pg_uuid_in E (reqWalletID (cmdRequest cmd)) = Some u
     \<and> u \<in> w_id ` set (wallets d)"

lemma insert_command_row_total:
  assumes new: "new_command E cmd (db w) u" "calm E" and f: "command_fields cmd u (row u)"
    and state: "t_state (row u) \<in> {WagerStatePendingReference, WagerStateProcessed, WagerStateRejected}"
    and bal: "t_result_balance (row u) = Some b" "0 \<le> sint b"
    and ref: "t_referenced_transaction_id (row u) = None \<or> requiresReferenceResolution (cmdRequest cmd)"
      "\<forall>i. t_referenced_transaction_id (row u) = Some i \<longrightarrow> i \<in> t_id ` set (wager_transactions (db w))"
      "\<forall>i. processed_reversal (row u) \<longrightarrow> t_referenced_transaction_id (row u) = Some i \<longrightarrow>
          \<not> list_ex (reverses i) (wager_transactions (db w))"
    and fresh: "t_id (row u) \<notin> t_id ` set (wager_transactions (db w))"
    and tail: "fits 100 (t_failure_code (row u)) \<and> fits 255 (t_correlation_id (row u)) \<and> fits 255 (t_causation_id (row u))"
  shows "insert_command_row context (reqWalletID (cmdRequest cmd)) row E w =
     Inr ((), w\<lparr>db := (db w)\<lparr>wager_transactions := wager_transactions (db w) @ [row u]\<rparr>, stmt_count := Suc (stmt_count w)\<rparr>)"
proof -
  note n = new(1) [unfolded new_command_def]
  have "\<not> list_ex (idempotency_identity (reqProviderID (cmdRequest cmd)) (cmdIdempotencyKey cmd)) (wager_transactions (db w))"
    using n by (auto simp: stored_for_def list_ex_iff dest: find_NoneD)
  moreover have "t_kind (row u) \<noteq> KindOpening"
    using request_contract_kind(1) [of "cmdRequest cmd"] n f by (auto simp: command_fields_def Let_def external_kinds_def)
  ultimately have "no_collision (row u) (db w)"
    using n f ref(3) fresh by (auto simp: no_collision_def command_fields_def Let_def known_external_def)
  with command_row_ok [OF f _ _ state bal ref(1) tail] n f ref(2)
  have "insert_wager (row u) (db w) = Inr ((db w)\<lparr>wager_transactions := wager_transactions (db w) @ [row u]\<rparr>)"
    by (intro insert_wager_total) (auto simp: command_fields_def Let_def)
  with n calm_fault [OF new(2)] show ?thesis
    by (simp add: insert_command_row_def tx_map_err_def sql_def uuid_param_def)
qed

lemma insert_command_row_schema:
  assumes "schema_ok (db w)" "insert_command_row c i row E w = Inr ((), w')"
  shows "schema_ok (db w')"
  using assms unfolding insert_command_row_def
  by (auto elim!: sqlE simp: res_bind_eq_Inr intro: schema_inserts(2))

lemma insertOutboxEvent_total:
  assumes "table_ok outbox_checks outbox_uniques (outbox_events (db w))" "calm E" "EventIDValue e \<notin> o_id ` set (outbox_events (db w))"
  shows "insertOutboxEvent e E w =
     Inr ((), w\<lparr>db := (db w)\<lparr>outbox_events := outbox_events (db w) @ [outbox_row_of e]\<rparr>, stmt_count := Suc (stmt_count w)\<rparr>)"
  using insert_outbox_total [of "db w" "outbox_row_of e"] assms
  by (simp add: insertOutboxEvent_def tx_map_err_def sql_exec_def sql_def calm_fault outbox_row_of_def)

lemma table_ok_outbox:
  assumes "table_ok outbox_checks outbox_uniques rs" "EventIDValue e \<notin> o_id ` set rs"
  shows "table_ok outbox_checks outbox_uniques (rs @ [outbox_row_of e])"
  using assms by (intro table_ok_insert table_ok_append)
    (auto simp: outbox_checks_def outbox_uniques_def outbox_row_of_def image_iff)

section \<open>Outcomes are written\<close>

text \<open>The next four UUIDs are new and differ.\<close>

definition fresh_from :: "env \<Rightarrow> nat \<Rightarrow> database \<Rightarrow> bool" where
  "fresh_from E n d \<longleftrightarrow> inj_on (new_uuid E) {n..<n + 4} \<and> (\<forall>k < 4. fresh_uuid (new_uuid E (n + k)) d)"

lemma fresh_uuids_from: "fresh_uuids E d \<Longrightarrow> n \<le> 1 \<Longrightarrow> fresh_from E n d"
  by (auto simp: fresh_from_def fresh_uuids_def inj_on_def)

lemma fresh_fromD:
  assumes "fresh_from E n d"
  shows "new_uuid E n \<notin> t_id ` set (wager_transactions d)"
    "new_uuid E (Suc n) \<notin> l_id ` set (ledger_entries d)"
    "new_uuid E (Suc n) \<notin> o_id ` set (outbox_events d)"
    "new_uuid E (Suc (Suc n)) \<notin> o_id ` set (outbox_events d)"
    "new_uuid E (Suc (Suc (Suc n))) \<notin> o_id ` set (outbox_events d)"
    "new_uuid E (Suc (Suc n)) \<noteq> new_uuid E (Suc (Suc (Suc n)))"
proof -
  have "fresh_uuid (new_uuid E (n + k)) d" if "k < 4" for k
    using assms that by (simp add: fresh_from_def)
  from this [of 0] this [of 1] this [of 2] this [of 3]
  show "new_uuid E n \<notin> t_id ` set (wager_transactions d)"
    "new_uuid E (Suc n) \<notin> l_id ` set (ledger_entries d)"
    "new_uuid E (Suc n) \<notin> o_id ` set (outbox_events d)"
    "new_uuid E (Suc (Suc n)) \<notin> o_id ` set (outbox_events d)"
    "new_uuid E (Suc (Suc (Suc n))) \<notin> o_id ` set (outbox_events d)"
    by (simp_all add: fresh_uuid_def eval_nat_numeral)
  show "new_uuid E (Suc (Suc n)) \<noteq> new_uuid E (Suc (Suc (Suc n)))"
    using assms inj_onD [of "new_uuid E" "{n..<n + 4}" "Suc (Suc n)" "Suc (Suc (Suc n))"]
    by (auto simp: fresh_from_def)
qed

lemma new_command_outbox: "new_command E cmd d u \<Longrightarrow> table_ok outbox_checks outbox_uniques (outbox_events d)"
  by (simp add: new_command_def schema_tables)

lemma code_widths [simp]:
  "characters failureCodeReferenceTerminalUnsuccessful \<le> 100" "characters failureCodeAlreadyReversed \<le> 100"
  "characters (referenceFailureCode e) \<le> 100"
  by (simp_all add: failureCodeReferenceTerminalUnsuccessful_def failureCodeAlreadyReversed_def referenceFailureCode_def
      failureCodeReferenceMismatch_def failureCodeReferenceAmountMismatch_def failureCodeInvalidReferenceKind_def
      failureCodeInvalidReference_def)

lemma persistRejected_total:
  assumes new: "new_command E cmd (db w) u" "calm E" and fresh: "fresh_from E (uuid_count w) (db w)"
    and bal: "0 \<le> units (Balance wallet)"
    and ref: "ref = None \<or> requiresReferenceResolution (cmdRequest cmd)"
      "\<forall>i. ref = Some i \<longrightarrow> i \<in> t_id ` set (wager_transactions (db w))"
    and code: "characters code \<le> 100"
  shows "\<exists>r. persistRejectedTransaction cmd (PayloadHash (cmdRequest cmd)) wallet code ref E w = Inr r"
proof -
  let ?row = "\<lambda>u. (command_row (new_uuid E (uuid_count w)) cmd (PayloadHash (cmdRequest cmd)) WagerStateRejected
      (time_now E (now_count w)) u)\<lparr>t_referenced_transaction_id := ref, t_failure_code := Some code,
      t_result_balance := Some (amount (Balance wallet))\<rparr>"
  let ?w = "w\<lparr>uuid_count := Suc (uuid_count w), now_count := Suc (now_count w)\<rparr>"
  have ins: "insert_command_row ''insert rejected wager transaction'' (reqWalletID (cmdRequest cmd)) ?row E ?w =
      Inr ((), ?w\<lparr>db := (db w)\<lparr>wager_transactions := wager_transactions (db w) @ [?row u]\<rparr>, stmt_count := Suc (stmt_count w)\<rparr>)"
    using new ref bal code fresh_fromD(1) [OF fresh] command_fields_row [of cmd u]
    by (intro insert_command_row_total [of E cmd ?w u ?row "amount (Balance wallet)", simplified])
      (auto simp: units_def processed_reversal_def)
  show ?thesis
    using ins fresh_fromD(3) [OF fresh] new_command_outbox [OF new(1)] insertOutboxEvent_total [OF _ new(2)]
    by (simp add: persistRejectedTransaction_def insertRejectedEvent_def tx_simps
        NewWagerTransactionRejectedEvent_def)
qed

lemma new_command_narrow:
  "new_command E cmd d u \<Longrightarrow> characters (cmdCorrelationID cmd) \<le> 255 \<and> fits 255 (nullableString (cmdCausationID cmd))"
  by (simp add: new_command_def identified_def narrow_def nullableString_def Let_def)

lemma persistPending_total:
  assumes new: "new_command E cmd (db w) u" "calm E" and fresh: "fresh_from E (uuid_count w) (db w)"
    and bal: "0 \<le> units bal"
  shows "\<exists>r. persistPendingReference cmd (PayloadHash (cmdRequest cmd)) bal now E w = Inr r"
proof -
  let ?row = "\<lambda>u. (command_row (new_uuid E (uuid_count w)) cmd (PayloadHash (cmdRequest cmd)) WagerStatePendingReference now u)
     \<lparr>t_result_balance := Some (amount bal), t_reference_attempts := 0,
      t_reference_next_attempt_at := Some (now + referenceRetryDelay), t_reference_expires_at := Some (now + referenceTTL),
      t_correlation_id := Some (cmdCorrelationID cmd), t_causation_id := nullableString (cmdCausationID cmd)\<rparr>"
  let ?w = "w\<lparr>uuid_count := Suc (uuid_count w)\<rparr>"
  have ins: "insert_command_row ''insert pending reference transaction'' (reqWalletID (cmdRequest cmd)) ?row E ?w =
      Inr ((), ?w\<lparr>db := (db w)\<lparr>wager_transactions := wager_transactions (db w) @ [?row u]\<rparr>, stmt_count := Suc (stmt_count w)\<rparr>)"
    using new bal new_command_narrow [OF new(1)] fresh_fromD(1) [OF fresh] command_fields_row [of cmd u]
    by (intro insert_command_row_total [of E cmd ?w u ?row "amount bal", simplified])
      (auto simp: units_def processed_reversal_def)
  show ?thesis
    using ins fresh_fromD(3) [OF fresh] new_command_outbox [OF new(1)] insertOutboxEvent_total [OF _ new(2)]
    by (simp add: persistPendingReference_def insertPendingReferenceEvent_def tx_simps
        NewWagerTransactionPendingReferenceEvent_def)
qed

lemma insertProcessedEvents_total:
  assumes "table_ok outbox_checks outbox_uniques (outbox_events (db w))" "calm E"
    and "new_uuid E (uuid_count w) \<notin> o_id ` set (outbox_events (db w))"
    and "kind \<noteq> WagerKindLoss \<Longrightarrow> new_uuid E (Suc (uuid_count w)) \<notin> o_id ` set (outbox_events (db w))
      \<and> new_uuid E (Suc (uuid_count w)) \<noteq> new_uuid E (uuid_count w)"
  shows "\<exists>w'. insertProcessedEvents tid kind wallet amt before dir c ca now E w = Inr ((), w')"
proof -
  let ?w = "w\<lparr>uuid_count := Suc (uuid_count w)\<rparr>"
  let ?e = "NewWagerTransactionProcessedEvent (new_uuid E (uuid_count w)) tid c ca now
      \<lparr>pdTransactionID = uuid_String E tid, pdWalletID = ID wallet, pdKind = kind\<rparr>"
  have id: "EventIDValue ?e = new_uuid E (uuid_count w)"
    by (simp add: NewWagerTransactionProcessedEvent_def)
  have one: "insertOutboxEvent ?e E ?w = Inr ((), ?w\<lparr>db := (db w)\<lparr>outbox_events := outbox_events (db w) @ [outbox_row_of ?e]\<rparr>,
      stmt_count := Suc (stmt_count w)\<rparr>)"
    using insertOutboxEvent_total [of ?w E ?e] assms(1-3) id by simp
  have oid: "o_id (outbox_row_of ?e) = new_uuid E (uuid_count w)"
    using id by (simp add: outbox_row_of_def)
  have tab: "table_ok outbox_checks outbox_uniques (outbox_events (db w) @ [outbox_row_of ?e])"
    using table_ok_outbox [OF assms(1)] assms(3) id by simp
  show ?thesis
  proof (cases "kind = WagerKindLoss")
    case True
    then show ?thesis by (simp add: insertProcessedEvents_def tx_simps one [unfolded True])
  next
    case False
    with assms(4) show ?thesis
      using insertOutboxEvent_total [OF _ assms(2)] tab oid
      by (simp add: insertProcessedEvents_def tx_simps one NewWalletBalanceChangedEvent_def)
  qed
qed

text \<open>What the movement of a command has to satisfy for its rows to be accepted.\<close>

definition movement_fits :: "env \<Rightarrow> WagerRequest \<Rightarrow> Wallet \<Rightarrow> Money \<Rightarrow> string \<Rightarrow> database \<Rightarrow> bool" where
  "movement_fits E q wallet' before dir d \<longleftrightarrow>
     0 \<le> units (Balance wallet') \<and> 0 \<le> units before \<and> 1 \<le> sint (Version wallet')
     \<and> (\<exists>v. pg_uuid_in E (ID wallet') = Some v \<and> v \<in> w_id ` set (wallets d))
     \<and> (reqKind q \<noteq> WagerKindLoss \<longrightarrow>
          (dir = DirectionDebit \<and> units (Balance wallet') = units before - units (reqAmount q))
          \<or> (dir = DirectionCredit \<and> units (Balance wallet') = units before + units (reqAmount q)))"

lemma exec_update_wallet_total:
  assumes fits: "movement_fits E q wallet' before dir (db w)" and ok: "schema_ok (db w)" and calm: "calm E"
  shows "\<exists>w'. exec_update_wallet c wallet' now E w = Inr ((), w') \<and> schema_ok (db w')
    \<and> uuid_count w' = uuid_count w \<and> w_id ` set (wallets (db w')) = w_id ` set (wallets (db w))
    \<and> wager_transactions (db w') = wager_transactions (db w) \<and> ledger_entries (db w') = ledger_entries (db w)
    \<and> outbox_events (db w') = outbox_events (db w)"
proof -
  note f = fits [unfolded movement_fits_def]
  from f obtain v where v: "pg_uuid_in E (ID wallet') = Some v" by auto
  let ?f = "\<lambda>x. x\<lparr>w_balance := amount (Balance wallet'), w_version := Version wallet', w_updated_at := now\<rparr>"
  let ?d = "(db w)\<lparr>wallets := update_rows (\<lambda>x. w_id x = v) ?f (wallets (db w))\<rparr>"
  have up: "update_wallet v (amount (Balance wallet')) (Version wallet') now (db w) = Inr ?d"
    using update_wallet_total [OF schema_tables(1) [OF ok], of "amount (Balance wallet')" "Version wallet'" v now] f
    by (auto simp: units_def update_wallet_Inr Let_def)
  have "w_id ` set (wallets ?d) = w_id ` set (wallets (db w))"
    using arg_cong [OF map_update_rows [of w_id ?f "\<lambda>x. w_id x = v" "wallets (db w)"], of set] by simp
  with up v schema_update_wallet [OF ok up] show ?thesis
    by (simp add: exec_update_wallet_def tx_map_err_def sql_def calm_fault [OF calm] uuid_param_def)
qed

lemma exec_insert_ledger_total:
  assumes fits: "movement_fits E q wallet' before dir (db w)" and kind: "reqKind q \<noteq> WagerKindLoss"
    and ok: "table_ok ledger_checks ledger_uniques (ledger_entries (db w))"
    and calm: "calm E" and amt: "0 < units (reqAmount q)"
    and fresh: "new_uuid E (uuid_count w) \<notin> l_id ` set (ledger_entries (db w))"
      "tid \<notin> l_transaction_id ` set (ledger_entries (db w))" "tid \<in> t_id ` set (wager_transactions (db w))"
  shows "\<exists>w'. exec_insert_ledger c wallet' tid dir (reqAmount q) before now E w = Inr ((), w')
     \<and> uuid_count w' = Suc (uuid_count w) \<and> outbox_events (db w') = outbox_events (db w)"
proof -
  note f = fits [unfolded movement_fits_def]
  from f obtain v where v: "pg_uuid_in E (ID wallet') = Some v" "v \<in> w_id ` set (wallets (db w))" by auto
  let ?l = "\<lparr>l_id = new_uuid E (uuid_count w), l_wallet_id = v, l_transaction_id = tid,
      l_direction = dir, l_amount = amount (reqAmount q), l_balance_before = amount before,
      l_balance_after = amount (Balance wallet'), l_created_at = now\<rparr>"
  have "insert_ledger ?l (db w) = Inr ((db w)\<lparr>ledger_entries := ledger_entries (db w) @ [?l]\<rparr>)"
    using f kind amt fresh ok v(2)
    by (subst insert_ledger_total) (auto simp: units_def ledger_arithmetic_def)
  with v(1) show ?thesis
    by (simp add: exec_insert_ledger_def tx_simps tx_bind_def tx_map_err_def sql_def calm_fault [OF calm] uuid_param_def)
qed

lemma ledger_transactions_known:
  "schema_ok d \<Longrightarrow> l_transaction_id ` set (ledger_entries d) \<subseteq> t_id ` set (wager_transactions d)"
  by (auto simp: schema_ok_def list_all_iff ledger_foreign_keys_def split: if_splits)

text \<open>Wallet and entry of a movement, whose transaction row is in place.\<close>

lemma move_money_total:
  assumes fits: "movement_fits E q wallet' before dir (db w)" and kind: "reqKind q \<noteq> WagerKindLoss"
    and ok: "schema_ok (db w)" and calm: "calm E" and amt: "0 < units (reqAmount q)"
    and fresh: "new_uuid E (uuid_count w) \<notin> l_id ` set (ledger_entries (db w))"
      "tid \<notin> l_transaction_id ` set (ledger_entries (db w))" "tid \<in> t_id ` set (wager_transactions (db w))"
  shows "\<exists>w2. tx_bind (exec_update_wallet c wallet' now) (\<lambda>_.
         exec_insert_ledger c' wallet' tid dir (reqAmount q) before now) E w = Inr ((), w2)
     \<and> uuid_count w2 = Suc (uuid_count w) \<and> outbox_events (db w2) = outbox_events (db w)"
proof -
  from exec_update_wallet_total [OF fits ok calm, of c now] obtain v where
    v: "exec_update_wallet c wallet' now E w = Inr ((), v)" "schema_ok (db v)"
      "uuid_count v = uuid_count w" "w_id ` set (wallets (db v)) = w_id ` set (wallets (db w))"
      "wager_transactions (db v) = wager_transactions (db w)" "ledger_entries (db v) = ledger_entries (db w)"
      "outbox_events (db v) = outbox_events (db w)"
    by auto
  have "movement_fits E q wallet' before dir (db v)"
    using fits v(4) by (simp add: movement_fits_def)
  from exec_insert_ledger_total [OF this kind schema_tables(3) [OF v(2)] calm amt, of tid c' now]
  show ?thesis using fresh v by (auto simp: tx_simps)
qed

lemma process_persist_total:
  assumes new: "new_command E cmd (db w) u" "calm E" and fresh: "fresh_from E (uuid_count w) (db w)"
    and fits: "movement_fits E (cmdRequest cmd) wallet' before (ledger_direction (reqKind (cmdRequest cmd)) mv) (db w)"
    and ref: "reference = None \<or> requiresReferenceResolution (cmdRequest cmd)"
      "\<forall>f. reference = Some f \<longrightarrow> refID f \<in> t_id ` set (wager_transactions (db w))
         \<and> (reqKind (cmdRequest cmd) \<noteq> WagerKindWin \<longrightarrow> \<not> list_ex (reverses (refID f)) (wager_transactions (db w)))"
  shows "\<exists>r. process_persist cmd (PayloadHash (cmdRequest cmd)) wallet' before reference mv now E w = Inr r"
proof -
  let ?q = "cmdRequest cmd" and ?tid = "new_uuid E (uuid_count w)"
  let ?row = "\<lambda>u. (command_row ?tid cmd (PayloadHash ?q) WagerStateProcessed now u)
      \<lparr>t_referenced_transaction_id := map_option refID reference, t_result_balance := Some (amount (Balance wallet'))\<rparr>"
  let ?w = "w\<lparr>uuid_count := Suc (uuid_count w)\<rparr>"
  let ?w1 = "?w\<lparr>db := (db w)\<lparr>wager_transactions := wager_transactions (db w) @ [?row u]\<rparr>, stmt_count := Suc (stmt_count w)\<rparr>"
  have ok: "schema_ok (db w)" and contract: "request_contract ?q" using new(1) by (simp_all add: new_command_def)
  have bal: "0 \<le> sint (amount (Balance wallet'))" using fits by (simp add: movement_fits_def units_def)
  have ins: "insert_command_row ''insert wager transaction'' (reqWalletID ?q) ?row E ?w = Inr ((), ?w1)"
    using new ref bal fresh_fromD(1) [OF fresh] command_fields_row [of cmd u]
    by (intro insert_command_row_total [of E cmd ?w u ?row "amount (Balance wallet')", simplified])
      (auto simp: processed_reversal_def)
  show ?thesis
  proof (cases "reqKind ?q = WagerKindLoss")
    case True
    have "\<exists>w'. insertProcessedEvents ?tid WagerKindLoss wallet' (reqAmount ?q) before
        (ledger_direction WagerKindLoss mv) (cmdCorrelationID cmd) (cmdCausationID cmd) now E ?w1 = Inr ((), w')"
      using fresh_fromD(3) [OF fresh] new_command_outbox [OF new(1)] new(2) by (intro insertProcessedEvents_total) simp_all
    with True ins show ?thesis by (auto simp: process_persist_def Let_def tx_simps)
  next
    case False
    have tid: "?tid \<notin> l_transaction_id ` set (ledger_entries (db w))"
      using fresh_fromD(1) [OF fresh] ledger_transactions_known [OF ok] by auto
    have ok1: "schema_ok (db ?w1)" using insert_command_row_schema [OF _ ins] ok by simp
    have m: "movement_fits E ?q wallet' before (ledger_direction (reqKind ?q) mv) (db ?w1)"
      using fits by (simp add: movement_fits_def)
    from move_money_total [OF m False ok1 new(2) request_contract_kind(3) [OF contract False], of ?tid
        "''update wallet''" now "''insert ledger entry''"] obtain w2 where
      w2: "tx_bind (exec_update_wallet ''update wallet'' wallet' now) (\<lambda>_.
         exec_insert_ledger ''insert ledger entry'' wallet' ?tid (ledger_direction (reqKind ?q) mv) (reqAmount ?q) before now)
         E ?w1 = Inr ((), w2)" "uuid_count w2 = Suc (Suc (uuid_count w))" "outbox_events (db w2) = outbox_events (db w)"
      using tid fresh_fromD(2) [OF fresh] by auto
    have "\<exists>w'. insertProcessedEvents ?tid (reqKind ?q) wallet' (reqAmount ?q) before (ledger_direction (reqKind ?q) mv)
        (cmdCorrelationID cmd) (cmdCausationID cmd) now E w2 = Inr ((), w')"
      using fresh_fromD(4-6) [OF fresh] new_command_outbox [OF new(1)] new(2) w2(2,3)
      by (intro insertProcessedEvents_total) auto
    with False ins w2(1) show ?thesis by (auto simp: process_persist_def Let_def tx_simps)
  qed
qed

section \<open>Every phase returns\<close>

text \<open>A wallet with room for the amount: neither its balance nor its version would overflow.\<close>

definition has_room :: "Wallet \<Rightarrow> Money \<Rightarrow> bool" where
  "has_room wallet m \<longleftrightarrow>
     currency m = currency (Balance wallet) \<and> in_int64 (units (Balance wallet) + units m) \<and> Version wallet \<noteq> MaxInt64"

definition stored_wallet :: "env \<Rightarrow> uuid \<Rightarrow> Wallet \<Rightarrow> database \<Rightarrow> bool" where
  "stored_wallet E v wallet d \<longleftrightarrow>
     pg_uuid_in E (ID wallet) = Some v \<and> v \<in> w_id ` set (wallets d) \<and> 0 \<le> units (Balance wallet)
     \<and> 0 < sint (Version wallet)"

text \<open>What the reference phase leaves to the next one.\<close>

definition reference_fits :: "WagerRequest \<Rightarrow> referencedTransaction option \<Rightarrow> movementDirection \<Rightarrow> database \<Rightarrow> bool" where
  "reference_fits q ref mv d \<longleftrightarrow>
     (ref = None \<or> requiresReferenceResolution q)
     \<and> (\<forall>f. ref = Some f \<longrightarrow> refID f \<in> t_id ` set (wager_transactions d)
          \<and> (reqKind q \<noteq> WagerKindWin \<longrightarrow> \<not> list_ex (reverses (refID f)) (wager_transactions d)))
     \<and> (reqKind q \<in> {WagerKindRefund, WagerKindRollback} \<longrightarrow>
          (\<exists>f. ref = Some f \<and> reversalDirection (reqKind q) f = Inr mv))"

lemma process_reversal_total:
  assumes new: "new_command E cmd (db w) u" "calm E" and fresh: "fresh_from E (uuid_count w) (db w)"
    and wal: "0 \<le> units (Balance wallet)" and r: "requiresReferenceResolution (cmdRequest cmd)"
    and known: "refID found \<in> t_id ` set (wager_transactions (db w))"
  shows "\<exists>p w1. process_reversal cmd (PayloadHash (cmdRequest cmd)) wallet found E w = Inr (p, w1)
    \<and> (\<forall>ref mv. p = Continue (ref, mv) \<longrightarrow>
         db w1 = db w \<and> uuid_count w1 = uuid_count w \<and> reference_fits (cmdRequest cmd) ref mv (db w))"
proof -
  let ?q = "cmdRequest cmd" and ?w1 = "w\<lparr>stmt_count := Suc (stmt_count w)\<rparr>"
  note reject = persistRejected_total [OF _ new(2) _ wal, of cmd _ u "Some (refID found)"]
  show ?thesis
  proof (cases "validateReference E ?q found")
    case (Some e)
    obtain res w2 where "persistRejectedTransaction cmd (PayloadHash ?q) wallet (referenceFailureCode (Sentinel e))
        (Some (refID found)) E w = Inr (res, w2)"
      using reject [of w] new(1) fresh r known by fastforce
    with Some show ?thesis by (simp add: process_reversal_def tx_simps)
  next
    case None
    have kind: "refKind found \<in> referable (reqKind ?q)" using None by (simp add: validateReference_None)
    have look: "referenceAlreadyReversed (refID found) E w =
        Inr (list_ex (reverses (refID found)) (wager_transactions (db w)), ?w1)"
      by (simp add: referenceAlreadyReversed_def tx_map_err_def sql_read_def sql_def calm_fault [OF new(2)])
    obtain res w2 where rev: "persistRejectedTransaction cmd (PayloadHash ?q) wallet failureCodeAlreadyReversed
        (Some (refID found)) E ?w1 = Inr (res, w2)"
      using reject [of ?w1] new(1) fresh r known by fastforce
    consider "reqKind ?q = WagerKindWin" | "reqKind ?q = WagerKindRefund \<or> reqKind ?q = WagerKindRollback"
      using r by (auto simp: requiresReferenceResolution_def)
    then show ?thesis
    proof cases
      case 1
      with None known r show ?thesis
        by (simp add: process_reversal_def tx_simps reference_fits_def)
    next
      case 2
      then obtain mv where mv: "reversalDirection (reqKind ?q) found = Inr mv"
        using reversalDirection_total [OF 2 kind] by auto
      from 2 have "reqKind ?q \<noteq> WagerKindWin" by auto
      with None known r mv look rev show ?thesis
        by (cases "list_ex (reverses (refID found)) (wager_transactions (db w))")
          (auto simp: process_reversal_def tx_simps reference_fits_def)
    qed
  qed
qed

lemma process_found_total:
  assumes new: "new_command E cmd (db w) u" "calm E" and fresh: "fresh_from E (uuid_count w) (db w)"
    and wal: "0 \<le> units (Balance wallet)" and r: "requiresReferenceResolution (cmdRequest cmd)"
    and look: "findReferencedTransaction (cmdRequest cmd) E w = Inr (Some (scan_reference r0), w\<lparr>stmt_count := Suc (stmt_count w)\<rparr>)"
    and r0: "r0 \<in> set (wager_transactions (db w))"
    and pend: "persistPendingReference cmd (PayloadHash (cmdRequest cmd)) (Balance wallet) (time_now E (now_count w)) E
       (w\<lparr>stmt_count := Suc (stmt_count w), now_count := Suc (now_count w)\<rparr>) = Inr (res, w3)"
  shows "\<exists>p w1. process_reference cmd (PayloadHash (cmdRequest cmd)) wallet E w = Inr (p, w1)
    \<and> (\<forall>ref mv. p = Continue (ref, mv) \<longrightarrow>
         db w1 = db w \<and> uuid_count w1 = uuid_count w \<and> reference_fits (cmdRequest cmd) ref mv (db w))"
proof -
  let ?q = "cmdRequest cmd" and ?w1 = "w\<lparr>stmt_count := Suc (stmt_count w)\<rparr>"
  have known: "refID (scan_reference r0) \<in> t_id ` set (wager_transactions (db w))" using r0 by (simp add: scan_reference_def)
  have "wager_enums r0" using new(1) r0 by (auto simp: new_command_def schema_ok_def list_all_iff)
  then consider "t_state r0 \<in> {WagerStatePending, WagerStatePendingReference}"
    | "t_state r0 \<in> {WagerStateRejected, WagerStateFailed}" | "t_state r0 = WagerStateProcessed"
    by (auto simp: wager_enums_def)
  then show ?thesis
  proof cases
    case 1
    with r look pend show ?thesis by (auto simp: process_reference_def tx_simps scan_reference_def)
  next
    case 2
    obtain res w4 where "persistRejectedTransaction cmd (PayloadHash ?q) wallet failureCodeReferenceTerminalUnsuccessful
        (Some (refID (scan_reference r0))) E ?w1 = Inr (res, w4)"
      using persistRejected_total [of E cmd ?w1 u wallet "Some (refID (scan_reference r0))"] new fresh wal r known
      by fastforce
    with 2 r look show ?thesis by (auto simp: process_reference_def tx_simps scan_reference_def)
  next
    case 3
    have "process_reference cmd (PayloadHash ?q) wallet E w = process_reversal cmd (PayloadHash ?q) wallet (scan_reference r0) E ?w1"
      using 3 r look by (simp add: process_reference_def tx_simps scan_reference_def)
    with process_reversal_total [of E cmd ?w1 u wallet "scan_reference r0"] new fresh wal r known
    show ?thesis by simp
  qed
qed

lemma process_reference_total:
  assumes new: "new_command E cmd (db w) u" "calm E" and fresh: "fresh_from E (uuid_count w) (db w)"
    and wal: "0 \<le> units (Balance wallet)"
  shows "\<exists>p w1. process_reference cmd (PayloadHash (cmdRequest cmd)) wallet E w = Inr (p, w1)
    \<and> (\<forall>ref mv. p = Continue (ref, mv) \<longrightarrow>
         db w1 = db w \<and> uuid_count w1 = uuid_count w \<and> reference_fits (cmdRequest cmd) ref mv (db w))"
proof (cases "requiresReferenceResolution (cmdRequest cmd)")
  case False
  then show ?thesis
    by (auto simp: process_reference_def tx_simps reference_fits_def requiresReferenceResolution_def)
next
  case True
  let ?q = "cmdRequest cmd" and ?w1 = "w\<lparr>stmt_count := Suc (stmt_count w)\<rparr>"
  let ?w2 = "?w1\<lparr>now_count := Suc (now_count w)\<rparr>"
  have ref: "reqReferenceExternalTransactionID ?q \<noteq> []"
    using True new(1) request_contract_kind(5) [of ?q] by (auto simp: requiresReferenceResolution_def new_command_def)
  have look: "findReferencedTransaction ?q E w = Inr (map_option scan_reference (wager_lookup ?q (db w)), ?w1)"
    using ref by (simp add: findReferencedTransaction_def wager_lookup_def tx_map_err_def sql_read_def sql_def calm_fault [OF new(2)])
  obtain res w3 where pend: "persistPendingReference cmd (PayloadHash ?q) (Balance wallet) (time_now E (now_count w)) E ?w2 = Inr (res, w3)"
    using persistPending_total [of E cmd ?w2 u "Balance wallet"] new fresh wal by fastforce
  show ?thesis
  proof (cases "wager_lookup ?q (db w)")
    case None
    with True look pend show ?thesis by (simp add: process_reference_def tx_simps)
  next
    case (Some r0)
    have "r0 \<in> set (wager_transactions (db w))" using Some by (auto simp: wager_lookup_def dest: find_SomeD)
    with look [unfolded Some option.map] show ?thesis
      by (rule process_found_total [OF new fresh wal True _ _ pend])
  qed
qed

lemma credit_fits:
  assumes "stored_wallet E v wallet d" "has_room wallet (reqAmount q)" "0 < units (reqAmount q)"
  obtains wallet' where "Wallet_Credit wallet (reqAmount q) now = Inr wallet'"
    "movement_fits E q wallet' (Balance wallet) DirectionCredit d"
proof -
  obtain wallet' where w': "Wallet_Credit wallet (reqAmount q) now = Inr wallet'"
    using Wallet_Credit_total [OF assms(3)] assms(1,2) by (auto simp: has_room_def stored_wallet_def)
  have "moved wallet now (units (reqAmount q)) wallet'" using Wallet_Credit_Inr [OF w'] by simp
  then have "movement_fits E q wallet' (Balance wallet) DirectionCredit d"
    using assms(1,3) by (auto simp: movement_fits_def moved_def stored_wallet_def)
  with w' show thesis by (rule that)
qed

lemma debit_fits:
  assumes "stored_wallet E v wallet d" "has_room wallet (reqAmount q)" "0 < units (reqAmount q)"
    and "units (reqAmount q) \<le> units (Balance wallet)"
  obtains wallet' where "Wallet_Debit wallet (reqAmount q) now = Inr wallet'"
    "movement_fits E q wallet' (Balance wallet) DirectionDebit d"
proof -
  obtain wallet' where w': "Wallet_Debit wallet (reqAmount q) now = Inr wallet'"
    using Wallet_Debit_total [OF assms(3) _ _ assms(4)] assms(1,2) by (auto simp: has_room_def stored_wallet_def)
  have "moved wallet now (- units (reqAmount q)) wallet'" using Wallet_Debit_Inr [OF w'] by simp
  then have "movement_fits E q wallet' (Balance wallet) DirectionDebit d"
    using assms(1,4) by (auto simp: movement_fits_def moved_def stored_wallet_def)
  with w' show thesis by (rule that)
qed

lemma debit_refused:
  "has_room wallet m \<Longrightarrow> 0 < units m \<Longrightarrow> units (Balance wallet) < units m \<Longrightarrow>
     Wallet_Debit wallet m now = Inl (Sentinel ErrInsufficientFunds)"
  by (simp add: Wallet_Debit_insufficient has_room_def)

lemma debit_step_total:
  assumes new: "new_command E cmd (db w) u" "calm E" and fresh: "fresh_from E (uuid_count w) (db w)"
    and wal: "stored_wallet E v wallet (db w)" "has_room wallet (reqAmount (cmdRequest cmd))"
    and amt: "0 < units (reqAmount (cmdRequest cmd))"
    and ref: "ref = None \<or> requiresReferenceResolution (cmdRequest cmd)"
      "\<forall>i. ref = Some i \<longrightarrow> i \<in> t_id ` set (wager_transactions (db w))"
    and code: "characters code \<le> 100"
  shows "\<exists>m w2. debit_step cmd (PayloadHash (cmdRequest cmd)) wallet code ref now E w = Inr (m, w2)
    \<and> (\<forall>wallet'. m = Continue wallet' \<longrightarrow> db w2 = db w \<and> uuid_count w2 = uuid_count w
         \<and> movement_fits E (cmdRequest cmd) wallet' (Balance wallet) DirectionDebit (db w))"
proof (cases "units (reqAmount (cmdRequest cmd)) \<le> units (Balance wallet)")
  case True
  obtain wallet' where "Wallet_Debit wallet (reqAmount (cmdRequest cmd)) now = Inr wallet'"
    "movement_fits E (cmdRequest cmd) wallet' (Balance wallet) DirectionDebit (db w)"
    using debit_fits [OF wal amt True] .
  then show ?thesis by (simp add: debit_step_def tx_simps)
next
  case False
  moreover obtain res w2 where "persistRejectedTransaction cmd (PayloadHash (cmdRequest cmd)) wallet code ref E w = Inr (res, w2)"
    using persistRejected_total [OF new fresh _ ref code] wal(1) by (fastforce simp: stored_wallet_def)
  ultimately show ?thesis
    using debit_refused [OF wal(2) amt] by (simp add: debit_step_def tx_simps)
qed

lemma credit_step_total:
  assumes "stored_wallet E v wallet (db w)" "has_room wallet (reqAmount q)" "0 < units (reqAmount q)"
  shows "\<exists>wallet'. credit_step wallet (reqAmount q) now E w = Inr (Continue wallet', w)
    \<and> movement_fits E q wallet' (Balance wallet) DirectionCredit (db w)"
  using credit_fits [OF assms, of now] by (metis credit_step_def tx_apply(1,4) tx_bind_apply(2))

lemma reversal_move_total:
  assumes new: "new_command E cmd (db w) u" "calm E" and fresh: "fresh_from E (uuid_count w) (db w)"
    and wal: "stored_wallet E v wallet (db w)" "has_room wallet (reqAmount (cmdRequest cmd))"
    and kind: "reqKind (cmdRequest cmd) \<in> {WagerKindRefund, WagerKindRollback}"
    and pos: "0 < units (reqAmount (cmdRequest cmd))"
    and f: "ref = Some f" "reversalDirection (reqKind (cmdRequest cmd)) f = Inr mv"
      "refID f \<in> t_id ` set (wager_transactions (db w))"
  shows "\<exists>m w2. process_move cmd (PayloadHash (cmdRequest cmd)) wallet ref mv now E w = Inr (m, w2)
    \<and> (\<forall>wallet'. m = Continue wallet' \<longrightarrow> db w2 = db w \<and> uuid_count w2 = uuid_count w
         \<and> movement_fits E (cmdRequest cmd) wallet' (Balance wallet) (ledger_direction (reqKind (cmdRequest cmd)) mv) (db w))"
proof -
  let ?q = "cmdRequest cmd"
  have dir: "mv = movementCredit \<or> mv = movementDebit"
    using reversalDirection_sign [OF f(2)] by simp
  have refund: "reqKind ?q = WagerKindRefund \<Longrightarrow> mv = movementCredit"
    using f(2) by (simp add: reversalDirection_def split: if_splits)
  have ref: "Some (refID f) = None \<or> requiresReferenceResolution ?q"
    "\<forall>i. Some (refID f) = Some i \<longrightarrow> i \<in> t_id ` set (wager_transactions (db w))"
    using kind f(3) by (auto simp: requiresReferenceResolution_def)
  from dir show ?thesis
  proof
    assume mv: "mv = movementCredit"
    then have "ledger_direction (reqKind ?q) mv = DirectionCredit" using kind by (auto simp: ledger_direction_def)
    with mv kind credit_step_total [OF wal pos, of now] show ?thesis by (auto simp: process_move_def Let_def)
  next
    assume mv: "mv = movementDebit"
    then have "ledger_direction (reqKind ?q) mv = DirectionDebit" using kind refund by (auto simp: ledger_direction_def)
    with mv kind f(1) debit_step_total [OF new fresh wal pos ref, of "''REVERSAL_INSUFFICIENT_FUNDS''" now] show ?thesis
      by (auto simp: process_move_def Let_def)
  qed
qed

lemma process_move_total:
  assumes new: "new_command E cmd (db w) u" "calm E" and fresh: "fresh_from E (uuid_count w) (db w)"
    and wal: "stored_wallet E v wallet (db w)" "has_room wallet (reqAmount (cmdRequest cmd))"
    and fits: "reference_fits (cmdRequest cmd) ref mv (db w)"
  shows "\<exists>m w2. process_move cmd (PayloadHash (cmdRequest cmd)) wallet ref mv now E w = Inr (m, w2)
    \<and> (\<forall>wallet'. m = Continue wallet' \<longrightarrow> db w2 = db w \<and> uuid_count w2 = uuid_count w
         \<and> movement_fits E (cmdRequest cmd) wallet' (Balance wallet) (ledger_direction (reqKind (cmdRequest cmd)) mv) (db w))"
proof -
  let ?q = "cmdRequest cmd"
  have contract: "request_contract ?q" using new(1) by (simp add: new_command_def)
  note kind = request_contract_kind [OF contract]
  consider "reqKind ?q = WagerKindLoss" | "reqKind ?q = WagerKindBet" | "reqKind ?q = WagerKindWin"
    | f where "reqKind ?q \<in> {WagerKindRefund, WagerKindRollback}" "ref = Some f"
        "reversalDirection (reqKind ?q) f = Inr mv"
    using kind(1) fits by (auto simp: external_kinds_def reference_fits_def)
  then show ?thesis
  proof cases
    case 1
    with wal(1) kind(2) show ?thesis
      by (auto simp: process_move_def Let_def tx_simps movement_fits_def stored_wallet_def)
  next
    case 2
    with debit_step_total [OF new fresh wal, of None "''INSUFFICIENT_FUNDS''" now] kind(3) show ?thesis
      by (simp add: process_move_def Let_def ledger_direction_def)
  next
    case 3
    with credit_step_total [OF wal, of now] kind(3) show ?thesis
      by (auto simp: process_move_def Let_def ledger_direction_def)
  next
    case 4
    with fits kind(3) show ?thesis
      by (intro reversal_move_total [OF new fresh wal 4(1) _ 4(2,3)]) (auto simp: reference_fits_def)
  qed
qed

lemma process_decide_total:
  assumes new: "new_command E cmd (db w) u" "calm E" and fresh: "fresh_from E (uuid_count w) (db w)"
    and wal: "stored_wallet E v wallet (db w)" "has_room wallet (reqAmount (cmdRequest cmd))"
  shows "\<exists>r. process_decide cmd (PayloadHash (cmdRequest cmd)) wallet E w = Inr r"
proof -
  let ?q = "cmdRequest cmd" and ?h = "PayloadHash (cmdRequest cmd)"
  have "0 \<le> units (Balance wallet)" using wal(1) by (simp add: stored_wallet_def)
  from process_reference_total [OF new fresh this] obtain p w1 where p: "process_reference cmd ?h wallet E w = Inr (p, w1)"
    and fits: "\<forall>ref mv. p = Continue (ref, mv) \<longrightarrow> db w1 = db w \<and> uuid_count w1 = uuid_count w \<and> reference_fits ?q ref mv (db w)"
    by blast
  show ?thesis
  proof (cases p)
    case (Done res)
    with p show ?thesis by (simp add: process_decide_def tx_simps)
  next
    case (Continue y)
    obtain ref mv where y: "p = Continue (ref, mv)" using Continue by (cases y) auto
    let ?w = "w1\<lparr>now_count := Suc (now_count w1)\<rparr>" and ?now = "time_now E (now_count w1)"
    from fits y have same: "db ?w = db w" "uuid_count ?w = uuid_count w" and rf: "reference_fits ?q ref mv (db ?w)"
      by simp_all
    obtain m w2 where m: "process_move cmd ?h wallet ref mv ?now E ?w = Inr (m, w2)"
      and mf: "\<forall>wallet'. m = Continue wallet' \<longrightarrow> db w2 = db ?w \<and> uuid_count w2 = uuid_count ?w
         \<and> movement_fits E (cmdRequest cmd) wallet' (Balance wallet) (ledger_direction (reqKind ?q) mv) (db ?w)"
      using process_move_total [of E cmd ?w u v wallet ref mv ?now] new fresh wal rf unfolding same by blast
    show ?thesis
    proof (cases m)
      case (Done res)
      with p y m show ?thesis by (simp add: process_decide_def tx_simps)
    next
      case (Continue wallet')
      with mf rf have "\<exists>r. process_persist cmd ?h wallet' (Balance wallet) ref mv ?now E w2 = Inr r"
        using new fresh unfolding same by (intro process_persist_total [of E cmd w2 u]) (auto simp: reference_fits_def)
      with p y m Continue show ?thesis by (simp add: process_decide_def tx_simps)
    qed
  qed
qed

section \<open>Whole commands\<close>

lemma wallet_of_stored:
  assumes "uuid_laws E" "wallet_of E i d wallet" "schema_ok d"
  obtains x where "List.find (\<lambda>r. w_id r = w_id x) (wallets d) = Some x" "pg_uuid_in E i = Some (w_id x)"
    "scan_wallet E x = Inr wallet" "stored_wallet E (w_id x) wallet d"
proof -
  obtain x where x: "x \<in> set (wallets d)" "pg_uuid_in E i = Some (w_id x)" "scan_wallet E x = Inr wallet"
    using assms(2) by (auto simp: wallet_of_def)
  have "(''wallets_pkey'', \<lambda>a b. w_id a = w_id b) \<in> set wallet_uniques" by (simp add: wallet_uniques_def)
  note key = table_ok_unique [OF schema_tables(1) [OF assms(3)] this]
  have same: "y = x" if "y \<in> set (wallets d)" "w_id y = w_id x" for y
    by (rule key [OF that(1) x(1)]) (simp_all add: that(2))
  have "List.find (\<lambda>r. w_id r = w_id x) (wallets d) \<noteq> None" using x(1) by (auto simp: find_None_iff)
  then obtain y where y: "List.find (\<lambda>r. w_id r = w_id x) (wallets d) = Some y" by blast
  with same find_SomeD [OF y] have "List.find (\<lambda>r. w_id r = w_id x) (wallets d) = Some x" by simp
  moreover have "stored_wallet E (w_id x) wallet d"
    using x assms(1) by (auto simp: stored_wallet_def scan_wallet_def ReconstituteWallet_Inr valid_wallet_def uuid_laws_def)
  ultimately show thesis using that x(2,3) by blast
qed

lemma wallet_of_unique:
  assumes "schema_ok d" "uuid_laws E" "wallet_of E i d a" "wallet_of E i d b"
  shows "a = b"
proof -
  obtain x where x: "List.find (\<lambda>r. w_id r = w_id x) (wallets d) = Some x" "pg_uuid_in E i = Some (w_id x)" "scan_wallet E x = Inr a"
    by (rule wallet_of_stored [OF assms(2,3,1)])
  obtain y where y: "List.find (\<lambda>r. w_id r = w_id y) (wallets d) = Some y" "pg_uuid_in E i = Some (w_id y)" "scan_wallet E y = Inr b"
    by (rule wallet_of_stored [OF assms(2,4,1)])
  from x(2) y(2) have "w_id x = w_id y" by simp
  from trans [OF sym [OF x(1) [unfolded this]] y(1)] have "x = y" by simp
  with x(3) y(3) show ?thesis by simp
qed

lemma process_locked_total:
  assumes base: "schema_ok (db w)" "calm E" "uuid_laws E" "fresh_from E (uuid_count w) (db w)"
    and q: "request_contract (cmdRequest cmd)" "identified cmd"
    and new: "stored_for cmd (db w) = None" "\<not> known_external (cmdRequest cmd) (db w)"
    and wal: "wallet_of E (reqWalletID (cmdRequest cmd)) (db w) wallet" "PlayerID wallet = reqPlayerID (cmdRequest cmd)"
      "has_room wallet (reqAmount (cmdRequest cmd))"
  shows "\<exists>r. process_locked cmd (PayloadHash (cmdRequest cmd)) E w = Inr r"
proof -
  let ?q = "cmdRequest cmd" and ?w = "\<lambda>k. w\<lparr>stmt_count := k + stmt_count w\<rparr>"
  obtain x where x: "List.find (\<lambda>r. w_id r = w_id x) (wallets (db w)) = Some x" "pg_uuid_in E (reqWalletID ?q) = Some (w_id x)"
    "scan_wallet E x = Inr wallet" and st: "stored_wallet E (w_id x) wallet (db w)"
    using wallet_of_stored [OF base(3) wal(1) base(1)] .
  note nf = calm_fault [OF base(2)]
  have lock: "lockWallet (reqWalletID ?q) E w = Inr (wallet, ?w 1)"
    using x by (simp add: lockWallet_def tx_bind_def tx_map_err_def sql_read_def sql_def nf uuid_param_def tx_simps)
  have idem: "findIdempotentReplay (reqProviderID ?q) (cmdIdempotencyKey cmd) (PayloadHash ?q) E (?w 1) = Inr (None, ?w 2)"
    using new(1) by (simp add: findIdempotentReplay_def tx_bind_def tx_map_err_def sql_read_def sql_def nf stored_for_def tx_simps)
  have ext: "externalTransactionExists (reqProviderID ?q) (reqExternalTransactionID ?q) E (?w 2) = Inr (False, ?w 3)"
    using new(2) by (simp add: externalTransactionExists_def tx_map_err_def sql_read_def sql_def nf known_external_def)
  have "new_command E cmd (db (?w 3)) (w_id x)"
    using base q new x(2) st by (simp add: new_command_def stored_wallet_def)
  then have "\<exists>r. process_decide cmd (PayloadHash ?q) wallet E (?w 3) = Inr r"
    using process_decide_total [of E cmd "?w 3" "w_id x" "w_id x" wallet] base(2,4) st wal(3) by simp
  then show ?thesis
    using lock idem ext wal(2,3)
    by (simp add: process_locked_def process_new_def Let_def tx_bind_def has_room_def)
qed

text \<open>C12: two concurrent copies of a command settle once. When a command that waited for the wallet lock
  resumes on a database where another transaction has meanwhile stored its provider and idempotency key
  with its payload hash, and no statement fails, it returns the stored transaction (its id, state,
  balance and failure code, marked as a replay) and writes nothing.\<close>

theorem waiting_duplicate_replays:
  assumes "schema_ok d" "uuid_laws E" "calm E" "wallet_of E (reqWalletID (cmdRequest cmd)) d wallet"
    and "stored_for cmd d = Some r" "t_payload_hash r = Some h"
  shows "\<exists>w'. resume d (E, w, cmd, h) = Inr (replay_result E r, w') \<and> db w' = d"
proof -
  let ?w = "\<lambda>k. w\<lparr>db := d, stmt_count := k + stmt_count w\<rparr>"
  note nf = calm_fault [OF assms(3)]
  obtain x where x: "List.find (\<lambda>r. w_id r = w_id x) (wallets d) = Some x"
      "pg_uuid_in E (reqWalletID (cmdRequest cmd)) = Some (w_id x)" "scan_wallet E x = Inr wallet"
    using wallet_of_stored [OF assms(2,4,1)] .
  have "lockWallet (reqWalletID (cmdRequest cmd)) E (?w 0) = Inr (wallet, ?w 1)"
    using x by (simp add: lockWallet_def tx_bind_def tx_map_err_def sql_read_def sql_def nf uuid_param_def tx_simps)
  moreover have "replay_of E h r = Inr (replay_result E r)" using assms(6) by (simp add: replay_of_Inr)
  then have "findIdempotentReplay (reqProviderID (cmdRequest cmd)) (cmdIdempotencyKey cmd) h E (?w 1) =
      Inr (Some (replay_result E r), ?w 2)"
    using assms(5)
    by (simp add: findIdempotentReplay_def tx_bind_def tx_map_err_def sql_read_def sql_def nf stored_for_def tx_simps)
  ultimately show ?thesis
    by (simp add: resume_def process_locked_def tx_bind_def tx_return_def)
qed

text \<open>The bet of the history, sent twice: the copy waited while the first was settled.\<close>

lemma waiting_duplicate_replays_witness:
  "\<exists>w'. resume demo_db3 (demo_env 5, start_world demo_db2, demo_bet, PayloadHash (cmdRequest demo_bet)) =
     Inr ((demo_result 3 WagerStateProcessed 2000)\<lparr>resIdempotentReplay := True\<rparr>, w') \<and> db w' = demo_db3"
proof -
  have r: "stored_for demo_bet demo_db3 = Some (demo_row 3 demo_bet WagerStateProcessed 2000)"
    by (simp add: stored_for_def idempotency_identity_def demo_rows command_row_def)
  have h: "t_payload_hash (demo_row 3 demo_bet WagerStateProcessed 2000) = Some (PayloadHash (cmdRequest demo_bet))"
    by (simp add: demo_rows command_row_def)
  have "replay_result (demo_env 5) (demo_row 3 demo_bet WagerStateProcessed 2000) =
      (demo_result 3 WagerStateProcessed 2000)\<lparr>resIdempotentReplay := True\<rparr>"
    by (simp add: replay_result_def demo_rows command_row_def demo_result_def coalesce_def)
  moreover have "wallet_of (demo_env 5) (reqWalletID (cmdRequest demo_bet)) demo_db3 (demo_aggregate 2000 3 3000)"
    by (simp add: wallet_of_def demo_rows scan_wallet_def wallet_evals word_sle_eq word_sless_alt)
  moreover have "calm (demo_env 5)" by (simp add: calm_def)
  ultimately show ?thesis
    using waiting_duplicate_replays [OF demo_schema(1) demo_laws [of 5] _ _ r h, of _ "start_world demo_db2"] by metis
qed

lemma ProcessTx_total:
  assumes "schema_ok d" "calm E" "uuid_laws E" "fresh_uuids E d" "request_contract (cmdRequest cmd)" "identified cmd"
    and "stored_for cmd d = None" "\<not> known_external (cmdRequest cmd) d"
    and "wallet_of E (reqWalletID (cmdRequest cmd)) d wallet" "PlayerID wallet = reqPlayerID (cmdRequest cmd)"
      "has_room wallet (reqAmount (cmdRequest cmd))"
  shows "\<exists>r. ProcessTx cmd E (start_world d) = Inr r"
proof -
  note nf = calm_fault [OF assms(2)]
  have key: "cmdIdempotencyKey cmd \<noteq> []" using assms(6) by (auto simp: identified_def Let_def)
  have valid: "ValidateExternal (cmdRequest cmd) = None" using assms(5) by (simp add: ValidateExternal_None)
  have idem: "findIdempotentReplay (reqProviderID (cmdRequest cmd)) (cmdIdempotencyKey cmd) h E w =
      Inr (None, w\<lparr>stmt_count := Suc (stmt_count w)\<rparr>)" if "db w = d" for h w
    using assms(7) that
    by (simp add: findIdempotentReplay_def tx_bind_def tx_map_err_def sql_read_def sql_def nf stored_for_def tx_simps)
  have "\<exists>c w1. process_begin cmd E (start_world d) = Inr (Continue (c, PayloadHash (cmdRequest cmd)), w1)
      \<and> db w1 = d \<and> uuid_count w1 \<le> 1 \<and> cmdRequest c = cmdRequest cmd \<and> cmdIdempotencyKey c = cmdIdempotencyKey cmd
      \<and> cmdCausationID c = cmdCausationID cmd \<and> (characters (cmdCorrelationID cmd) \<le> 255 \<longrightarrow> characters (cmdCorrelationID c) \<le> 255)"
    using key valid uuid_laws_simps(4) [OF assms(3)] by (auto simp: process_begin_def Let_def tx_simps idem tx_bind_def start_world_def short_text)
  then obtain c w1 where beg: "process_begin cmd E (start_world d) = Inr (Continue (c, PayloadHash (cmdRequest cmd)), w1)"
    and w1: "db w1 = d" "uuid_count w1 \<le> 1" and c: "cmdRequest c = cmdRequest cmd" "cmdIdempotencyKey c = cmdIdempotencyKey cmd"
      "cmdCausationID c = cmdCausationID cmd" "characters (cmdCorrelationID cmd) \<le> 255 \<longrightarrow> characters (cmdCorrelationID c) \<le> 255"
    by blast
  have "identified c" "stored_for c d = None"
    using assms(6,7) c by (simp_all add: identified_def narrow_def Let_def stored_for_def)
  then have "\<exists>r. process_locked c (PayloadHash (cmdRequest c)) E w1 = Inr r"
    using process_locked_total [of w1 E c wallet] assms w1 c fresh_uuids_from [OF assms(4) w1(2)] by simp
  with beg c show ?thesis by (simp add: ProcessTx_def tx_simps)
qed

section \<open>The property\<close>

text \<open>C4: a good command is always decided. Where no statement fails and UUIDs are fresh, a command that
  meets the contract of its kind, carries its identifying texts, none wider than its column, is new to its provider, and names an
  existing wallet of its player and currency that has room for the amount, returns a result: it is
  never refused by a constraint of the tables or lost in an error, and its outcome is the one \<open>verdict\<close>
  decides.\<close>

theorem good_commands_are_decided:
  assumes "schema_ok d" "calm E" "uuid_laws E" "fresh_uuids E d" "request_contract (cmdRequest cmd)" "identified cmd"
    and "stored_for cmd d = None" "\<not> known_external (cmdRequest cmd) d"
    and "wallet_of E (reqWalletID (cmdRequest cmd)) d wallet" "PlayerID wallet = reqPlayerID (cmdRequest cmd)"
      "has_room wallet (reqAmount (cmdRequest cmd))"
  shows "\<exists>res d' c. Service_Process E cmd (start_world d) m =
      (Inr res, d', ObserveProcessingDuration (elapsed E) (recordProcessResult res m))
    \<and> correlated E cmd c
    \<and> decided E c (PayloadHash (cmdRequest cmd)) wallet (verdict E (cmdRequest cmd) (Balance wallet) d) d res d'"
proof -
  obtain res w' where run: "ProcessTx cmd E (start_world d) = Inr (res, w')"
    using ProcessTx_total [OF assms] by auto
  have "new_decision E cmd d res (db w')"
    using ProcessTx_result [OF run] assms(7) by (simp add: command_result_def)
  then obtain c where "correlated E cmd c"
    "decided E c (PayloadHash (cmdRequest cmd)) wallet (verdict E (cmdRequest cmd) (Balance wallet) d) d res (db w')"
    using wallet_of_unique [OF assms(1,3) _ assms(9)] by (auto simp: new_decision_def)
  moreover have "Service_Process E cmd (start_world d) m =
      (Inr res, db w', ObserveProcessingDuration (elapsed E) (recordProcessResult res m))"
    using run assms(2) by (simp add: Service_Process_def run_tx_def calm_def)
  ultimately show ?thesis by blast
qed

text \<open>A bet of 15.00 on the wallet of the history, which holds 20.00.\<close>

definition demo_next :: ProcessCommand where
  "demo_next = demo_command WagerKindBet ''k'' 1500 []"

lemma five_uuids: "(\<forall>n < 5. P n) \<longleftrightarrow> P 0 \<and> P 1 \<and> P 2 \<and> P 3 \<and> P (4 :: nat)"
  by (simp add: All_less_Suc2 eval_nat_numeral conj_assoc)

lemma demo_fresh: "fresh_uuids (demo_env 4) demo_db3"
proof -
  have "{..<5} = {0, 1, 2, 3, 4 :: nat}" by auto
  then have "inj_on (new_uuid (demo_env 4)) {..<5}" by simp
  moreover have "\<forall>n < 5. fresh_uuid (new_uuid (demo_env 4) n) demo_db3"
    unfolding five_uuids by (simp add: fresh_uuid_def demo_rows command_row_def outbox_row_of_def
        NewWagerTransactionProcessedEvent_def NewWalletBalanceChangedEvent_def)
  ultimately show ?thesis by (simp add: fresh_uuids_def)
qed

lemma good_commands_are_decided_witness:
  "\<exists>res d' c. Service_Process (demo_env 4) demo_next (start_world demo_db3) NewMetrics =
      (Inr res, d', ObserveProcessingDuration 5 (recordProcessResult res NewMetrics))
    \<and> decided (demo_env 4) c (PayloadHash (cmdRequest demo_next)) (demo_aggregate 2000 3 3000)
        (Settle None (- 1500)) demo_db3 res d'"
proof -
  have q: "request_contract (cmdRequest demo_next)" "identified demo_next"
    by (simp_all add: demo_next_def demo_command_def demo_request_def request_contract_def NewMoney_def units_def
        identified_def narrow_def btrim_nonempty_def BRL_def)
  have new: "stored_for demo_next demo_db3 = None" "\<not> known_external (cmdRequest demo_next) demo_db3"
    by (simp_all add: stored_for_def known_external_def idempotency_identity_def external_identity_def demo_rows
        command_row_def demo_next_def)
  have wal: "wallet_of (demo_env 4) (reqWalletID (cmdRequest demo_next)) demo_db3 (demo_aggregate 2000 3 3000)"
    by (simp add: wallet_of_def demo_rows demo_next_def scan_wallet_def wallet_evals word_sle_eq word_sless_alt)
  have room: "PlayerID (demo_aggregate 2000 3 3000) = reqPlayerID (cmdRequest demo_next)"
    "has_room (demo_aggregate 2000 3 3000) (reqAmount (cmdRequest demo_next))"
    by (simp_all add: demo_aggregate_def demo_next_def demo_command_def demo_request_def has_room_def in_int64_def
        NewMoney_def units_def)
  have v: "verdict (demo_env 4) (cmdRequest demo_next) (Balance (demo_aggregate 2000 3 3000)) demo_db3 = Settle None (- 1500)"
    by (simp add: verdict_def settle_def effect_sign_def requiresReferenceResolution_def demo_next_def demo_command_def
        demo_request_def demo_aggregate_def NewMoney_def units_def)
  have calm: "calm (demo_env 4)" by (simp add: calm_def)
  from good_commands_are_decided [OF demo_schema(1) calm demo_laws demo_fresh q new wal room, of NewMetrics]
  show ?thesis unfolding v by auto
qed

end
