(* ===== verification/Waiting_References.thy ===== *)
theory Waiting_References
  imports System
begin

text \<open>
  The third relation of \<open>db_contract\<close>: whatever waits, waits for something. Every pending transaction
  is of a kind that may refer to another and names the one it waits for, so the resolver can always
  read it and look for its reference.
\<close>

definition waits_named :: "database \<Rightarrow> bool" where
  "waits_named d \<longleftrightarrow> list_all written (wager_transactions d)"

definition keeps_waits :: "database \<Rightarrow> database \<Rightarrow> bool" where
  "keeps_waits d d' \<longleftrightarrow> (waits_named d \<longrightarrow> waits_named d')"

lemma waits_update_pending:
  "update_pending i f d = Inr (n, d') \<Longrightarrow> (\<And>r. is_pending i r \<Longrightarrow> written r \<Longrightarrow> written (f r)) \<Longrightarrow> keeps_waits d d'"
  by (drule update_pending_Inr) (auto simp: keeps_waits_def waits_named_def list_all_iff set_update_rows)

interpretation waits: db_contract keeps_waits
proof (unfold_locales, goal_cases)
  case (4 tr d d')
  then show ?case by (auto simp: keeps_waits_def waits_named_def insert_wager_Inr)
next
  case (7 i b v now d d')
  then show ?case by (auto simp: keeps_waits_def waits_named_def update_wallet_Inr Let_def)
next
  case (8 i a t now d n d')
  then show ?case
    by (rule waits_update_pending) (simp add: written_def names_reference_def reschedule_row_def)
next
  case (9 i c bal ref now d n d')
  then show ?case
    by (rule waits_update_pending) (simp add: written_def reject_row_def)
next
  case (10 i u bal now d n d')
  then show ?case
    by (rule waits_update_pending) (simp add: written_def processed_row_def)
qed (auto simp: keeps_waits_def waits_named_def insert_wallet_Inr insert_ledger_Inr insert_outbox_Inr insert_inbox_def
    update_inbox_def update_outbox_def split: if_splits)

lemma reachable_waits: "reachable s \<Longrightarrow> waits_named (sys_db s)"
proof (induction rule: reachable_in.induct)
  case initial
  then show ?case by (simp add: waits_named_def empty_database_def)
next
  case (step s s')
  with waits.sys_step_R show ?case by (auto simp: keeps_waits_def)
qed

text \<open>So a due row of a reachable state is readable and requires its reference.\<close>

lemma due_row_readable:
  assumes s: "reachable s" "d = sys_db s" and due: "due_row E d = Some r"
  obtains p where "scan_pending E r = Inr p" "requiresReferenceResolution (pnRequest p)"
    "reqReferenceExternalTransactionID (pnRequest p) \<noteq> []"
proof -
  have r: "r \<in> set (wager_transactions d)" "t_state r = WagerStatePendingReference"
    using due_row_pending [OF due] by (simp_all add: is_due_def)
  have ok: "schema_ok d" using reachable_inv [OF s(1)] s(2) by (simp add: sys_inv_def)
  have nr: "names_reference r"
    using reachable_waits [OF s(1)] r s(2) by (auto simp: waits_named_def list_all_iff written_def)
  then have "t_kind r \<noteq> KindOpening" by (auto simp: names_reference_def)
  with wager_row_checks(1) [OF ok r(1)] nr obtain a b c where
      f: "t_provider_id r = Some a" "t_external_transaction_id r = Some b"
        "t_reference_external_transaction_id r = Some c" "c \<noteq> []"
    by (auto simp: origin_metadata_def names_reference_def some_nonempty_def split: option.splits)
  obtain p where p: "scan_pending E r = Inr p" using f by (simp add: scan_pending_def)
  from scan_pending_Inr [OF p] f nr show thesis
    by (intro that [OF p]) (auto simp: names_reference_def requiresReferenceResolution_def)
qed

end
