(* ===== verification/Resolver_Totality.thy ===== *)
theory Resolver_Totality
  imports Totality Resolver_Properties Waiting_References
begin

text \<open>
  The resolver never gets stuck: where no statement fails, a pass over a due pending transaction
  whose wallet has room, or which has expired, ends in a commit. So an expired transaction leaves the
  queue with the next pass that finds it, whatever happened to the transaction it waits for.
\<close>

section \<open>Updating the pending row\<close>

lemma conflict_free_replace:
  assumes "conflict_free conf (xs @ r # ys)"
    and "\<forall>x \<in> set xs. \<not> conf x r \<longrightarrow> \<not> conf x r'" "\<forall>y \<in> set ys. \<not> conf r y \<longrightarrow> \<not> conf r' y"
  shows "conflict_free conf (xs @ r' # ys)"
  using assms by (auto simp: conflict_free_def sorted_wrt_append)

text \<open>What the updates of the resolver leave alone.\<close>

definition same_identity :: "wager_row \<Rightarrow> wager_row \<Rightarrow> bool" where
  "same_identity r r' \<longleftrightarrow>
     t_id r' = t_id r \<and> t_provider_id r' = t_provider_id r
     \<and> t_external_transaction_id r' = t_external_transaction_id r \<and> t_idempotency_key r' = t_idempotency_key r
     \<and> t_kind r' = t_kind r \<and> t_wallet_id r' = t_wallet_id r"

lemma pending_split:
  assumes "schema_ok d" "r \<in> set (wager_transactions d)" "t_state r = WagerStatePendingReference"
  obtains xs ys where "wager_transactions d = xs @ r # ys" "\<forall>x \<in> set xs \<union> set ys. \<not> is_pending (t_id r) x"
proof -
  obtain xs ys where d: "wager_transactions d = xs @ r # ys" using assms(2) by (auto simp: in_set_conv_decomp)
  have "conflict_free (\<lambda>a b. t_id a = t_id b) (wager_transactions d)"
    using schema_tables(2) [OF assms(1)] by (auto simp: table_ok_def wager_uniques_def split: if_splits)
  from conflict_free_distinct [OF this] have "t_id r \<notin> t_id ` (set xs \<union> set ys)" by (simp add: d image_Un)
  then have "\<forall>x \<in> set xs \<union> set ys. \<not> is_pending (t_id r) x" by (metis imageI is_pending_def)
  with d show thesis by (rule that)
qed

lemma update_pending_total:
  assumes ok: "schema_ok d" and r: "r \<in> set (wager_transactions d)" "t_state r = WagerStatePendingReference"
    and same: "same_identity r (f r)" and checks: "\<forall>(n, p) \<in> set wager_checks. p (f r)"
    and ref: "\<forall>i. t_referenced_transaction_id (f r) = Some i \<longrightarrow> i \<in> t_id ` set (wager_transactions d)"
    and rev: "\<forall>i. processed_reversal (f r) \<longrightarrow> t_referenced_transaction_id (f r) = Some i \<longrightarrow>
        \<not> list_ex (reverses i) (wager_transactions d)"
  shows "update_pending (t_id r) f d =
     Inr (1, d\<lparr>wager_transactions := update_rows (is_pending (t_id r)) f (wager_transactions d)\<rparr>)"
proof -
  obtain xs ys where d: "wager_transactions d = xs @ r # ys" and others: "\<forall>x \<in> set xs \<union> set ys. \<not> is_pending (t_id r) x"
    using pending_split [OF ok r] .
  have self: "is_pending (t_id r) r" using r(2) by (simp add: is_pending_def)
  have up: "update_rows (is_pending (t_id r)) f (wager_transactions d) = xs @ f r # ys"
    using self others by (auto simp: d update_rows_def intro!: map_idI)
  have ch: "filter (is_pending (t_id r)) (wager_transactions d) = [r]" using self others by (simp add: d filter_empty_conv)
  have norev: "\<not> (processed_reversal x \<and> processed_reversal (f r)
      \<and> t_referenced_transaction_id x = t_referenced_transaction_id (f r))" if "x \<in> set xs \<union> set ys" for x
  proof
    assume "processed_reversal x \<and> processed_reversal (f r) \<and> t_referenced_transaction_id x = t_referenced_transaction_id (f r)"
    then obtain i where "processed_reversal (f r)" "t_referenced_transaction_id (f r) = Some i" "reverses i x"
      by (auto simp: processed_reversal_def reverses_def)
    with rev that show False by (auto simp: d list_ex_iff)
  qed
  have "conflict_free conf (xs @ f r # ys)" if "(n, conf) \<in> set wager_uniques" for n conf
  proof (rule conflict_free_replace)
    show "conflict_free conf (xs @ r # ys)"
      using schema_tables(2) [OF ok] that unfolding d table_ok_def unique_violation_None by auto
    have "(\<not> conf x r \<longrightarrow> \<not> conf x (f r)) \<and> (\<not> conf r x \<longrightarrow> \<not> conf (f r) x)" if "x \<in> set xs \<union> set ys" for x
      using same norev [OF that] \<open>(n, conf) \<in> set wager_uniques\<close>
      by (auto simp: wager_uniques_def same_identity_def)
    then show "\<forall>x \<in> set xs. \<not> conf x r \<longrightarrow> \<not> conf x (f r)" "\<forall>y \<in> set ys. \<not> conf r y \<longrightarrow> \<not> conf (f r) y"
      by auto
  qed
  with checks have st: "store wager_checks wager_uniques [f r] (xs @ f r # ys) = None"
    by (auto simp: store_None check_violation_None unique_violation_None)
  have "wager_foreign_keys (d\<lparr>wager_transactions := xs @ f r # ys\<rparr>) (f r) = None"
    using wager_wallet_known [OF ok r(1)] same ref by (auto simp: wager_foreign_keys_def same_identity_def d split: option.splits)
  with st up ch show ?thesis by (simp add: update_pending_def Let_def)
qed

lemma exec_update_pending_total:
  assumes "schema_ok (db w)" "calm E" "r \<in> set (wager_transactions (db w))" "t_state r = WagerStatePendingReference"
    and "same_identity r (f r)" "\<forall>(n, p) \<in> set wager_checks. p (f r)"
    and "\<forall>i. t_referenced_transaction_id (f r) = Some i \<longrightarrow> i \<in> t_id ` set (wager_transactions (db w))"
    and "\<forall>i. processed_reversal (f r) \<longrightarrow> t_referenced_transaction_id (f r) = Some i \<longrightarrow>
        \<not> list_ex (reverses i) (wager_transactions (db w))"
  shows "exec_update_pending c n (t_id r) f E w = Inr ((), w\<lparr>db := (db w)\<lparr>wager_transactions :=
      update_rows (is_pending (t_id r)) f (wager_transactions (db w))\<rparr>, stmt_count := Suc (stmt_count w)\<rparr>)"
  using update_pending_total [of "db w" r f, OF assms(1) assms(3-8)] calm_fault [OF assms(2)]
  by (simp add: exec_update_pending_def tx_bind_def tx_map_err_def sql_def tx_simps)

text \<open>The checks of the three updates.\<close>

lemma pending_row_checks:
  assumes ok: "schema_ok d" and r: "r \<in> set (wager_transactions d)"
    and q: "t_kind r \<in> {WagerKindWin, WagerKindRefund, WagerKindRollback}"
      "some_nonempty (t_reference_external_transaction_id r)"
  shows "\<forall>(n, p) \<in> set wager_checks. p (reschedule_row (t_reference_attempts r + 1) t now r)"
    and "0 \<le> sint b \<Longrightarrow> \<forall>(n, p) \<in> set wager_checks. p (reject_row code b ref now r)"
    and "0 \<le> sint b \<Longrightarrow> \<forall>(n, p) \<in> set wager_checks. p (processed_row i b now r)"
proof -
  have c: "\<forall>(n, p) \<in> set wager_checks. p r"
    using schema_tables(2) [OF ok] r by (auto simp: table_ok_def check_violation_None)
  note defs = wager_checks_def amount_by_kind_def origin_metadata_def reference_applicability_def word_sle_eq
  show "\<forall>(n, p) \<in> set wager_checks. p (reschedule_row (t_reference_attempts r + 1) t now r)"
    using c by (simp add: defs reschedule_row_def)
  show "0 \<le> sint b \<Longrightarrow> \<forall>(n, p) \<in> set wager_checks. p (reject_row code b ref now r)"
    using c q by (auto simp: defs reject_row_def)
  show "0 \<le> sint b \<Longrightarrow> \<forall>(n, p) \<in> set wager_checks. p (processed_row i b now r)"
    using c q by (auto simp: defs processed_row_def)
qed

section \<open>Every branch commits\<close>

text \<open>A pending transaction of a database whose books are kept.\<close>

definition open_pending :: "env \<Rightarrow> database \<Rightarrow> wager_row \<Rightarrow> pendingReferenceTransaction \<Rightarrow> bool" where
  "open_pending E d r p \<longleftrightarrow>
     schema_ok d \<and> books d \<and> pending_of E d r p \<and> requiresReferenceResolution (pnRequest p)
     \<and> reqReferenceExternalTransactionID (pnRequest p) \<noteq> []"

lemma open_pendingD:
  assumes "open_pending E d r p"
  shows "schema_ok d" "r \<in> set (wager_transactions d)" "t_state r = WagerStatePendingReference"
    "pnID p = t_id r" "t_kind r = reqKind (pnRequest p)" "pnReferenceAttempts p = t_reference_attempts r"
    "t_kind r \<in> {WagerKindWin, WagerKindRefund, WagerKindRollback}"
    "some_nonempty (t_reference_external_transaction_id r)"
    "0 < units (reqAmount (pnRequest p))"
    "t_id r \<notin> l_transaction_id ` set (ledger_entries d)"
proof -
  have pr: "pending_of E d r p" and ok: "schema_ok d" using assms by (simp_all add: open_pending_def)
  then show ok': "schema_ok d" and r: "r \<in> set (wager_transactions d)" "t_state r = WagerStatePendingReference"
    by (simp_all add: pending_of_def)
  have "scan_pending E r = Inr p" using pr by (simp add: pending_of_def)
  note s = scan_pending_Inr [OF this]
  show "pnID p = t_id r" "t_kind r = reqKind (pnRequest p)" "pnReferenceAttempts p = t_reference_attempts r"
    using s by simp_all
  show kind: "t_kind r \<in> {WagerKindWin, WagerKindRefund, WagerKindRollback}"
    and "some_nonempty (t_reference_external_transaction_id r)"
    using assms s by (auto simp: open_pending_def requiresReferenceResolution_def some_nonempty_def)
  show "0 < units (reqAmount (pnRequest p))"
    using wager_row_checks(2) [OF ok r(1)] kind s by (auto simp: amount_by_kind_def units_def word_sless_alt)
  show "t_id r \<notin> l_transaction_id ` set (ledger_entries d)"
  proof
    assume "t_id r \<in> l_transaction_id ` set (ledger_entries d)"
    then obtain l where l: "l \<in> set (ledger_entries d)" "l_transaction_id l = t_id r" by auto
    have "books d" using assms by (simp add: open_pending_def)
    with l(1) obtain r' where r': "r' \<in> moving d" "entry_ok (moving d) r' l" by (auto simp: books_def)
    then have "t_id r' = t_id r" "r' \<in> set (wager_transactions d)" using l(2) by (auto simp: entry_ok_def moving_def)
    then have "r' = r" using transaction_id_unique [OF ok _ r(1)] by simp
    with r' r(2) show False by (simp add: moving_def moves_def)
  qed
qed

lemma same_identity_updates [simp]:
  "same_identity r (reschedule_row a t now r)" "same_identity r (reject_row c b ref now r)"
  "same_identity r (processed_row i b now r)"
  by (simp_all add: same_identity_def reschedule_row_def reject_row_def processed_row_def)

lemma pending_updates_state [simp]:
  "t_state (reschedule_row a t now r) = t_state r" "t_state (reject_row c b ref now r) = WagerStateRejected"
  "t_referenced_transaction_id (reschedule_row a t now r) = t_referenced_transaction_id r"
  "t_referenced_transaction_id (reject_row c b ref now r) = ref"
  by (simp_all add: reschedule_row_def reject_row_def)

lemma wager_reference_known:
  assumes "schema_ok d" "r \<in> set (wager_transactions d)" "t_referenced_transaction_id r = Some i"
  shows "i \<in> t_id ` set (wager_transactions d)"
proof -
  have "wager_foreign_keys d r = None" using assms(1,2) by (auto simp: schema_ok_def list_all_iff)
  with assms(3) show ?thesis by (simp add: wager_foreign_keys_def split: if_splits)
qed

lemma schedule_total:
  assumes op: "open_pending E (db w) r p" and calm: "calm E"
  shows "\<exists>w'. schedulePendingReferenceRetry p now E w = Inr ((), w')"
proof -
  note o = open_pendingD [OF op]
  have "exec_update_pending c n (t_id r) (reschedule_row (t_reference_attempts r + 1) t now) E w = Inr ((), w\<lparr>db := (db w)\<lparr>wager_transactions :=
      update_rows (is_pending (t_id r)) (reschedule_row (t_reference_attempts r + 1) t now) (wager_transactions (db w))\<rparr>,
      stmt_count := Suc (stmt_count w)\<rparr>)" for c n t
  proof (rule exec_update_pending_total [OF o(1) calm o(2,3)])
    show "\<forall>(n, p) \<in> set wager_checks. p (reschedule_row (t_reference_attempts r + 1) t now r)"
      by (rule pending_row_checks(1) [OF o(1,2,7,8)])
    show "\<forall>i. t_referenced_transaction_id (reschedule_row (t_reference_attempts r + 1) t now r) = Some i \<longrightarrow>
        i \<in> t_id ` set (wager_transactions (db w))"
      using wager_reference_known [OF o(1,2)] by simp
  qed (use o(3) in \<open>simp_all add: processed_reversal_def\<close>)
  then show ?thesis by (simp add: schedulePendingReferenceRetry_def Let_def o(4,6))
qed

lemma reject_total:
  assumes op: "open_pending E (db w) r p" and calm: "calm E" and bal: "0 \<le> units (Balance wallet)"
    and fresh: "new_uuid E (uuid_count w) \<notin> o_id ` set (outbox_events (db w))"
    and ref: "\<forall>i. ref = Some i \<longrightarrow> i \<in> t_id ` set (wager_transactions (db w))"
  shows "\<exists>w'. reject_and_commit t p wallet code now ref E w = Inr (PendingRejected t, w')"
proof -
  note o = open_pendingD [OF op]
  let ?f = "reject_row code (amount (Balance wallet)) ref now"
  have up: "exec_update_pending c n (t_id r) ?f E w = Inr ((), w\<lparr>db := (db w)\<lparr>wager_transactions :=
      update_rows (is_pending (t_id r)) ?f (wager_transactions (db w))\<rparr>, stmt_count := Suc (stmt_count w)\<rparr>)" for c n
  proof (rule exec_update_pending_total [OF o(1) calm o(2,3)])
    show "\<forall>(n, p) \<in> set wager_checks. p (?f r)"
      by (rule pending_row_checks(2) [OF o(1,2,7,8)]) (use bal in \<open>simp add: units_def\<close>)
  qed (use ref in \<open>simp_all add: processed_reversal_def\<close>)
  show ?thesis
    using fresh schema_tables(4) [OF o(1)] insertOutboxEvent_total [OF _ calm]
    by (simp add: reject_and_commit_def rejectPendingReference_def o(4) up tx_simps insertRejectedEvent_def
        NewWagerTransactionRejectedEvent_def)
qed

lemma t_id_update_rows:
  "(\<And>r. t_id (f r) = t_id r) \<Longrightarrow> t_id ` set (update_rows p f rs) = t_id ` set rs"
  using arg_cong [OF map_update_rows [of t_id f p rs], of set] by simp

lemma resolve_persist_total:
  assumes op: "open_pending E (db w) r p" and calm: "calm E"
    and fresh: "fresh_uuids E (db w)" "uuid_count w = 0"
    and fits: "movement_fits E (pnRequest p) wallet' before
        (if direction = movementDebit then DirectionDebit else DirectionCredit) (db w)"
    and ref: "i \<in> t_id ` set (wager_transactions (db w))"
      "t_kind r \<noteq> WagerKindWin \<longrightarrow> \<not> list_ex (reverses i) (wager_transactions (db w))"
  shows "\<exists>out. resolve_persist p wallet' before i direction now E w = Inr out"
proof -
  note o = open_pendingD [OF op]
  let ?q = "pnRequest p" and ?f = "processed_row i (amount (Balance wallet')) now"
  let ?dir = "if direction = movementDebit then DirectionDebit else DirectionCredit"
  from exec_update_wallet_total [OF fits o(1) calm, of "''update wallet resolving pending reference''" now] obtain v where
    v: "exec_update_wallet ''update wallet resolving pending reference'' wallet' now E w = Inr ((), v)" "schema_ok (db v)"
      "uuid_count v = 0" "w_id ` set (wallets (db v)) = w_id ` set (wallets (db w))"
      "wager_transactions (db v) = wager_transactions (db w)" "ledger_entries (db v) = ledger_entries (db w)"
      "outbox_events (db v) = outbox_events (db w)"
    using fresh(2) by auto
  define w2 where "w2 = v\<lparr>db := (db v)\<lparr>wager_transactions := update_rows (is_pending (t_id r)) ?f (wager_transactions (db v))\<rparr>,
      stmt_count := Suc (stmt_count v)\<rparr>"
  have up: "exec_update_pending c n (t_id r) ?f E v = Inr ((), w2)" for c n
    unfolding w2_def
  proof (rule exec_update_pending_total [OF v(2) calm])
    show "r \<in> set (wager_transactions (db v))" "t_state r = WagerStatePendingReference" using o(2,3) v(5) by simp_all
    show "\<forall>(n, p) \<in> set wager_checks. p (?f r)"
      by (rule pending_row_checks(3) [OF o(1,2,7,8)]) (use fits in \<open>simp add: movement_fits_def units_def\<close>)
  qed (use ref v(5) o(7) in \<open>auto simp: processed_reversal_def\<close>)
  have ids: "t_id ` set (wager_transactions (db w2)) = t_id ` set (wager_transactions (db w))"
    using t_id_update_rows [of ?f "is_pending (t_id r)" "wager_transactions (db w)"] v(5) by (simp add: w2_def)
  have w2: "uuid_count w2 = 0" "ledger_entries (db w2) = ledger_entries (db w)" "outbox_events (db w2) = outbox_events (db w)"
    using v by (simp_all add: w2_def)
  have m2: "movement_fits E ?q wallet' before ?dir (db w2)" using fits v(4) by (simp add: movement_fits_def w2_def)
  have nl: "reqKind ?q \<noteq> WagerKindLoss" using o(5,7) by auto
  have "new_uuid E (uuid_count w2) \<notin> l_id ` set (ledger_entries (db w2))"
    "t_id r \<notin> l_transaction_id ` set (ledger_entries (db w2))" "t_id r \<in> t_id ` set (wager_transactions (db w2))"
    "table_ok ledger_checks ledger_uniques (ledger_entries (db w2))"
    using fresh_uuids_nth [OF fresh(1), of 0] o(2,10) schema_tables(3) [OF o(1)] by (simp_all add: w2 ids fresh_uuid_def)
  then obtain w3 where w3: "exec_insert_ledger ''insert ledger resolving pending reference'' wallet' (t_id r) ?dir
      (reqAmount ?q) before now E w2 = Inr ((), w3)" "uuid_count w3 = Suc 0" "outbox_events (db w3) = outbox_events (db w)"
    using exec_insert_ledger_total [OF m2 nl _ calm o(9), of "t_id r" "''insert ledger resolving pending reference''" now] w2
    by auto
  have "\<exists>w'. insertProcessedEvents (t_id r) (reqKind ?q) wallet' (reqAmount ?q) before ?dir
      (pnCorrelationID p) (pnCausationID p) now E w3 = Inr ((), w')"
    using w3(2,3) schema_tables(4) [OF o(1)] fresh_uuids_nth [OF fresh(1), of 1] fresh_uuids_nth [OF fresh(1), of 2]
      fresh_uuids_differ [OF fresh(1), of 2 1] calm
    by (intro insertProcessedEvents_total) (simp_all add: fresh_uuid_def eval_nat_numeral)
  with v(1) up w3(1) show ?thesis
    by (auto simp: resolve_persist_def Let_def tx_simps o(4))
qed

lemma resolve_move_total:
  assumes op: "open_pending E (db w) r p" and calm: "calm E"
    and fresh: "fresh_uuids E (db w)" "uuid_count w = 0"
    and wal: "stored_wallet E v wallet (db w)" "has_room wallet (reqAmount (pnRequest p))"
    and ref: "i \<in> t_id ` set (wager_transactions (db w))"
      "t_kind r \<noteq> WagerKindWin \<longrightarrow> \<not> list_ex (reverses i) (wager_transactions (db w))"
    and dir: "direction = movementCredit \<or> direction = movementDebit"
  shows "\<exists>out. resolve_move p wallet now i direction E w = Inr out"
  using dir
proof
  note o = open_pendingD [OF op]
  assume d: "direction = movementCredit"
  obtain wallet' where w': "Wallet_Credit wallet (reqAmount (pnRequest p)) now = Inr wallet'"
    "movement_fits E (pnRequest p) wallet' (Balance wallet) DirectionCredit (db w)"
    using credit_fits [OF wal o(9)] .
  then show ?thesis
    using resolve_persist_total [OF op calm fresh _ ref, of wallet' "Balance wallet" direction now]
    by (simp add: resolve_move_def Let_def tx_simps d)
next
  note o = open_pendingD [OF op]
  assume d: "direction = movementDebit"
  show ?thesis
  proof (cases "units (reqAmount (pnRequest p)) \<le> units (Balance wallet)")
    case True
    obtain wallet' where w': "Wallet_Debit wallet (reqAmount (pnRequest p)) now = Inr wallet'"
      "movement_fits E (pnRequest p) wallet' (Balance wallet) DirectionDebit (db w)"
      using debit_fits [OF wal o(9) True] .
    then show ?thesis
      using resolve_persist_total [OF op calm fresh _ ref, of wallet' "Balance wallet" direction now]
      by (simp add: resolve_move_def Let_def tx_simps d)
  next
    case False
    then have "Wallet_Debit wallet (reqAmount (pnRequest p)) now = Inl (Sentinel ErrInsufficientFunds)"
      using debit_refused [OF wal(2) o(9)] by simp
    moreover have "\<exists>w'. reject_and_commit ''commit rejected pending reference'' p wallet ''REVERSAL_INSUFFICIENT_FUNDS'' now
        (Some i) E w = Inr (PendingRejected ''commit rejected pending reference'', w')"
      using wal(1) fresh_uuids_nth [OF fresh(1), of 0] fresh(2) ref(1)
      by (intro reject_total [OF op calm]) (simp_all add: stored_wallet_def fresh_uuid_def)
    ultimately show ?thesis by (auto simp: resolve_move_def Let_def d)
  qed
qed

text \<open>The reference of a pending transaction, found processed.\<close>

lemma resolve_processed_total:
  assumes op: "open_pending E (db w) r p" and calm: "calm E"
    and fresh: "fresh_uuids E (db w)" "uuid_count w = 0"
    and wal: "stored_wallet E v wallet (db w)" "has_room wallet (reqAmount (pnRequest p))"
    and known: "refID found \<in> t_id ` set (wager_transactions (db w))"
  shows "\<exists>out. resolve_processed p wallet now found E w = Inr out"
proof -
  note o = open_pendingD [OF op]
  let ?q = "pnRequest p" and ?w1 = "w\<lparr>stmt_count := Suc (stmt_count w)\<rparr>"
  have reject: "\<exists>x. reject_and_commit t p wallet code now (Some (refID found)) E y = Inr (PendingRejected t, x)"
    if "db y = db w" "uuid_count y = 0" for t code y
    using wal(1) fresh_uuids_nth [OF fresh(1), of 0] that known op
    by (intro reject_total [OF _ calm]) (simp_all add: stored_wallet_def fresh_uuid_def)
  show ?thesis
  proof (cases "validateReference E ?q found")
    case (Some e)
    with reject [of w] fresh(2) show ?thesis by (fastforce simp: resolve_processed_def tx_simps)
  next
    case None
    have kind: "refKind found \<in> referable (reqKind ?q)" using None by (simp add: validateReference_None)
    show ?thesis
    proof (cases "reqKind ?q = WagerKindWin")
      case True
      with None resolve_move_total [OF op calm fresh wal known, of movementCredit now] o(5) show ?thesis
        by (simp add: resolve_processed_def tx_simps)
    next
      case False
      then have rev: "reqKind ?q = WagerKindRefund \<or> reqKind ?q = WagerKindRollback" using o(5,7) by auto
      obtain mv where mv: "reversalDirection (reqKind ?q) found = Inr mv"
        using reversalDirection_total [OF rev kind] by auto
      have look: "referenceAlreadyReversed (refID found) E w =
          Inr (list_ex (reverses (refID found)) (wager_transactions (db w)), ?w1)"
        by (simp add: referenceAlreadyReversed_def tx_map_err_def sql_read_def sql_def calm_fault [OF calm])
      show ?thesis
      proof (cases "list_ex (reverses (refID found)) (wager_transactions (db w))")
        case True
        with None False look reject [of ?w1] fresh(2) show ?thesis by (fastforce simp: resolve_processed_def tx_simps)
      next
        case nrev: False
        have "\<exists>out. resolve_move p wallet now (refID found) mv E ?w1 = Inr out"
          using op fresh wal known nrev reversalDirection_sign [OF mv] by (intro resolve_move_total [OF _ calm]) simp_all
        with None False look nrev mv show ?thesis by (simp add: resolve_processed_def tx_simps)
      qed
    qed
  qed
qed

lemma resolve_reference_total:
  assumes op: "open_pending E (db w) r p" and calm: "calm E"
    and fresh: "fresh_uuids E (db w)" "uuid_count w = 0"
    and wal: "stored_wallet E v wallet (db w)" "has_room wallet (reqAmount (pnRequest p))"
  shows "\<exists>out. resolve_reference p wallet now E w = Inr out"
proof -
  note o = open_pendingD [OF op]
  let ?q = "pnRequest p" and ?w1 = "w\<lparr>stmt_count := Suc (stmt_count w)\<rparr>"
  have look: "findReferencedTransaction ?q E w = Inr (map_option scan_reference (wager_lookup ?q (db w)), ?w1)"
    using op by (simp add: open_pending_def findReferencedTransaction_def wager_lookup_def tx_map_err_def sql_read_def sql_def
        calm_fault [OF calm])
  have sched: "\<exists>w'. schedulePendingReferenceRetry p now E ?w1 = Inr ((), w')"
    using op by (intro schedule_total [OF _ calm]) simp
  show ?thesis
  proof (cases "wager_lookup ?q (db w)")
    case None
    with look sched show ?thesis by (auto simp: resolve_reference_def tx_simps)
  next
    case (Some r0)
    have mem: "r0 \<in> set (wager_transactions (db w))" using Some by (auto simp: wager_lookup_def dest: find_SomeD)
    then have known: "refID (scan_reference r0) \<in> t_id ` set (wager_transactions (db w))" by (simp add: scan_reference_def)
    have "wager_enums r0" using o(1) mem by (auto simp: schema_ok_def list_all_iff)
    then consider "t_state r0 \<in> {WagerStatePending, WagerStatePendingReference}"
      | "t_state r0 \<in> {WagerStateRejected, WagerStateFailed}" | "t_state r0 = WagerStateProcessed"
      by (auto simp: wager_enums_def)
    then show ?thesis
    proof cases
      case 1
      with look sched Some show ?thesis by (auto simp: resolve_reference_def tx_simps scan_reference_def)
    next
      case 2
      have "\<exists>x. reject_and_commit ''commit terminal unsuccessful reference'' p wallet failureCodeReferenceTerminalUnsuccessful
          now (Some (refID (scan_reference r0))) E ?w1 = Inr (PendingRejected ''commit terminal unsuccessful reference'', x)"
        using wal(1) fresh_uuids_nth [OF fresh(1), of 0] fresh(2) known op
        by (intro reject_total [OF _ calm]) (simp_all add: stored_wallet_def fresh_uuid_def)
      with 2 look Some show ?thesis by (auto simp: resolve_reference_def tx_simps scan_reference_def)
    next
      case 3
      have "\<exists>out. resolve_processed p wallet now (scan_reference r0) E ?w1 = Inr out"
        using op fresh wal known by (intro resolve_processed_total [OF _ calm]) simp_all
      with 3 look Some show ?thesis by (auto simp: resolve_reference_def tx_simps scan_reference_def)
    qed
  qed
qed

text \<open>An expired transaction needs no room in its wallet and no reference: it is refused in any case.\<close>

lemma resolve_pending_total:
  assumes op: "open_pending E (db w) r p" and calm: "calm E" and laws: "uuid_laws E"
    and fresh: "fresh_uuids E (db w)" "uuid_count w = 0"
    and wal: "wallet_of E (reqWalletID (pnRequest p)) (db w) wallet"
    and room: "is_expired p (time_now E (now_count w)) \<or> has_room wallet (reqAmount (pnRequest p))"
  shows "\<exists>out. resolve_pending p E w = Inr out"
proof -
  note o = open_pendingD [OF op]
  let ?w1 = "w\<lparr>stmt_count := Suc (stmt_count w)\<rparr>" and ?now = "time_now E (now_count w)"
  let ?w2 = "?w1\<lparr>now_count := Suc (now_count w)\<rparr>"
  obtain x where x: "List.find (\<lambda>r. w_id r = w_id x) (wallets (db w)) = Some x"
    "pg_uuid_in E (reqWalletID (pnRequest p)) = Some (w_id x)"
    "scan_wallet E x = Inr wallet" and st: "stored_wallet E (w_id x) wallet (db w)"
    using wallet_of_stored [OF laws wal o(1)] .
  have lock: "lockWallet (reqWalletID (pnRequest p)) E w = Inr (wallet, ?w1)"
    using x by (simp add: lockWallet_def tx_bind_def tx_map_err_def sql_read_def sql_def calm_fault [OF calm] uuid_param_def tx_simps)
  show ?thesis
  proof (cases "is_expired p ?now")
    case True
    have "\<exists>y. reject_and_commit ''commit expired pending reference'' p wallet ''REFERENCE_EXPIRED'' ?now None E ?w2 =
        Inr (PendingRejected ''commit expired pending reference'', y)"
      using st fresh_uuids_nth [OF fresh(1), of 0] fresh(2) op
      by (intro reject_total [OF _ calm]) (simp_all add: stored_wallet_def fresh_uuid_def)
    with lock True show ?thesis by (auto simp: resolve_pending_def tx_simps)
  next
    case False
    with room have "\<exists>out. resolve_reference p wallet ?now E ?w2 = Inr out"
      using op fresh st by (intro resolve_reference_total [OF _ calm, of ?w2 r p "w_id x"]) simp_all
    with lock False show ?thesis by (simp add: resolve_pending_def tx_simps)
  qed
qed

section \<open>The property\<close>

lemma resolver_pass_total:
  assumes "reachable s" "d = sys_db s" "calm E" "uuid_laws E" "fresh_uuids E d"
    and due: "due_row E d = Some r" "scan_pending E r = Inr p"
      "requiresReferenceResolution (pnRequest p)" "reqReferenceExternalTransactionID (pnRequest p) \<noteq> []"
    and wal: "wallet_of E (reqWalletID (pnRequest p)) d wallet"
      "is_expired p (time_now E 0) \<or> has_room wallet (reqAmount (pnRequest p))"
  shows "\<exists>out d'. ResolveOne E (start_world d) m = (Inr True, d', resolve_metrics out m)
    \<and> resolved E p wallet (time_now E 0)
        (if is_expired p (time_now E 0) then Refuse ''REFERENCE_EXPIRED'' None
         else verdict E (pnRequest p) (Balance wallet) d) d out d'"
proof -
  have ok: "schema_ok d" and "books d" using reachable_inv [OF assms(1)] assms(2) by (simp_all add: sys_inv_def)
  have "pending_of E d r p" using due_row_pending [OF due(1)] due(2) by (simp add: pending_of_def is_due_def)
  with ok \<open>books d\<close> due(3,4) have op: "open_pending E d r p" by (simp add: open_pending_def)
  let ?w = "(start_world d)\<lparr>stmt_count := Suc 0\<rparr>"
  have "\<exists>out. resolve_pending p E ?w = Inr out"
    using op assms(3-5) wal by (intro resolve_pending_total) (simp_all add: start_world_def)
  moreover have "findDuePendingReference E (start_world d) = Inr (Some p, ?w)"
    using due(1,2) by (simp add: findDuePendingReference_def tx_map_err_def sql_read_def sql_def calm_fault [OF assms(3)] start_world_def)
  ultimately obtain out w' where run: "resolve_tx E (start_world d) = Inr (out, w')"
    by (auto simp: resolve_tx_def tx_simps)
  have "resolver_pass E (start_world d) out (db w')" using resolve_tx_result [OF run] ok by simp
  then have dec: "resolved E p wallet (time_now E 0)
      (if is_expired p (time_now E 0) then Refuse ''REFERENCE_EXPIRED'' None
       else verdict E (pnRequest p) (Balance wallet) d) d out (db w')"
    using due(1,2) wallet_of_unique [OF ok assms(4) _ wal(1)] by (auto simp: resolver_pass_def start_world_def)
  from resolved_not_nothing [OF dec] have "out \<noteq> NothingDue" .
  then have "resolve_commit out \<noteq> None" by (cases out) simp_all
  with run \<open>out \<noteq> NothingDue\<close> assms(3) have "ResolveOne E (start_world d) m = (Inr True, db w', resolve_metrics out m)"
    by (auto simp: ResolveOne_def run_tx_def calm_def)
  with dec show ?thesis by blast
qed

text \<open>C11: the queue of pending transactions never gets stuck. In every state the system can reach,
  a due row can be read back as a pending transaction. Where no statement fails and UUIDs are
  fresh, a pass that finds it always commits a decision about it, provided
  its wallet has room for the amount or it has expired: it is rescheduled, refused or settled as
  \<open>verdict\<close> decides, and once expired it is refused. So a pending transaction leaves the queue at the
  latest with the first pass that finds it after its time to live.\<close>

theorem due_transactions_are_decided:
  assumes "reachable s" "d = sys_db s" "calm E" "uuid_laws E" "fresh_uuids E d" "due_row E d = Some r"
  shows "\<exists>p. scan_pending E r = Inr p \<and> (\<forall>wallet. wallet_of E (reqWalletID (pnRequest p)) d wallet
      \<and> (is_expired p (time_now E 0) \<or> has_room wallet (reqAmount (pnRequest p)))
    \<longrightarrow> (\<exists>out d'. ResolveOne E (start_world d) m = (Inr True, d', resolve_metrics out m)
      \<and> resolved E p wallet (time_now E 0)
          (if is_expired p (time_now E 0) then Refuse ''REFERENCE_EXPIRED'' None
           else verdict E (pnRequest p) (Balance wallet) d) d out d'))"
proof -
  obtain p where p: "scan_pending E r = Inr p" "requiresReferenceResolution (pnRequest p)"
      "reqReferenceExternalTransactionID (pnRequest p) \<noteq> []"
    by (rule due_row_readable [OF assms(1,2,6)])
  from p(1) resolver_pass_total [OF assms p] show ?thesis by blast
qed

lemma demo_fresh_later: "fresh_uuids (demo_env 6000) demo_db4"
proof -
  have "{..<5} = {0, 1, 2, 3, 4 :: nat}" by auto
  then have "inj_on (new_uuid (demo_env 6000)) {..<5}" by simp
  moreover have "\<forall>n < 5. fresh_uuid (new_uuid (demo_env 6000) n) demo_db4"
    unfolding five_uuids by (simp add: fresh_uuid_def demo_rows command_row_def outbox_row_of_def
        NewWagerTransactionProcessedEvent_def NewWalletBalanceChangedEvent_def NewWagerTransactionPendingReferenceEvent_def)
  ultimately show ?thesis by (simp add: fresh_uuids_def)
qed

text \<open>The REFUND of the history, whose reference has not arrived, is rescheduled.\<close>

lemma due_transactions_are_decided_witness:
  "\<exists>p out d'. ResolveOne (demo_env 6000) (start_world demo_db4) NewMetrics = (Inr True, d', resolve_metrics out NewMetrics)
     \<and> retry_outcome p 6000000 demo_db4 out d'"
proof -
  obtain p where p: "scan_pending (demo_env 6000) demo_pending_row = Inr p"
    by (simp add: scan_pending_def demo_rows command_row_def)
  note s = scan_pending_Inr [OF p]
  have due: "due_row (demo_env 6000) demo_db4 = Some demo_pending_row"
    by (simp add: due_row_def is_due_def demo_rows command_row_def)
  have ref: "reqReferenceExternalTransactionID (pnRequest p) = ''z''" "reqKind (pnRequest p) = WagerKindRefund"
    and prov: "reqProviderID (pnRequest p) = ''p''" and wid: "reqWalletID (pnRequest p) = ''100''"
    and amt: "amount (reqAmount (pnRequest p)) = 1000" "currency (reqAmount (pnRequest p)) = BRL"
    and exp: "pnReferenceExpiresAt p = Some 300004000"
    using s by (simp_all add: demo_rows command_row_def NewMoney_def)
  then have req: "requiresReferenceResolution (pnRequest p)" "reqReferenceExternalTransactionID (pnRequest p) \<noteq> []"
    by (simp_all add: requiresReferenceResolution_def)
  have wal: "wallet_of (demo_env 6000) (reqWalletID (pnRequest p)) demo_db4 (demo_aggregate 2000 3 3000)"
    by (simp add: wid wallet_of_def demo_rows scan_wallet_def wallet_evals word_sle_eq word_sless_alt)
  have late: "\<not> is_expired p (time_now (demo_env 6000) 0)" by (simp add: is_expired_def exp)
  have room: "is_expired p (time_now (demo_env 6000) 0) \<or> has_room (demo_aggregate 2000 3 3000) (reqAmount (pnRequest p))"
    using amt by (simp add: has_room_def demo_aggregate_def in_int64_def NewMoney_def units_def)
  have v: "verdict (demo_env 6000) (pnRequest p) bal demo_db4 = Await" for bal
    using req(1) ref prov by (simp add: verdict_def wager_lookup_def external_identity_def demo_rows command_row_def)
  have calm: "calm (demo_env 6000)" by (simp add: calm_def)
  have "demo_db4 = sys_db (demo_system demo_db4)" by simp
  from due_transactions_are_decided [OF demo_reachable(2) this calm demo_laws demo_fresh_later due, of NewMetrics] p wal room
  obtain out d' where "ResolveOne (demo_env 6000) (start_world demo_db4) NewMetrics = (Inr True, d', resolve_metrics out NewMetrics)"
    "resolved (demo_env 6000) p (demo_aggregate 2000 3 3000) (time_now (demo_env 6000) 0)
       (if is_expired p (time_now (demo_env 6000) 0) then Refuse ''REFERENCE_EXPIRED'' None
        else verdict (demo_env 6000) (pnRequest p) (Balance (demo_aggregate 2000 3 3000)) demo_db4) demo_db4 out d'"
    by auto
  then show ?thesis using late v by (auto simp: resolved_def)
qed

end
