(* ===== verification/Column_Widths.thy ===== *)
theory Column_Widths
  imports System Command_Properties Http_Wager
begin

text \<open>
  The fourth relation of \<open>db_contract\<close>: every stored transaction has identifiers that fit their columns.
  The request is checked for empty texts only, so a longer identifier is found out by the insertion: the
  command fails, on every attempt, with an error the handlers do not know.
\<close>

definition identifiers_fit :: "wager_row \<Rightarrow> bool" where
  "identifiers_fit r \<longleftrightarrow>
     fits 100 (t_provider_id r) \<and> fits 100 (t_external_transaction_id r) \<and> fits 255 (t_idempotency_key r)"

definition keeps_widths :: "database \<Rightarrow> database \<Rightarrow> bool" where
  "keeps_widths d d' \<longleftrightarrow>
     (list_all identifiers_fit (wager_transactions d) \<longrightarrow> list_all identifiers_fit (wager_transactions d'))"

lemma widths_update_pending:
  "update_pending i f d = Inr (n, d') \<Longrightarrow> (\<And>r. identifiers_fit r \<Longrightarrow> identifiers_fit (f r)) \<Longrightarrow> keeps_widths d d'"
  by (drule update_pending_Inr) (auto simp: keeps_widths_def list_all_iff set_update_rows)

interpretation widths: db_contract keeps_widths
proof (unfold_locales, goal_cases)
  case (4 tr d d')
  then show ?case by (auto simp: keeps_widths_def insert_wager_Inr wager_widths_def identifiers_fit_def)
next
  case (7 i b v now d d')
  then show ?case by (auto simp: keeps_widths_def update_wallet_Inr Let_def)
next
  case (8 i a t now d n d')
  then show ?case by (rule widths_update_pending) (simp add: identifiers_fit_def reschedule_row_def)
next
  case (9 i c bal ref now d n d')
  then show ?case by (rule widths_update_pending) (simp add: identifiers_fit_def reject_row_def)
next
  case (10 i u bal now d n d')
  then show ?case by (rule widths_update_pending) (simp add: identifiers_fit_def processed_row_def)
qed (auto simp: keeps_widths_def insert_wallet_Inr insert_ledger_Inr insert_outbox_Inr insert_inbox_def
    update_inbox_def update_outbox_def split: if_splits)

lemma reachable_widths: "reachable s \<Longrightarrow> list_all identifiers_fit (wager_transactions (sys_db s))"
proof (induction rule: reachable_in.induct)
  case initial
  then show ?case by (simp add: empty_database_def)
next
  case (step s s')
  with widths.sys_step_R show ?case by (auto simp: keeps_widths_def)
qed

text \<open>A command whose provider id or idempotency key is wider than its column never succeeds.\<close>

lemma wide_commands_fail:
  assumes "reachable s" "d = sys_db s" "Service_Process E cmd (start_world d) m = (res, d', m')"
    and wide: "100 < characters (reqProviderID (cmdRequest cmd)) \<or> 255 < characters (cmdIdempotencyKey cmd)"
  shows "\<exists>e. res = Inl e"
proof (rule ccontr)
  assume "\<nexists>e. res = Inl e"
  then obtain r where r: "res = Inr r" by (cases res) auto
  from assms(3) [unfolded r] obtain w' where run: "ProcessTx cmd E (start_world d) = Inr (r, w')" and d': "d' = db w'"
    by (elim Service_Process_Inr) auto
  have "keeps_widths d d'"
    using keepsD [OF widths.keeps_ProcessTx run] d' by (simp add: start_world_def)
  then have fit: "list_all identifiers_fit (wager_transactions d')"
    using reachable_widths [OF assms(1)] assms(2) by (simp add: keeps_widths_def)
  have "recorded E cmd r d'" using command_result_recorded [OF ProcessTx_result [OF run]] d' by simp
  with fit wide show False
    by (auto simp: recorded_def list_all_iff identifiers_fit_def idempotency_identity_def)
qed

text \<open>The error is none of those the handler distinguishes, so it is answered with 500.\<close>

lemma too_long_status: "rsStatus (writeWagerError (Wrapped context (mapWagerUniqueViolation too_long))) = StatusInternalServerError"
  by (simp add: writeWagerError_def writeJSON_def mapWagerUniqueViolation_def too_long_def bad_request_errors_def)

end
