(* ===== verification/Spec2Isabelle.thy ===== *)
theory Spec2Isabelle
  imports Platform Inbox_Properties Reconciliation Resolver_Totality Column_Widths Wiring
begin

text \<open>
  A verification development of the wagering platform: a Go service that keeps wallets, moves
  their money on commands of game providers and announces what it did.

  \<^bold>\<open>The program and its theories.\<close> Commands arrive over HTTP (\<^verbatim>\<open>internal/infrastructure/httpapi\<close>) and over an
  SQS queue (\<^verbatim>\<open>internal/infrastructure/messaging/sqs\<close>); both reach \<^verbatim>\<open>Service.ProcessTx\<close> of
  \<^verbatim>\<open>internal/application/wagering\<close>, which works inside one PostgreSQL transaction on five tables. A resolver
  retries commands whose referenced transaction has not arrived, a publisher sends the stored events,
  three workers poll. The theories follow the packages:

  \<^item> \<open>Prelude\<close>, \<open>Go_Strings\<close>, \<open>Go_Time\<close>, \<open>Go_Json\<close>, \<open>Go_Json_Decode\<close>, \<open>Go_Json_Print\<close>, \<open>Go_Base64\<close>,
    \<open>Go_Sha256\<close>, \<open>Go_Float\<close>, \<open>Go_Http\<close>: what the program uses of Go and its standard library, written out.
  \<^item> \<open>Errors\<close>, \<open>Domain_Money\<close>, \<open>Domain_Wallet\<close>, \<open>Domain_Wager\<close>, \<open>Event_Payload\<close>: \<^verbatim>\<open>internal/domain\<close> and
    \<^verbatim>\<open>internal/application/eventpayload\<close>; amounts and versions are 64-bit words.
  \<^item> \<open>Pg_Schema\<close>, \<open>Pg_Statements\<close>, \<open>Tx\<close>: the tables with their constraints (\<^verbatim>\<open>migrations\<close>), the statements
    the code sends, and transactions: a program is a function of an environment (clock, UUIDs, the
    fault of each statement) and a world (database and counters), with an error or a result; \<open>run_tx\<close>
    begins, runs, commits or rolls back.
  \<^item> \<open>Wagering_Reference\<close>, \<open>Wagering_Persistence\<close>, \<open>Wagering_Process\<close>, \<open>Wagering_Resolver\<close>, \<open>Inbox\<close>, \<open>Wager_Query\<close>:
    \<^verbatim>\<open>internal/application/wagering\<close> and \<^verbatim>\<open>inbox.go\<close>. \<open>Wallet_Service\<close>: \<^verbatim>\<open>internal/application/wallet\<close>.
    \<open>Outbox\<close>, \<open>Backoff\<close>: \<^verbatim>\<open>outbox/publisher.go\<close> and the three back-offs. \<open>Sqs_Consumer\<close>: \<^verbatim>\<open>sqs/consumer.go\<close>.
    \<open>Workers\<close>: \<^verbatim>\<open>internal/worker\<close>, \<^verbatim>\<open>dlq_monitor.go\<close>, \<^verbatim>\<open>sqs/publisher.go\<close>. \<open>Metrics\<close>, \<open>Prometheus\<close>:
    \<^verbatim>\<open>internal/observability\<close>, the counters and the text they are scraped as. \<open>Wiring\<close>: reading the
    configuration, opening the database, starting and stopping the server (\<^verbatim>\<open>cmd/wagering-api\<close>, \<^verbatim>\<open>postgres/database.go\<close>).
  \<^item> \<open>Http_Auth\<close>, \<open>Http_Wager\<close>, \<open>Http_Wallet\<close>, \<open>Http_Server\<close>: \<^verbatim>\<open>internal/infrastructure/httpapi\<close>; a handler is a
    function of the request, the principal, the database and the counters.

  \<^bold>\<open>What is proved.\<close> \<open>Db_Contract\<close> states as a locale that a relation survives every statement and
  lifts it to every operation (\<open>wager_contract\<close> without the inbox, \<open>db_contract\<close> with it); \<open>Schema_Invariant\<close> (the constraints hold), \<open>History\<close> (nothing
  recorded is lost), \<open>Waiting_References\<close> (whatever waits names what it waits for) and
  \<open>Column_Widths\<close> (stored identifiers fit their columns) interpret it. \<open>Books\<close> defines when ledger and
  balances agree, \<open>Wagering_Refinement\<close> and \<open>Resolver_Refinement\<close> show that each operation is, for money, one step of
  a small abstract machine, \<open>System\<close> closes this under every interleaving around the wallet lock.
  \<open>Decision\<close>, \<open>Outcomes\<close>, \<open>Resolver_Decision\<close> and \<open>Idempotency\<close> give the exact result of a command; the
  resolver takes the decision of the handler. \<open>Totality\<close> and \<open>Resolver_Totality\<close> show that good commands and due
  transactions always get one: every statement of theirs satisfies every constraint of the schema. \<open>Message_Contract\<close> is the interface of the queue's
  processor, under which \<open>Consumer_Properties\<close> proves delivery; \<open>Carried_Out\<close> interprets it a second time, with the
  invariant that a completed message stands for a command whose transaction is stored. \<open>Ledger_Pages\<close> and \<open>Reconciliation\<close> treat the
  wallet queries, \<open>Http_Effects\<close> and \<open>Http_Properties\<close> the API, \<open>Channel_Properties\<close> a command sent over both
  channels, \<open>Announcements\<close> the events, \<open>Outbox_Properties\<close> and \<open>Inbox_Properties\<close> the two tables of
  messages. \<open>Platform\<close> puts server and workers together and shows that all they do is a run of
  \<open>System\<close> that keeps this invariant. \<open>Scenario\<close> and \<open>Http_Scenario\<close> hold a small history on which each property is applied.

  \<^bold>\<open>Bounds.\<close> Loops over lists are structural. The back-off loops get as much fuel as the attempts they
  count, JSON reading the length of its text, the calendar year of a time the days since 1970;
  each is shown or chosen to suffice where it is defined. The loops of the workers run over the list
  of their turns: the list bounds the run, and a loop that has used it up is still running.

  \<^bold>\<open>Hypotheses.\<close> UUID functions read back what they print, a short text (\<open>uuid_laws\<close>).
  The steps of \<open>System\<close> and \<open>Platform\<close> are for any assumption on the environments of a run: \<open>uuid_laws\<close>, or,
  where a property compares stored texts with ids, \<open>reads R\<close>: all of them read UUID texts by the one function \<open>R\<close>
  of the database. A failed commit may have been durable; where a
  property needs that it was not, it says so (\<open>unambiguous\<close>), and where it needs that no statement
  fails it says \<open>calm\<close>. The token verifier, \<^verbatim>\<open>SendMessage\<close>, \<^verbatim>\<open>DeleteMessage\<close> and the contexts are arguments.

  \<^bold>\<open>Not modelled.\<close> Rows that \<^verbatim>\<open>ORDER BY\<close> leaves tied are taken in the order of their insertion, where
  PostgreSQL may choose. The counters \<open>o_attempts\<close> and \<open>t_reference_attempts\<close> are unbounded where their columns are
  32-bit \<^verbatim>\<open>INTEGER\<close>, whose update would fail at 2^31 attempts. Transactions are atomic and serial, except that a command may wait for the wallet lock; row
  locks of other transactions are an argument of the statements with \<^verbatim>\<open>SKIP LOCKED\<close>. The padding of
  \<^verbatim>\<open>CHAR(3)\<close>, which does nothing to BRL, the only currency the API opens wallets in, and that PostgreSQL cuts
  off blanks beyond the width of a column where it refuses other text. Text that is not UTF-8 or
  holds a NUL: a statement given one fails, which is one of the faults. Times are microseconds, the zone
  of the host is UTC. Responses and stored events are values: their JSON text is not printed. Redirects
  of \<^verbatim>\<open>ServeMux\<close>, the listener, logging, and the dependency graph of \<^verbatim>\<open>cmd/wagering-api\<close>, which only
  calls third-party constructors.
\<close>

end
